(* ===== verification/Kernel_Prelude.thy ===== *)
theory Kernel_Prelude
  imports Main "HOL-Library.Word"
begin

text \<open>
  Shared vocabulary of the development: the kernel's integer types as words, the ways a
  piece of kernel code can end (a value, a panic, a failed \<open>KASSERT\<close>, an access outside
  an object), the sequencing of such code, the two loop shapes the C sources use
  (a search loop that stops at the first hit, a counting loop that threads a state), and
  the generic lemmas on lists and words that several components need.
\<close>

unbundle bit_operations_syntax

section \<open>Integer types of the C sources\<close>

type_synonym u8 = "8 word"
type_synonym u16 = "16 word"
type_synonym u32 = "32 word"
type_synonym u64 = "64 word"

section \<open>Outcomes of kernel code\<close>

text \<open>
  \<open>Panic\<close> is a call of \<open>panic\<close>, \<open>KAssertFail\<close> a failed \<open>KASSERT\<close> (or an
  \<open>ARRAYASSERT\<close>), \<open>BadAccess\<close> an access through a null pointer or outside an array,
  \<open>OutOfFuel\<close> the end of the fuel of a recursion whose termination is proved separately,
  \<open>Blocked\<close> a thread asleep on a wait channel that nothing is left to wake.
\<close>

datatype kerr = Panic string | KAssertFail | BadAccess | OutOfFuel | Blocked

type_synonym 'a res = "kerr + 'a"

text \<open>
  A C function that returns an \<open>int\<close> error code and stores its result through a pointer
  returns \<open>Fail e\<close> for the code \<open>e\<close> and \<open>Done x\<close> for code 0 with \<open>x\<close> stored.
\<close>

datatype 'a ret = Fail int | Done 'a

definition rbind :: "'a res \<Rightarrow> ('a \<Rightarrow> 'b res) \<Rightarrow> 'b res" where
  "rbind m f = (case m of Inl e \<Rightarrow> Inl e | Inr x \<Rightarrow> f x)"

definition kassert :: "bool \<Rightarrow> 'a res \<Rightarrow> 'a res" where
  "kassert b k = (if b then k else Inl KAssertFail)"

definition arr_get :: "'a list \<Rightarrow> nat \<Rightarrow> 'a res" where
  "arr_get xs i = (if i < length xs then Inr (xs ! i) else Inl BadAccess)"

definition arr_set :: "'a list \<Rightarrow> nat \<Rightarrow> 'a \<Rightarrow> 'a list res" where
  "arr_set xs i x = (if i < length xs then Inr (xs[i := x]) else Inl BadAccess)"

text \<open>Following a pointer that may be null.\<close>

definition deref :: "'a option \<Rightarrow> 'a res" where
  "deref p = (case p of None \<Rightarrow> Inl BadAccess | Some x \<Rightarrow> Inr x)"

text \<open>
  \<open>for (i = ...) if (P(i)) return i;\<close> over a list of indices, and
  \<open>for (i = ...) body(i);\<close> with the loop state threaded.
\<close>

primrec rfind :: "('i \<Rightarrow> bool res) \<Rightarrow> 'i list \<Rightarrow> 'i option res" where
  "rfind P [] = Inr None"
| "rfind P (i # is) = rbind (P i) (\<lambda>b. if b then Inr (Some i) else rfind P is)"

text \<open>\<open>for (i = ...) if (f(i) finds r) return r;\<close>\<close>

primrec rfirst :: "('i \<Rightarrow> 'b option res) \<Rightarrow> 'i list \<Rightarrow> 'b option res" where
  "rfirst f [] = Inr None"
| "rfirst f (i # is) = rbind (f i) (\<lambda>r. case r of None \<Rightarrow> rfirst f is | Some x \<Rightarrow> Inr (Some x))"

primrec rfold :: "('i \<Rightarrow> 's \<Rightarrow> 's res) \<Rightarrow> 'i list \<Rightarrow> 's \<Rightarrow> 's res" where
  "rfold f [] s = Inr s"
| "rfold f (i # is) s = rbind (f i s) (rfold f is)"

section \<open>Error codes of include/kern/errno.h\<close>

abbreviation ENOSYS :: int where "ENOSYS \<equiv> 1"
abbreviation ENOMEM :: int where "ENOMEM \<equiv> 3"
abbreviation EAGAIN :: int where "EAGAIN \<equiv> 4"
abbreviation EFAULT :: int where "EFAULT \<equiv> 6"
abbreviation ENAMETOOLONG :: int where "ENAMETOOLONG \<equiv> 7"
abbreviation EINVAL :: int where "EINVAL \<equiv> 8"
abbreviation ENOEXEC :: int where "ENOEXEC \<equiv> 13"
abbreviation ENOTDIR :: int where "ENOTDIR \<equiv> 17"
abbreviation EISDIR :: int where "EISDIR \<equiv> 18"
abbreviation ENOENT :: int where "ENOENT \<equiv> 19"
abbreviation EEXIST :: int where "EEXIST \<equiv> 22"
abbreviation EXDEV :: int where "EXDEV \<equiv> 24"
abbreviation ENODEV :: int where "ENODEV \<equiv> 25"
abbreviation ENXIO :: int where "ENXIO \<equiv> 26"
abbreviation EBUSY :: int where "EBUSY \<equiv> 27"
abbreviation EBADF :: int where "EBADF \<equiv> 30"
abbreviation EIOCTL :: int where "EIOCTL \<equiv> 31"
abbreviation EIO :: int where "EIO \<equiv> 32"
abbreviation ENOSPC :: int where "ENOSPC \<equiv> 36"
abbreviation EFBIG :: int where "EFBIG \<equiv> 38"

section \<open>Laws of sequencing\<close>

named_theorems res_simps \<open>evaluation of sequenced kernel code\<close>
named_theorems res_iff \<open>when sequenced kernel code returns a value\<close>

lemma rbind_Inr [simp, res_simps]: "rbind (Inr x) f = f x"
  by (simp add: rbind_def)

lemma rbind_Inl [simp, res_simps]: "rbind (Inl e) f = Inl e"
  by (simp add: rbind_def)

lemma rbind_assoc: "rbind (rbind m f) g = rbind m (\<lambda>x. rbind (f x) g)"
  by (cases m) simp_all

lemma rbind_eq_Inr [res_iff]: "rbind m f = Inr y \<longleftrightarrow> (\<exists>x. m = Inr x \<and> f x = Inr y)"
  by (cases m) simp_all

lemma rbind_cong [fundef_cong]:
  "m = m' \<Longrightarrow> (\<And>x. m' = Inr x \<Longrightarrow> f x = f' x) \<Longrightarrow> rbind m f = rbind m' f'"
  by (cases m') simp_all

lemma kassert_True [simp, res_simps]: "kassert True k = k"
  by (simp add: kassert_def)

lemma kassert_False [simp, res_simps]: "kassert False k = Inl KAssertFail"
  by (simp add: kassert_def)

lemma kassert_eq_Inr [res_iff]: "kassert b k = Inr y \<longleftrightarrow> b \<and> k = Inr y"
  by (cases b) simp_all

lemma arr_get_in [simp, res_simps]: "i < length xs \<Longrightarrow> arr_get xs i = Inr (xs ! i)"
  by (simp add: arr_get_def)

lemma arr_get_eq_Inr [res_iff]: "arr_get xs i = Inr x \<longleftrightarrow> i < length xs \<and> x = xs ! i"
  by (auto simp: arr_get_def)

lemma arr_set_in [simp, res_simps]: "i < length xs \<Longrightarrow> arr_set xs i x = Inr (xs[i := x])"
  by (simp add: arr_set_def)

lemma arr_set_eq_Inr [res_iff]: "arr_set xs i x = Inr ys \<longleftrightarrow> i < length xs \<and> ys = xs[i := x]"
  by (auto simp: arr_set_def)

lemma deref_simps [simp, res_simps]: "deref (Some x) = Inr x" "deref None = Inl BadAccess"
  by (simp_all add: deref_def)

lemma deref_eq_Inr [res_iff]: "deref p = Inr x \<longleftrightarrow> p = Some x"
  by (cases p) simp_all

lemma if_eq_Inr [res_iff]: "(if b then m else Inl e) = Inr y \<longleftrightarrow> b \<and> m = Inr y"
  by simp

section \<open>Laws of the loops\<close>

lemma rfind_find:
  "(\<And>i. i \<in> set is \<Longrightarrow> P i = Inr (Q i)) \<Longrightarrow> rfind P is = Inr (find Q is)"
  by (induction "is") simp_all

lemma rfind_append:
  "rfind P (xs @ ys) =
     rbind (rfind P xs) (\<lambda>r. case r of None \<Rightarrow> rfind P ys | Some i \<Rightarrow> Inr (Some i))"
  by (induction xs) (simp_all add: rbind_assoc if_distrib [of "\<lambda>m. rbind m _"] cong: if_cong rbind_cong)

lemma rfold_append: "rfold f (xs @ ys) s = rbind (rfold f xs s) (rfold f ys)"
  by (induction xs arbitrary: s) (simp_all add: rbind_assoc cong: rbind_cong)

lemma rfold_fold:
  "(\<And>i s. i \<in> set is \<Longrightarrow> f i s = Inr (g i s)) \<Longrightarrow> rfold f is s = Inr (fold g is s)"
  by (induction "is" arbitrary: s) simp_all

text \<open>The invariant rule for a counting loop \<open>for (i = 0; i < n; i++)\<close>.\<close>

lemma rfold_upt_invariant:
  assumes "I 0 s"
    and "\<And>i s. i < n \<Longrightarrow> I i s \<Longrightarrow> \<exists>s'. f i s = Inr s' \<and> I (Suc i) s'"
  shows "\<exists>s'. rfold f [0..<n] s = Inr s' \<and> I n s'"
  using assms
proof (induction n)
  case 0
  then show ?case by simp
next
  case (Suc n)
  then obtain s' where "rfold f [0..<n] s = Inr s'" and "I n s'"
    by (meson less_SucI)
  moreover obtain t where "f n s' = Inr t" and "I (Suc n) t"
    using Suc.prems(2) [of n s'] calculation by auto
  ultimately show ?case
    by (simp add: rfold_append)
qed

lemma find_upt_Some_iff:
  "find P [0..<n] = Some i \<longleftrightarrow> i < n \<and> P i \<and> (\<forall>j<i. \<not> P j)"
  by (auto simp: find_Some_iff)

lemma find_upt_None_iff: "find P [0..<n] = None \<longleftrightarrow> (\<forall>i<n. \<not> P i)"
  by (auto simp: find_None_iff)

lemma find_upt_unique:
  assumes "\<And>j. j < n \<Longrightarrow> P j \<Longrightarrow> j = i" "i < n" "P i"
  shows "find P [0..<n] = Some i"
proof -
  have "\<not> P j" if "j < i" for j
    using that assms(1) [of j] assms(2) by auto
  then show ?thesis
    using assms(2,3) by (simp add: find_upt_Some_iff)
qed

lemma find_unique:
  assumes "x \<in> set xs" "P x" "\<And>y. y \<in> set xs \<Longrightarrow> P y \<Longrightarrow> y = x"
  shows "find P xs = Some x"
proof (cases "find P xs")
  case None
  then show ?thesis
    using assms(1,2) by (simp add: find_None_iff)
next
  case (Some y)
  then have "y \<in> set xs" "P y"
    by (auto simp: find_Some_iff)
  then show ?thesis
    using Some assms(3) by simp
qed

lemma find_append: "find Q (xs @ ys) = (case find Q xs of None \<Rightarrow> find Q ys | Some x \<Rightarrow> Some x)"
  by (induction xs) auto

lemma find_filter: "find Q (filter P xs) = find (\<lambda>x. P x \<and> Q x) xs"
  by (induction xs) auto

text \<open>Counting the elements with a property across an update of one element.\<close>

lemma filter_length_update:
  "i < length xs \<Longrightarrow>
   length (filter P (xs[i := x])) + (if P (xs ! i) then 1 else 0) =
   length (filter P xs) + (if P x then 1 else 0)"
proof (induction xs arbitrary: i)
  case (Cons y ys)
  then show ?case
    by (cases i) (use Cons.IH [of "i - 1"] in auto)
qed simp

text \<open>Index lists with numeral bounds, for evaluating loops on concrete inputs.\<close>

named_theorems eval_simps \<open>evaluation of loops on concrete inputs\<close>

lemma upt_0_numeral [eval_simps]: "[0..<numeral k] = 0 # [1..<numeral k]"
  by (simp add: upt_rec)

lemma upt_1_numeral [eval_simps]:
  "[Suc 0..<numeral k] = (if Suc 0 < numeral k then Suc 0 # [2..<numeral k] else [])"
  by (simp only: upt_rec [of "Suc 0"] numeral_2_eq_2)

section \<open>Words\<close>

lemma unat_mono_le: "a \<le> b \<longleftrightarrow> unat a \<le> unat b"
  by (rule word_le_nat_alt)

lemma unat_u32_less: "unat (w :: u32) < 2 ^ 32"
  using unsigned_less [of w] by simp

lemma unat_of_nat_u32 [simp]: "n < 2 ^ 32 \<Longrightarrow> unat (of_nat n :: u32) = n"
  by (simp add: unat_of_nat)

lemma unat_ucast_up:
  "LENGTH('a::len) \<le> LENGTH('b::len) \<Longrightarrow> unat (ucast (w :: 'a word) :: 'b word) = unat w"
proof -
  assume le: "LENGTH('a) \<le> LENGTH('b)"
  have "unat w < 2 ^ LENGTH('a)"
    by (rule unsigned_less)
  also have "(2 :: nat) ^ LENGTH('a) \<le> 2 ^ LENGTH('b)"
    using le by (rule power_increasing) simp
  finally have "unat w < 2 ^ LENGTH('b)" .
  then show ?thesis
    by (simp add: unsigned_ucast_eq take_bit_nat_eq_self)
qed

lemma ucast_ucast_up [simp]:
  "LENGTH('a::len) \<le> LENGTH('b::len) \<Longrightarrow> (ucast (ucast (w :: 'a word) :: 'b word) :: 'a word) = w"
  by (rule bit_word_eqI) (auto simp: bit_simps)

lemma of_nat_less_u32: "n < unat w \<Longrightarrow> (of_nat n :: u32) < w"
  using unat_u32_less [of w] by (simp add: word_less_nat_alt)

lemma bit_or_exp [simp]:
  fixes w :: "'a::len word"
  shows "bit (w OR 2 ^ n) m \<longleftrightarrow> bit w m \<or> (m = n \<and> n < LENGTH('a))"
  by (auto simp: bit_or_iff bit_exp_iff)

lemma bit_and_not_exp [simp]:
  fixes w :: "'a::len word"
  shows "bit (w AND NOT (2 ^ n)) m \<longleftrightarrow> bit w m \<and> m \<noteq> n"
  by (auto simp: bit_and_iff bit_not_iff bit_exp_iff dest: bit_imp_le_length)

lemma and_exp_eq:
  fixes w :: "'a::len word"
  shows "w AND 2 ^ n = (if bit w n then 2 ^ n else 0)"
  by (intro bit_word_eqI) (auto simp: bit_and_iff bit_exp_iff)

lemma and_exp_eq_0_iff [simp]:
  fixes w :: "'a::len word"
  shows "w AND 2 ^ n = 0 \<longleftrightarrow> \<not> bit w n"
  by (auto simp: and_exp_eq dest: bit_imp_le_length)

lemma all_ones_iff:
  fixes w :: "'a::len word"
  shows "w = - 1 \<longleftrightarrow> (\<forall>i<LENGTH('a). bit w i)"
  by (auto intro!: bit_word_eqI simp: bit_minus_1_iff)

end
