(* ===== verification/Mips_Vm.thy ===== *)
theory Mips_Vm
  imports Kernel_Prelude
begin

text \<open>
  The MIPS memory layout (arch/mips/include/vm.h), the address space structure
  (include/addrspace.h) and the segment tests of vm/segments.c, with the arithmetic of
  page numbers and page-aligned addresses that the page table, the TLB and the fault
  handler share.
\<close>

section \<open>Memory layout\<close>

abbreviation PAGE_SIZE :: u32 where "PAGE_SIZE \<equiv> 4096"
abbreviation PAGE_FRAME :: u32 where "PAGE_FRAME \<equiv> 0xfffff000"
abbreviation MIPS_KSEG0 :: u32 where "MIPS_KSEG0 \<equiv> 0x80000000"
abbreviation USERSPACETOP :: u32 where "USERSPACETOP \<equiv> MIPS_KSEG0"
abbreviation USERSTACK :: u32 where "USERSTACK \<equiv> USERSPACETOP"

definition PADDR_TO_KVADDR :: "u32 \<Rightarrow> u32" where
  "PADDR_TO_KVADDR paddr = paddr + MIPS_KSEG0"

text \<open>Limits of include/vm.h.\<close>

abbreviation MAX_PAGES_PER_PROCESS :: nat where "MAX_PAGES_PER_PROCESS \<equiv> 120"
abbreviation MAX_CODE_SEGMENT_PAGES :: nat where "MAX_CODE_SEGMENT_PAGES \<equiv> 16"
abbreviation MAX_DATA_SEGMENT_PAGES :: nat where "MAX_DATA_SEGMENT_PAGES \<equiv> 100"
abbreviation MAX_STACK_SEGMENT_PAGES :: nat where "MAX_STACK_SEGMENT_PAGES \<equiv> 16"
abbreviation MAX_PAGES_ALLOC :: nat where "MAX_PAGES_ALLOC \<equiv> 10"

section \<open>Address spaces and segments\<close>

record addrspace =
  as_vbase_code :: u32
  as_npages_code :: u16
  as_npages_code_loaded :: u16
  as_vbase_data :: u32
  as_npages_data :: u16
  as_npages_data_loaded :: u16
  as_vbase_bss :: u32
  as_vbase_stack :: u32
  as_npages_stack :: u16

definition is_codeSegment :: "u32 \<Rightarrow> addrspace \<Rightarrow> bool" where
  "is_codeSegment vaddr as =
     (let offset = push_bit 12 (ucast (as_npages_code as) :: u32)
      in vaddr \<le> as_vbase_code as + offset \<and> vaddr \<ge> as_vbase_code as)"

definition is_dataSegment :: "u32 \<Rightarrow> addrspace \<Rightarrow> bool" where
  "is_dataSegment vaddr as =
     (let offset = push_bit 12 (ucast (as_npages_data as) :: u32)
      in vaddr \<le> as_vbase_data as + offset \<and> vaddr \<ge> as_vbase_data as)"

definition is_bssSegment :: "u32 \<Rightarrow> addrspace \<Rightarrow> bool" where
  "is_bssSegment vaddr as =
     (let offset = push_bit 12 (ucast (as_npages_data as) :: u32)
      in vaddr \<le> as_vbase_bss as + offset \<and> vaddr \<ge> as_vbase_bss as)"

section \<open>Page arithmetic\<close>

lemma div_page_size: "(v :: u32) div PAGE_SIZE = drop_bit 12 v"
  by (simp add: drop_bit_eq_div)

lemma page_frame_mask: "PAGE_FRAME = NOT (mask 12)"
  by (simp add: mask_eq_exp_minus_1)

lemma and_page_frame: "v AND PAGE_FRAME = push_bit 12 (drop_bit 12 v)"
  unfolding page_frame_mask by (rule bit_word_eqI) (auto simp: bit_simps)

lemma page_frame_eq_iff:
  "v AND PAGE_FRAME = w AND PAGE_FRAME \<longleftrightarrow> v div PAGE_SIZE = w div PAGE_SIZE"
proof -
  have "drop_bit 12 (push_bit 12 (drop_bit 12 x)) = drop_bit 12 x" for x :: u32
    by (rule bit_word_eqI) (auto simp: bit_simps dest: bit_imp_le_length)
  then show ?thesis
    unfolding and_page_frame div_page_size by metis
qed

lemma page_frame_idem [simp]: "v AND PAGE_FRAME AND PAGE_FRAME = v AND PAGE_FRAME"
  by (rule bit_word_eqI) (auto simp: bit_simps)

lemma page_frame_div [simp]: "(v AND PAGE_FRAME) div PAGE_SIZE = v div PAGE_SIZE"
  using page_frame_eq_iff [of "v AND PAGE_FRAME" v] by simp

lemma unat_div_page: "unat ((v :: u32) div PAGE_SIZE) = unat v div 4096"
  by (simp add: unat_div_distrib)

lemma page_number_less: "unat ((v :: u32) div PAGE_SIZE) < 2 ^ 20"
  using unat_u32_less [of v] by (simp add: unat_div_page less_mult_imp_div_less)

text \<open>The frame address \<open>i * PAGE_SIZE\<close> of a frame index below \<open>2 ^ 20\<close> does not wrap.\<close>

lemma frame_addr_unat:
  assumes "i < 2 ^ 20"
  shows "unat (of_nat i * PAGE_SIZE) = i * 4096"
proof -
  have "i * 4096 < 2 ^ 32"
    using assms by simp
  then show ?thesis
    by (simp add: unat_word_ariths(2) unat_of_nat)
qed

lemma page_times_size:
  assumes "unat (p :: u32) < 2 ^ 20"
  shows "p * PAGE_SIZE div PAGE_SIZE = p"
proof -
  have "unat (p * PAGE_SIZE) = unat p * 4096"
    using frame_addr_unat [OF assms] by simp
  then show ?thesis
    by (intro word_unat_eq_iff [THEN iffD2]) (simp add: unat_div_distrib)
qed

end
