(* ===== verification/Page_Table.thy ===== *)
theory Page_Table
  imports Mips_Vm
begin

text \<open>
  The inverted page table of vm/pt.c: one entry per physical frame, the search for the
  frame that holds a page, the insertion of a page, and the search for a victim page of
  the current process. The globals of pt.c and the parts of \<open>curproc\<close> they read form the
  record \<open>pt_state\<close>, which the later components extend. The time stamps that
  \<open>pageSearch\<close> accumulates for the statistics are not modelled.
\<close>

section \<open>State\<close>

record invertedPT =
  Dirty :: bool
  Valid :: bool
  pt_pid :: u8
  page_number :: u32
  victim_counter :: u16

record pt_state =
  main_PG :: "invertedPT list"
  PAGETABLE_ENTRY :: u32
  pt_counter :: u32
  curproc_pid :: u32
  curproc_as :: "addrspace option"

abbreviation noEntryFound :: int where "noEntryFound \<equiv> - 1"

text \<open>The indices of \<open>for (i = 0; i < PAGETABLE_ENTRY; i++)\<close>.\<close>

abbreviation pt_indices :: "'a pt_state_scheme \<Rightarrow> nat list" where
  "pt_indices s \<equiv> [0..<unat (PAGETABLE_ENTRY s)]"

section \<open>Operations\<close>

definition pageSearch :: "u32 \<Rightarrow> 'a pt_state_scheme \<Rightarrow> int res" where
  "pageSearch addr s =
     rbind (rfind (\<lambda>i. rbind (arr_get (main_PG s) i)
                     (\<lambda>e. Inr (Valid e \<and> page_number e = addr div PAGE_SIZE)))
              (pt_indices s))
       (\<lambda>r. case r of None \<Rightarrow> Inr noEntryFound | Some index \<Rightarrow> Inr (int index))"

definition addPT :: "u32 \<Rightarrow> u32 \<Rightarrow> u32 \<Rightarrow> bool \<Rightarrow> 'a pt_state_scheme \<Rightarrow> 'a pt_state_scheme res" where
  "addPT frame_index vaddr pid dirty s =
     (let vaddr = vaddr AND PAGE_FRAME; vaddr = vaddr div PAGE_SIZE
      in rbind (arr_get (main_PG s) (unat frame_index)) (\<lambda>e.
         if Valid e \<and> \<not> (page_number e = 0 \<and> pt_pid e = 0)
         then Inl (Panic ''addPT() error: You cannot add this page table'')
         else Inr (s\<lparr>main_PG := (main_PG s)[unat frame_index :=
                e\<lparr>page_number := vaddr, Valid := True, pt_pid := ucast pid, Dirty := dirty\<rparr>]\<rparr>)))"

text \<open>
  One iteration of the loop of \<open>victim_pageSearch\<close>; the loop state is
  \<open>(first, min_value, victim_page)\<close>. The segment test of the current process's address
  space is read only when the process identifier matches.
\<close>

definition victim_segment :: "bool \<Rightarrow> u32 \<Rightarrow> addrspace \<Rightarrow> bool" where
  "victim_segment type vaddr as = (if \<not> type then is_codeSegment vaddr as else is_dataSegment vaddr as)"

definition victim_step ::
    "bool \<Rightarrow> 'a pt_state_scheme \<Rightarrow> nat \<Rightarrow> bool \<times> u32 \<times> int \<Rightarrow> (bool \<times> u32 \<times> int) res" where
  "victim_step type s i st =
     (case st of (first, min_value, victim_page) \<Rightarrow>
        rbind (arr_get (main_PG s) i) (\<lambda>e.
        if ucast (pt_pid e) = curproc_pid s then
          rbind (deref (curproc_as s)) (\<lambda>as.
          if victim_segment type (page_number e * PAGE_SIZE) as then
            (if first then Inr (False, ucast (victim_counter e), int i)
             else if min_value > ucast (victim_counter e) then Inr (first, ucast (victim_counter e), int i)
             else Inr st)
          else Inr st)
        else Inr st))"

definition victim_pageSearch :: "bool \<Rightarrow> 'a pt_state_scheme \<Rightarrow> int res" where
  "victim_pageSearch type s =
     rbind (rfold (victim_step type s) (pt_indices s) (True, 0, noEntryFound))
       (\<lambda>(first, min_value, victim_page). Inr victim_page)"

section \<open>Well-formedness and lookup\<close>

text \<open>
  The table has \<open>PAGETABLE_ENTRY\<close> entries, at most one per frame of the 512 megabytes that
  kseg0 can address.
\<close>

definition pt_wf :: "'a pt_state_scheme \<Rightarrow> bool" where
  "pt_wf s \<longleftrightarrow> length (main_PG s) = unat (PAGETABLE_ENTRY s) \<and> length (main_PG s) \<le> 2 ^ 17"

text \<open>\<open>pt_holds s i p\<close>: entry \<open>i\<close> is a valid entry for page number \<open>p\<close>.\<close>

definition pt_holds :: "'a pt_state_scheme \<Rightarrow> nat \<Rightarrow> u32 \<Rightarrow> bool" where
  "pt_holds s i p \<longleftrightarrow> i < length (main_PG s) \<and> Valid (main_PG s ! i) \<and> page_number (main_PG s ! i) = p"

text \<open>
  The page table as a map from page numbers to frames. Page number 0 marks the frames
  the kernel uses for itself and is not looked up.
\<close>

definition pt_view :: "'a pt_state_scheme \<Rightarrow> u32 \<Rightarrow> nat option" where
  "pt_view s p = (if p = 0 then None else find (\<lambda>i. pt_holds s i p) [0..<length (main_PG s)])"

text \<open>No page but page 0 has two valid entries.\<close>

definition pt_unique :: "'a pt_state_scheme \<Rightarrow> bool" where
  "pt_unique s \<longleftrightarrow>
     (\<forall>i<length (main_PG s). \<forall>j<length (main_PG s). Valid (main_PG s ! i) \<longrightarrow> Valid (main_PG s ! j) \<longrightarrow>
        page_number (main_PG s ! i) \<noteq> 0 \<longrightarrow> page_number (main_PG s ! i) = page_number (main_PG s ! j) \<longrightarrow> i = j)"

lemma pt_uniqueD:
  "pt_unique s \<Longrightarrow> pt_holds s i p \<Longrightarrow> pt_holds s j p \<Longrightarrow> p \<noteq> 0 \<Longrightarrow> i = j"
  by (simp add: pt_unique_def pt_holds_def)

lemma pt_uniqueI:
  "(\<And>i j p. pt_holds s i p \<Longrightarrow> pt_holds s j p \<Longrightarrow> p \<noteq> 0 \<Longrightarrow> i = j) \<Longrightarrow> pt_unique s"
  by (simp add: pt_unique_def pt_holds_def)

lemma pt_view_None: "p \<noteq> 0 \<Longrightarrow> pt_view s p = None \<longleftrightarrow> (\<forall>i. \<not> pt_holds s i p)"
  by (auto simp: pt_view_def find_upt_None_iff pt_holds_def)

lemma pt_view_Some: "pt_view s p = Some i \<Longrightarrow> pt_holds s i p"
  by (simp add: pt_view_def find_upt_Some_iff split: if_split_asm)

lemma pt_view_unique:
  assumes "pt_unique s" "p \<noteq> 0"
  shows "pt_view s p = Some i \<longleftrightarrow> pt_holds s i p"
proof
  assume i: "pt_holds s i p"
  then obtain j where "pt_view s p = Some j"
    using pt_view_None [OF assms(2), of s] by (cases "pt_view s p") blast+
  then show "pt_view s p = Some i"
    using pt_uniqueD [OF assms(1) i pt_view_Some assms(2)] by simp
qed (rule pt_view_Some)

text \<open>The search loop is a \<open>find\<close> over the entries.\<close>

lemma pageSearch_find:
  assumes "pt_wf s"
  shows "pageSearch addr s =
    Inr (case find (\<lambda>i. pt_holds s i (addr div PAGE_SIZE)) [0..<length (main_PG s)] of
           None \<Rightarrow> noEntryFound | Some i \<Rightarrow> int i)"
proof -
  have "rfind (\<lambda>i. rbind (arr_get (main_PG s) i)
           (\<lambda>e. Inr (Valid e \<and> page_number e = addr div PAGE_SIZE))) (pt_indices s) =
        Inr (find (\<lambda>i. pt_holds s i (addr div PAGE_SIZE)) (pt_indices s))"
    using assms by (intro rfind_find) (auto simp: pt_wf_def pt_holds_def)
  then show ?thesis
    using assms by (simp add: pageSearch_def pt_wf_def split: option.split)
qed

lemma pageSearch_view:
  "pt_wf s \<Longrightarrow> addr div PAGE_SIZE \<noteq> 0 \<Longrightarrow>
   pageSearch addr s = Inr (case pt_view s (addr div PAGE_SIZE) of None \<Rightarrow> noEntryFound | Some i \<Rightarrow> int i)"
  by (simp add: pageSearch_find pt_view_def)

section \<open>Adding a page\<close>

text \<open>A frame may be given a page when its entry is not valid or carries the kernel's mark.\<close>

definition pt_available :: "'a pt_state_scheme \<Rightarrow> nat \<Rightarrow> bool" where
  "pt_available s f \<longleftrightarrow> f < length (main_PG s) \<and>
     (Valid (main_PG s ! f) \<longrightarrow> page_number (main_PG s ! f) = 0 \<and> pt_pid (main_PG s ! f) = 0)"

lemma addPT_available:
  "pt_available s (unat f) \<Longrightarrow>
   addPT f vaddr pid d s = Inr (s\<lparr>main_PG := (main_PG s)[unat f := (main_PG s ! unat f)
     \<lparr>page_number := vaddr div PAGE_SIZE, Valid := True, pt_pid := ucast pid, Dirty := d\<rparr>]\<rparr>)"
  by (auto simp: addPT_def pt_available_def)

lemma addPT_occupied:
  "unat f < length (main_PG s) \<Longrightarrow> \<not> pt_available s (unat f) \<Longrightarrow>
   addPT f vaddr pid d s = Inl (Panic ''addPT() error: You cannot add this page table'')"
  by (auto simp: addPT_def pt_available_def)

lemma addPT_wf: "addPT f vaddr pid d s = Inr s' \<Longrightarrow> pt_wf s \<Longrightarrow> pt_wf s'"
  by (auto simp: addPT_def pt_wf_def Let_def rbind_eq_Inr split: if_split_asm)

lemma addPT_length: "addPT f vaddr pid d s = Inr s' \<Longrightarrow> length (main_PG s') = length (main_PG s)"
  by (auto simp: addPT_def Let_def rbind_eq_Inr split: if_split_asm)

lemma addPT_holds:
  assumes "addPT f vaddr pid d s = Inr s'"
  shows "pt_holds s' i p \<longleftrightarrow>
    (if i = unat f then p = vaddr div PAGE_SIZE else pt_holds s i p)"
  using assms
  by (auto simp: addPT_def pt_holds_def Let_def rbind_eq_Inr arr_get_eq_Inr nth_list_update split: if_split_asm)

lemma addPT_unique:
  assumes "addPT f vaddr pid d s = Inr s'" "pt_unique s"
    and "\<And>i. \<not> pt_holds s i (vaddr div PAGE_SIZE)"
  shows "pt_unique s'"
proof (rule pt_uniqueI)
  fix i j p
  assume "pt_holds s' i p" "pt_holds s' j p" and p: "p \<noteq> 0"
  then show "i = j"
    using pt_uniqueD [OF assms(2) _ _ p] assms(3)
    by (cases "i = unat f"; cases "j = unat f") (auto simp: addPT_holds [OF assms(1)])
qed

lemma addPT_available_holds:
  assumes "addPT f vaddr pid d s = Inr s'" "pt_holds s (unat f) p"
  shows "p = 0"
  using assms
  by (auto simp: addPT_def pt_holds_def Let_def rbind_eq_Inr arr_get_eq_Inr split: if_split_asm)

lemma addPT_view:
  assumes "addPT f vaddr pid d s = Inr s'" "pt_unique s" "vaddr div PAGE_SIZE \<noteq> 0"
    and none: "pt_view s (vaddr div PAGE_SIZE) = None"
  shows "pt_view s' = (pt_view s)(vaddr div PAGE_SIZE \<mapsto> unat f)"
proof
  fix p
  have free: "\<not> pt_holds s i (vaddr div PAGE_SIZE)" for i
    using none pt_view_None [OF assms(3)] by blast
  note u' = addPT_unique [OF assms(1,2) free]
  show "pt_view s' p = ((pt_view s)(vaddr div PAGE_SIZE \<mapsto> unat f)) p"
  proof (cases "p = 0 \<or> p = vaddr div PAGE_SIZE")
    case True
    then show ?thesis
      using pt_view_unique [OF u' assms(3), of "unat f"] assms(3)
      by (elim disjE) (simp_all add: addPT_holds [OF assms(1)] pt_view_def [of _ 0])
  next
    case False
    then have "pt_holds s' i p = pt_holds s i p" for i
      using addPT_available_holds [OF assms(1), of p] by (simp add: addPT_holds [OF assms(1)]) blast
    then show ?thesis
      using False by (simp add: pt_view_def addPT_length [OF assms(1)])
  qed
qed

section \<open>Victim search\<close>

text \<open>The entries among which a victim is chosen: those of the current process whose page lies in the segment.\<close>

definition victim_candidate :: "bool \<Rightarrow> 'a pt_state_scheme \<Rightarrow> nat \<Rightarrow> bool" where
  "victim_candidate type s i \<longleftrightarrow> i < length (main_PG s) \<and>
     ucast (pt_pid (main_PG s ! i)) = curproc_pid s \<and>
     victim_segment type (page_number (main_PG s ! i) * PAGE_SIZE) (the (curproc_as s))"

abbreviation pt_age :: "'a pt_state_scheme \<Rightarrow> nat \<Rightarrow> u16" where
  "pt_age s i \<equiv> victim_counter (main_PG s ! i)"

text \<open>\<open>v\<close> is the first of the oldest candidates below \<open>n\<close>.\<close>

definition oldest_below :: "bool \<Rightarrow> 'a pt_state_scheme \<Rightarrow> nat \<Rightarrow> nat \<Rightarrow> bool" where
  "oldest_below type s n v \<longleftrightarrow> v < n \<and> victim_candidate type s v \<and>
     (\<forall>j<n. victim_candidate type s j \<longrightarrow> pt_age s v \<le> pt_age s j \<and> (pt_age s j = pt_age s v \<longrightarrow> v \<le> j))"

text \<open>The loop invariant of the victim search after \<open>n\<close> entries.\<close>

definition victim_inv :: "bool \<Rightarrow> 'a pt_state_scheme \<Rightarrow> nat \<Rightarrow> bool \<times> u32 \<times> int \<Rightarrow> bool" where
  "victim_inv type s n st \<longleftrightarrow> (case st of (first, min_value, victim_page) \<Rightarrow>
     if first then victim_page = noEntryFound \<and> (\<forall>j<n. \<not> victim_candidate type s j)
     else (\<exists>v. victim_page = int v \<and> min_value = ucast (pt_age s v) \<and> oldest_below type s n v))"

lemma ucast_u16_less: "(ucast (a :: u16) :: u32) < ucast b \<longleftrightarrow> a < b"
  by (simp add: word_less_nat_alt unat_ucast_up)

lemma oldest_below_new:
  "victim_candidate type s n \<Longrightarrow> (\<And>j. j < n \<Longrightarrow> victim_candidate type s j \<Longrightarrow> pt_age s n < pt_age s j) \<Longrightarrow>
   oldest_below type s (Suc n) n"
  by (force simp: oldest_below_def less_Suc_eq)

lemma oldest_below_keep:
  "oldest_below type s n k \<Longrightarrow> (victim_candidate type s n \<Longrightarrow> pt_age s k \<le> pt_age s n) \<Longrightarrow>
   oldest_below type s (Suc n) k"
  by (simp add: oldest_below_def less_Suc_eq)

lemma victim_step_inv:
  assumes "pt_wf s" "curproc_as s \<noteq> None" "n < length (main_PG s)" "victim_inv type s n st"
  shows "\<exists>st'. victim_step type s n st = Inr st' \<and> victim_inv type s (Suc n) st'"
proof -
  obtain first m v where st: "st = (first, m, v)"
    by (cases st)
  let ?c = "victim_candidate type s n"
  have step: "victim_step type s n st =
      (if ?c then
         (if first then Inr (False, ucast (pt_age s n), int n)
          else if m > ucast (pt_age s n) then Inr (first, ucast (pt_age s n), int n) else Inr st)
       else Inr st)"
    using assms(2,3) by (auto simp: victim_step_def st victim_candidate_def)
  show ?thesis
  proof (cases first)
    case True
    then have none: "v = noEntryFound" "\<not> victim_candidate type s j" if "j < n" for j
      using assms(4) that by (simp_all add: victim_inv_def st)
    then have "oldest_below type s (Suc n) n" if ?c
      using that by (intro oldest_below_new) auto
    then show ?thesis
      using True assms(4) unfolding step by (auto simp: victim_inv_def st less_Suc_eq)
  next
    case False
    then obtain k where k: "v = int k" "m = ucast (pt_age s k)" "oldest_below type s n k"
      using assms(4) by (auto simp: victim_inv_def st)
    show ?thesis
    proof (cases "?c \<and> pt_age s n < pt_age s k")
      case True
      then have "oldest_below type s (Suc n) n"
        using k(3) by (intro oldest_below_new) (auto simp: oldest_below_def)
      then show ?thesis
        using True False k(2) by (simp add: step victim_inv_def ucast_u16_less)
    next
      case no: False
      then have "oldest_below type s (Suc n) k"
        using k(3) by (intro oldest_below_keep) auto
      moreover have "victim_step type s n st = Inr st"
        using no False k(2) unfolding step by (auto simp: ucast_u16_less)
      ultimately show ?thesis
        using False k(1,2) by (auto simp: victim_inv_def st)
    qed
  qed
qed

lemma victim_pageSearch_spec:
  assumes "pt_wf s" "curproc_as s \<noteq> None"
  shows "\<exists>v. victim_pageSearch type s = Inr v \<and>
    (if v = noEntryFound then \<forall>j. \<not> victim_candidate type s j
     else v \<ge> 0 \<and> oldest_below type s (length (main_PG s)) (nat v))"
proof -
  have "\<exists>st. rfold (victim_step type s) [0..<length (main_PG s)] (True, 0, noEntryFound) = Inr st \<and>
      victim_inv type s (length (main_PG s)) st"
  proof (rule rfold_upt_invariant)
    show "victim_inv type s 0 (True, 0, noEntryFound)"
      by (simp add: victim_inv_def)
  qed (rule victim_step_inv [OF assms])
  then obtain first m v where v: "victim_pageSearch type s = Inr v"
    and inv: "victim_inv type s (length (main_PG s)) (first, m, v)"
    using assms(1) by (auto simp: victim_pageSearch_def pt_wf_def)
  show ?thesis
  proof (cases first)
    case True
    then show ?thesis
      using inv v by (intro exI [of _ v]) (auto simp: victim_inv_def victim_candidate_def)
  next
    case False
    then obtain k where "v = int k" "oldest_below type s (length (main_PG s)) k"
      using inv by (auto simp: victim_inv_def)
    then show ?thesis
      using v by (intro exI [of _ "int k"]) simp
  qed
qed

section \<open>Properties\<close>

text \<open>
  C20: On a well-formed table \<open>pageSearch\<close> never reads outside the table; it returns the
  least index whose entry is valid and carries the page number of the address, and
  \<open>noEntryFound\<close> exactly when no valid entry does.
\<close>

theorem pageSearch_correct:
  assumes "pt_wf s"
  shows "\<exists>r. pageSearch addr s = Inr r \<and>
    (r = noEntryFound \<longleftrightarrow> (\<forall>i. \<not> pt_holds s i (addr div PAGE_SIZE))) \<and>
    (r \<noteq> noEntryFound \<longrightarrow> 0 \<le> r \<and> pt_holds s (nat r) (addr div PAGE_SIZE) \<and>
       (\<forall>j<nat r. \<not> pt_holds s j (addr div PAGE_SIZE)))"
proof (cases "find (\<lambda>i. pt_holds s i (addr div PAGE_SIZE)) [0..<length (main_PG s)]")
  case None
  then have "\<not> pt_holds s i (addr div PAGE_SIZE)" for i
    unfolding find_upt_None_iff pt_holds_def by blast
  then show ?thesis
    using None by (intro exI [of _ noEntryFound]) (simp add: pageSearch_find [OF assms])
next
  case (Some i)
  then have "pt_holds s i (addr div PAGE_SIZE)" "\<forall>j<i. \<not> pt_holds s j (addr div PAGE_SIZE)"
    unfolding find_upt_Some_iff by blast+
  then show ?thesis
    using Some by (intro exI [of _ "int i"]) (auto simp: pageSearch_find [OF assms])
qed

text \<open>A table of four frames: two kernel frames, a code page and a data page of process 2.\<close>

definition example_pt :: pt_state where
  "example_pt = \<lparr>main_PG =
       [\<lparr>Dirty = False, Valid = True, pt_pid = 0, page_number = 0, victim_counter = 0\<rparr>,
        \<lparr>Dirty = False, Valid = True, pt_pid = 2, page_number = 0x400, victim_counter = 9\<rparr>,
        \<lparr>Dirty = False, Valid = True, pt_pid = 2, page_number = 0x401, victim_counter = 5\<rparr>,
        \<lparr>Dirty = False, Valid = False, pt_pid = 0, page_number = 0, victim_counter = 0\<rparr>],
     PAGETABLE_ENTRY = 4, pt_counter = 10, curproc_pid = 2,
     curproc_as = Some \<lparr>as_vbase_code = 0x400000, as_npages_code = 3, as_npages_code_loaded = 0,
       as_vbase_data = 0x10000000, as_npages_data = 1, as_npages_data_loaded = 0, as_vbase_bss = 0,
       as_vbase_stack = 0, as_npages_stack = 0\<rparr>\<rparr>"

lemma example_pt_wf: "pt_wf example_pt"
  by (simp add: pt_wf_def example_pt_def)

lemma example_pt_unique: "pt_unique example_pt"
  by (auto simp: pt_unique_def example_pt_def less_Suc_eq numeral_eq_Suc)

theorem pageSearch_correct_witness:
  "pt_wf example_pt \<and> pageSearch 0x401abc example_pt = Inr 2 \<and>
   \<not> (\<forall>i. \<not> pt_holds example_pt i 0x401)"
proof -
  have "pageSearch 0x401abc example_pt = Inr 2"
    by (simp add: pageSearch_def example_pt_def eval_simps)
  then show ?thesis
    using pageSearch_correct [OF example_pt_wf, of "0x401abc"] example_pt_wf by auto
qed

text \<open>
  C21: Adding a page that is not yet in the table, to a frame that is available, succeeds;
  the table stays well-formed with unique entries, and as a map from pages to frames it is
  the old map updated at the page of the address. A search for any address of that page
  then returns the frame.
\<close>

theorem addPT_refines_map_update:
  assumes "pt_wf s" "pt_unique s" "pt_available s (unat f)" "vaddr div PAGE_SIZE \<noteq> 0"
    and "pt_view s (vaddr div PAGE_SIZE) = None"
  shows "\<exists>s'. addPT f vaddr pid d s = Inr s' \<and> pt_wf s' \<and> pt_unique s' \<and>
    pt_view s' = (pt_view s)(vaddr div PAGE_SIZE \<mapsto> unat f) \<and>
    (\<forall>a. a div PAGE_SIZE = vaddr div PAGE_SIZE \<longrightarrow> pageSearch a s' = Inr (int (unat f)))"
proof -
  obtain s' where s': "addPT f vaddr pid d s = Inr s'"
    using addPT_available [OF assms(3)] by blast
  note wf' = addPT_wf [OF s' assms(1)]
  note view' = addPT_view [OF s' assms(2,4,5)]
  have "pt_unique s'"
    using addPT_unique [OF s' assms(2)] assms(5) pt_view_None [OF assms(4)] by blast
  moreover have "pageSearch a s' = Inr (int (unat f))" if "a div PAGE_SIZE = vaddr div PAGE_SIZE" for a
    using that pageSearch_view [OF wf', of a] assms(4) by (simp add: view')
  ultimately show ?thesis
    using s' wf' view' by blast
qed

theorem addPT_refines_map_update_witness:
  "pt_view example_pt 0x10000 = None \<and>
   (\<exists>s'. addPT 3 0x10000123 2 True example_pt = Inr s' \<and> pageSearch 0x10000ffc s' = Inr 3)"
proof -
  have v: "pt_view example_pt 0x10000 = None"
    by (simp add: pt_view_def pt_holds_def example_pt_def eval_simps)
  have "pt_available example_pt 3"
    by (simp add: pt_available_def example_pt_def)
  then show ?thesis
    using addPT_refines_map_update [OF example_pt_wf example_pt_unique, of 3 "0x10000123" 2 True] v by auto
qed

text \<open>
  C22: When the current process has an address space, the victim search returns
  \<open>noEntryFound\<close> exactly when no entry of the process lies in the requested segment, and
  otherwise the first entry with the smallest \<open>victim_counter\<close> among those entries.
\<close>

theorem victim_pageSearch_correct:
  assumes "pt_wf s" "curproc_as s \<noteq> None"
  shows "\<exists>v. victim_pageSearch type s = Inr v \<and>
    (if v = noEntryFound then \<forall>j. \<not> victim_candidate type s j
     else v \<ge> 0 \<and> victim_candidate type s (nat v) \<and>
       (\<forall>j. victim_candidate type s j \<longrightarrow> pt_age s (nat v) \<le> pt_age s j \<and> (pt_age s j = pt_age s (nat v) \<longrightarrow> nat v \<le> j)))"
  using victim_pageSearch_spec [OF assms, of type]
  by (auto simp: oldest_below_def victim_candidate_def split: if_split_asm)

theorem victim_pageSearch_correct_witness:
  "victim_pageSearch False example_pt = Inr 2 \<and> victim_candidate False example_pt 2"
proof -
  have "victim_pageSearch False example_pt = Inr 2"
    by (simp add: victim_pageSearch_def victim_step_def victim_segment_def is_codeSegment_def example_pt_def eval_simps)
  moreover have "curproc_as example_pt \<noteq> None"
    by (simp add: example_pt_def)
  ultimately show ?thesis
    using victim_pageSearch_correct [OF example_pt_wf, of False] by simp
qed

end
