(* ===== verification/Tlb.thy ===== *)
theory Tlb
  imports Page_Table
begin

text \<open>
  The software side of the TLB, vm/vm_tlb.c: loading a translation from the page table,
  removing one, round-robin replacement and flushing. The 64 slots of the processor are
  a list of (entryhi, entrylo) pairs; \<open>tlb_read\<close>, \<open>tlb_write\<close> and \<open>tlb_probe\<close> do what
  arch/mips/include/tlb.h documents for the assembly stubs of
  arch/mips/vm/tlb-mips161.S. Interrupt levels (\<open>splhigh\<close>, \<open>splx\<close>) and debug output
  do not change this state and are left out; panic messages are given without their
  final newline.
\<close>

section \<open>The TLB of the processor\<close>

abbreviation NUM_TLB :: nat where "NUM_TLB \<equiv> 64"
abbreviation TLBHI_VPAGE :: u32 where "TLBHI_VPAGE \<equiv> 0xfffff000"
abbreviation TLBLO_PPAGE :: u32 where "TLBLO_PPAGE \<equiv> 0xfffff000"
abbreviation TLBLO_DIRTY :: u32 where "TLBLO_DIRTY \<equiv> 0x400"
abbreviation TLBLO_VALID :: u32 where "TLBLO_VALID \<equiv> 0x200"

definition TLBHI_INVALID :: "u32 \<Rightarrow> u32" where
  "TLBHI_INVALID entryno = push_bit 12 (0x80000 + entryno)"

abbreviation TLBLO_INVALID :: u32 where "TLBLO_INVALID \<equiv> 0"

record tlb_state = pt_state +
  tlb :: "(u32 \<times> u32) list"
  freeTLBEntries :: u32
  next_victim :: u32
  TLB_victim :: u32
  TLB_Invalidations :: u32

definition tlb_read :: "nat \<Rightarrow> 'a tlb_state_scheme \<Rightarrow> (u32 \<times> u32) res" where
  "tlb_read index s = arr_get (tlb s) index"

definition tlb_write :: "u32 \<Rightarrow> u32 \<Rightarrow> nat \<Rightarrow> 'a tlb_state_scheme \<Rightarrow> 'a tlb_state_scheme res" where
  "tlb_write ehi elo index s = rbind (arr_set (tlb s) index (ehi, elo)) (\<lambda>t. Inr (s\<lparr>tlb := t\<rparr>))"

definition tlb_probe :: "u32 \<Rightarrow> u32 \<Rightarrow> 'a tlb_state_scheme \<Rightarrow> int" where
  "tlb_probe ehi elo s =
     (case find (\<lambda>i. fst (tlb s ! i) AND TLBHI_VPAGE = ehi AND TLBHI_VPAGE) [0..<length (tlb s)] of
        None \<Rightarrow> - 1 | Some i \<Rightarrow> int i)"

section \<open>Operations of vm_tlb.c\<close>

definition tlb_get_rr_victim :: "'a tlb_state_scheme \<Rightarrow> u32 \<times> 'a tlb_state_scheme" where
  "tlb_get_rr_victim s =
     (let victim = next_victim s in (victim, s\<lparr>next_victim := (next_victim s + 1) mod of_nat NUM_TLB\<rparr>))"

text \<open>The search of \<open>addTLB\<close> for the frame that holds the page of the process.\<close>

definition addTLB_frame :: "u32 \<Rightarrow> u32 \<Rightarrow> 'a tlb_state_scheme \<Rightarrow> nat option res" where
  "addTLB_frame vaddr pid s =
     rfind (\<lambda>i. rbind (arr_get (main_PG s) i)
              (\<lambda>e. Inr (Valid e \<and> page_number e = vaddr div PAGE_SIZE \<and> ucast (pt_pid e) = pid)))
       (pt_indices s)"

text \<open>The part of \<open>addTLB\<close> that writes the entry, to the first invalid slot or over the next victim.\<close>

definition addTLB_write :: "u32 \<Rightarrow> u32 \<Rightarrow> u32 \<Rightarrow> 'a tlb_state_scheme \<Rightarrow> 'a tlb_state_scheme res" where
  "addTLB_write vaddr paddr elo s =
     (let ehi = vaddr AND PAGE_FRAME in
      if tlb_probe ehi elo s > 0 then Inl (Panic ''TLB Error: duplicate TLB entries'')
      else
        rbind (rfind (\<lambda>i. rbind (tlb_read i s)
                        (\<lambda>(ehi_search, elo_search). Inr (elo_search AND TLBLO_VALID = 0))) [0..<NUM_TLB]) (\<lambda>r.
        case r of
          Some i \<Rightarrow>
            rbind (tlb_write ehi elo i s) (\<lambda>s.
            if tlb_probe ehi elo s < 0 then Inl (Panic ''Generic TLB Error'')
            else Inr (s\<lparr>freeTLBEntries := freeTLBEntries s - 1\<rparr>))
        | None \<Rightarrow>
            (let ehi = vaddr AND PAGE_FRAME;
                 pa = paddr - MIPS_KSEG0;
                 elo = pa OR TLBLO_VALID OR TLBLO_DIRTY;
                 (victim, s) = tlb_get_rr_victim s;
                 s = s\<lparr>TLB_victim := victim\<rparr>
             in rbind (tlb_write ehi elo (unat victim) s) (\<lambda>s.
                if tlb_probe ehi elo s < 0 then Inl (Panic ''Generic TLB Error'') else Inr s))))"

definition addTLB :: "u32 \<Rightarrow> u32 \<Rightarrow> 'a tlb_state_scheme \<Rightarrow> 'a tlb_state_scheme res" where
  "addTLB vaddr pid s =
     rbind (addTLB_frame vaddr pid s) (\<lambda>r.
     case r of
       None \<Rightarrow> Inl (Panic ''Error in addTLB from pageSearch'')
     | Some i \<Rightarrow>
         rbind (arr_get (main_PG s) i) (\<lambda>e.
         let paddr = of_nat i * PAGE_SIZE + MIPS_KSEG0;
             pa = paddr - MIPS_KSEG0;
             elo = (if Dirty e then pa OR TLBLO_VALID OR TLBLO_DIRTY else pa OR TLBLO_VALID)
         in if paddr = 0 then Inl (Panic ''Error in addTLB from pageSearch'')
            else addTLB_write vaddr paddr elo s))"

definition removeTLB :: "u32 \<Rightarrow> 'a tlb_state_scheme \<Rightarrow> 'a tlb_state_scheme res" where
  "removeTLB vaddr s =
     (let vaddr = vaddr AND PAGE_FRAME in
      rbind (rfind (\<lambda>i. rbind (tlb_read i s) (\<lambda>(ehi, elo). Inr (ehi = vaddr))) [0..<NUM_TLB]) (\<lambda>r.
      case r of
        None \<Rightarrow> Inr s
      | Some i \<Rightarrow>
          (let s = s\<lparr>freeTLBEntries := freeTLBEntries s + 1\<rparr>
           in tlb_write (TLBHI_INVALID (of_nat i)) TLBLO_INVALID i s)))"

definition removeTLBv1 :: "u32 \<Rightarrow> 'a tlb_state_scheme \<Rightarrow> 'a tlb_state_scheme res" where
  "removeTLBv1 vaddr s =
     (let vaddr = vaddr AND PAGE_FRAME;
          probe_result = tlb_probe vaddr 0 s
      in if probe_result = noEntryFound then Inr s
         else rbind (tlb_write (TLBHI_INVALID (of_int probe_result)) TLBLO_INVALID (nat probe_result) s)
                (\<lambda>s. Inr (s\<lparr>freeTLBEntries := freeTLBEntries s + 1\<rparr>)))"

definition invalidate_TLB :: "'a tlb_state_scheme \<Rightarrow> 'a tlb_state_scheme res" where
  "invalidate_TLB s =
     (let s = s\<lparr>TLB_Invalidations := TLB_Invalidations s + 1\<rparr> in
      rbind (rfold (\<lambda>i. tlb_write (TLBHI_INVALID (of_nat i)) TLBLO_INVALID i) [0..<NUM_TLB] s) (\<lambda>s.
      Inr (s\<lparr>freeTLBEntries := of_nat NUM_TLB\<rparr>)))"

section \<open>Slots\<close>

abbreviation slot_valid :: "u32 \<times> u32 \<Rightarrow> bool" where
  "slot_valid e \<equiv> snd e AND TLBLO_VALID \<noteq> 0"

text \<open>What a slot translates to: the physical page and whether writes are permitted.\<close>

definition slot_frame :: "u32 \<times> u32 \<Rightarrow> u32 \<times> bool" where
  "slot_frame e = (snd e AND TLBLO_PPAGE, snd e AND TLBLO_DIRTY \<noteq> 0)"

text \<open>\<open>tlb_holds s i p\<close>: slot \<open>i\<close> is a valid translation of page \<open>p\<close>.\<close>

definition tlb_holds :: "'a tlb_state_scheme \<Rightarrow> nat \<Rightarrow> u32 \<Rightarrow> bool" where
  "tlb_holds s i p \<longleftrightarrow> i < length (tlb s) \<and> slot_valid (tlb s ! i) \<and> fst (tlb s ! i) div PAGE_SIZE = p"

text \<open>The TLB as a map from pages to translations.\<close>

definition tlb_view :: "'a tlb_state_scheme \<Rightarrow> u32 \<Rightarrow> (u32 \<times> bool) option" where
  "tlb_view s p = map_option (\<lambda>i. slot_frame (tlb s ! i)) (find (\<lambda>i. tlb_holds s i p) [0..<length (tlb s)])"

text \<open>
  The invariant the kernel keeps of the TLB: a slot is either a valid translation of a user
  page or the invalid entry made for that slot, no page has two valid slots, the
  round-robin counter is a slot number, and \<open>freeTLBEntries\<close> counts the invalid slots.
\<close>

definition tlb_slot_ok :: "nat \<Rightarrow> u32 \<times> u32 \<Rightarrow> bool" where
  "tlb_slot_ok i e = (if slot_valid e then fst e < MIPS_KSEG0 \<and> fst e AND PAGE_FRAME = fst e
                      else fst e = TLBHI_INVALID (of_nat i))"

definition tlb_inv :: "'a tlb_state_scheme \<Rightarrow> bool" where
  "tlb_inv s \<longleftrightarrow> length (tlb s) = NUM_TLB \<and> (\<forall>i<NUM_TLB. tlb_slot_ok i (tlb s ! i)) \<and>
     (\<forall>i<NUM_TLB. \<forall>j<NUM_TLB. slot_valid (tlb s ! i) \<longrightarrow> slot_valid (tlb s ! j) \<longrightarrow>
        fst (tlb s ! i) div PAGE_SIZE = fst (tlb s ! j) div PAGE_SIZE \<longrightarrow> i = j) \<and>
     unat (next_victim s) < NUM_TLB \<and>
     freeTLBEntries s = of_nat (length (filter (\<lambda>e. \<not> slot_valid e) (tlb s)))"

lemma tlb_inv_length: "tlb_inv s \<Longrightarrow> length (tlb s) = NUM_TLB"
  by (simp add: tlb_inv_def)

lemma tlb_inv_slot: "tlb_inv s \<Longrightarrow> i < NUM_TLB \<Longrightarrow> tlb_slot_ok i (tlb s ! i)"
  by (simp add: tlb_inv_def)

lemma tlb_inv_unique: "tlb_inv s \<Longrightarrow> tlb_holds s i p \<Longrightarrow> tlb_holds s j p \<Longrightarrow> i = j"
  by (simp add: tlb_inv_def tlb_holds_def)

lemma user_page_less: "(v :: u32) < MIPS_KSEG0 \<Longrightarrow> unat (v div PAGE_SIZE) < 0x80000"
  by (simp add: unat_div_page word_less_nat_alt less_mult_imp_div_less)

lemma user_page_frame: "(v :: u32) < MIPS_KSEG0 \<Longrightarrow> v AND PAGE_FRAME < MIPS_KSEG0"
  using word_and_le2 [of v PAGE_FRAME] by (simp add: order_le_less_trans)

lemma TLBHI_INVALID_page:
  assumes "i < NUM_TLB"
  shows "unat (TLBHI_INVALID (of_nat i) div PAGE_SIZE) = 0x80000 + i"
proof -
  have u: "unat (0x80000 + of_nat i :: u32) = 0x80000 + i"
    using assms by (simp add: unat_word_ariths(1))
  have "TLBHI_INVALID (of_nat i) = (0x80000 + of_nat i) * PAGE_SIZE"
    by (simp only: TLBHI_INVALID_def push_bit_eq_mult) simp
  moreover have "(0x80000 + of_nat i :: u32) * PAGE_SIZE div PAGE_SIZE = 0x80000 + of_nat i"
    by (rule page_times_size) (simp only: u, use assms in simp)
  ultimately show ?thesis
    using u by (simp only:)
qed

lemma find_cong_upt: "(\<And>i. i < n \<Longrightarrow> P i = Q i) \<Longrightarrow> find P [0..<n] = find Q [0..<n]"
  by (rule find_cong) auto

text \<open>A probe for a user page finds the slot that holds it: the invalid entries lie in kseg0.\<close>

lemma tlb_probe_user:
  assumes "tlb_inv s" "v < MIPS_KSEG0"
  shows "tlb_probe v elo s =
    (case find (\<lambda>i. tlb_holds s i (v div PAGE_SIZE)) [0..<NUM_TLB] of None \<Rightarrow> - 1 | Some i \<Rightarrow> int i)"
proof -
  have "(fst (tlb s ! i) AND TLBHI_VPAGE = v AND TLBHI_VPAGE) = tlb_holds s i (v div PAGE_SIZE)"
    if "i < NUM_TLB" for i
    using tlb_inv_slot [OF assms(1) that] TLBHI_INVALID_page [OF that] user_page_less [OF assms(2)] that
    unfolding page_frame_eq_iff tlb_holds_def tlb_inv_length [OF assms(1)] tlb_slot_ok_def
    by (metis less_irrefl not_add_less1)
  then show ?thesis
    unfolding tlb_probe_def tlb_inv_length [OF assms(1)] by (simp cong: find_cong_upt)
qed

lemma tlb_view_None: "tlb_view s p = None \<longleftrightarrow> (\<forall>i. \<not> tlb_holds s i p)"
  by (auto simp: tlb_view_def find_upt_None_iff tlb_holds_def)

lemma tlb_view_holds:
  assumes "tlb_inv s" "tlb_holds s i p"
  shows "tlb_view s p = Some (slot_frame (tlb s ! i))"
proof -
  have "find (\<lambda>i. tlb_holds s i p) [0..<length (tlb s)] = Some i"
    using assms tlb_inv_unique [OF assms(1)] by (intro find_upt_unique) (auto simp: tlb_holds_def)
  then show ?thesis
    by (simp add: tlb_view_def)
qed

lemma tlb_view_cong: "tlb s' = tlb s \<Longrightarrow> tlb_view s' = tlb_view s"
  by (simp add: tlb_view_def tlb_holds_def fun_eq_iff)

section \<open>Writing one slot\<close>

text \<open>
  Every operation writes single slots. The next lemmas give the invariant and the map
  after slot \<open>k\<close> has been given the entry \<open>e\<close>.
\<close>

lemma tlb_update_holds:
  assumes "tlb s' = (tlb s)[k := e]" "k < length (tlb s)"
  shows "tlb_holds s' i p \<longleftrightarrow>
    (if i = k then slot_valid e \<and> fst e div PAGE_SIZE = p else tlb_holds s i p)"
  using assms by (simp add: tlb_holds_def nth_list_update)

lemma tlb_update_inv:
  assumes inv: "tlb_inv s" and k: "k < NUM_TLB" and upd: "tlb s' = (tlb s)[k := e]" and ok: "tlb_slot_ok k e"
    and new: "\<And>j. slot_valid e \<Longrightarrow> j \<noteq> k \<Longrightarrow> \<not> tlb_holds s j (fst e div PAGE_SIZE)"
    and rr: "unat (next_victim s') < NUM_TLB"
    and cnt: "freeTLBEntries s' + (if slot_valid (tlb s ! k) then 0 else 1) =
              freeTLBEntries s + (if slot_valid e then 0 else 1)"
  shows "tlb_inv s'"
proof -
  note len = tlb_inv_length [OF inv]
  have h: "tlb_holds s' i p \<longleftrightarrow>
      (if i = k then slot_valid e \<and> fst e div PAGE_SIZE = p else tlb_holds s i p)" for i p
    using tlb_update_holds [OF upd] k len by simp
  have "i = j" if "tlb_holds s' i p" "tlb_holds s' j p" for i j p
    using that new tlb_inv_unique [OF inv] by (auto simp: h split: if_split_asm)
  moreover have "tlb_slot_ok i (tlb s' ! i)" if "i < NUM_TLB" for i
    using that ok tlb_inv_slot [OF inv that] k len by (auto simp: upd nth_list_update)
  moreover have "freeTLBEntries s' = of_nat (length (filter (\<lambda>e. \<not> slot_valid e) (tlb s')))"
  proof -
    have "of_nat (length (filter (\<lambda>e. \<not> slot_valid e) (tlb s')) + (if \<not> slot_valid (tlb s ! k) then 1 else 0)) =
          freeTLBEntries s' + (if slot_valid (tlb s ! k) then 0 else (1 :: u32))"
      using filter_length_update [of k "tlb s" "\<lambda>e. \<not> slot_valid e" e] k len inv
      by (simp add: cnt tlb_inv_def flip: upd)
    then show ?thesis
      by (simp split: if_split_asm)
  qed
  ultimately show ?thesis
    using rr len by (auto simp: tlb_inv_def upd tlb_holds_def)
qed

lemma tlb_update_view:
  assumes inv: "tlb_inv s" and inv': "tlb_inv s'" and k: "k < NUM_TLB" and upd: "tlb s' = (tlb s)[k := e]"
  shows "tlb_view s' p =
    (if slot_valid e \<and> fst e div PAGE_SIZE = p then Some (slot_frame e)
     else if tlb_holds s k p then None else tlb_view s p)"
proof -
  note len = tlb_inv_length [OF inv]
  have h: "tlb_holds s' i p \<longleftrightarrow>
      (if i = k then slot_valid e \<and> fst e div PAGE_SIZE = p else tlb_holds s i p)" for i p
    using tlb_update_holds [OF upd] k len by simp
  show ?thesis
  proof (cases "tlb_view s' p")
    case None
    then have "\<not> (slot_valid e \<and> fst e div PAGE_SIZE = p)" "\<forall>i. i \<noteq> k \<longrightarrow> \<not> tlb_holds s i p"
      unfolding tlb_view_None h by metis+
    then show ?thesis
      using None tlb_view_None [of s p] by auto
  next
    case (Some x)
    then obtain i where i: "tlb_holds s' i p"
      using tlb_view_None [of s' p] by auto
    then have x: "x = slot_frame (tlb s' ! i)"
      using tlb_view_holds [OF inv' i] Some by simp
    show ?thesis
    proof (cases "i = k")
      case True
      then show ?thesis
        using i x Some k len by (simp add: h upd)
    next
      case False
      then have si: "tlb_holds s i p"
        using i by (simp add: h)
      moreover have "\<not> (slot_valid e \<and> fst e div PAGE_SIZE = p)"
        using tlb_inv_unique [OF inv' i, of k] False by (auto simp: h)
      moreover have "\<not> tlb_holds s k p"
        using tlb_inv_unique [OF inv si, of k] False by auto
      ultimately show ?thesis
        using tlb_view_holds [OF inv si] x Some False by (auto simp: upd)
    qed
  qed
qed

section \<open>Removing a translation\<close>

lemma slot_invalid_ok [simp]: "tlb_slot_ok i (TLBHI_INVALID (of_nat i), 0)"
  by (simp add: tlb_slot_ok_def)

lemma tlb_holds_less: "tlb_inv s \<Longrightarrow> tlb_holds s i p \<Longrightarrow> i < NUM_TLB"
  by (simp add: tlb_holds_def tlb_inv_length)

text \<open>The slot of a user page, when it has one.\<close>

lemma tlb_find_holds:
  assumes "tlb_inv s" "tlb_holds s i p"
  shows "find (\<lambda>i. tlb_holds s i p) [0..<NUM_TLB] = Some i"
  using tlb_inv_unique [OF assms(1) _ assms(2)] tlb_holds_less [OF assms] assms(2)
  by (rule find_upt_unique)

lemma tlb_probe_holds:
  assumes "tlb_inv s" "v < MIPS_KSEG0" "tlb_holds s i (v div PAGE_SIZE)"
  shows "tlb_probe v elo s = int i"
  unfolding tlb_probe_user [OF assms(1,2)] tlb_find_holds [OF assms(1,3)] by simp

lemma tlb_probe_miss:
  assumes "tlb_inv s" "v < MIPS_KSEG0" "\<And>i. \<not> tlb_holds s i (v div PAGE_SIZE)"
  shows "tlb_probe v elo s = - 1"
proof -
  have "find (\<lambda>i. tlb_holds s i (v div PAGE_SIZE)) [0..<NUM_TLB] = None"
    using assms(3) by (simp only: find_upt_None_iff simp_thms)
  then show ?thesis
    by (simp only: tlb_probe_user [OF assms(1,2)] option.case)
qed

definition tlb_clear_slot :: "nat \<Rightarrow> 'a tlb_state_scheme \<Rightarrow> 'a tlb_state_scheme" where
  "tlb_clear_slot i s = s\<lparr>tlb := (tlb s)[i := (TLBHI_INVALID (of_nat i), TLBLO_INVALID)],
                          freeTLBEntries := freeTLBEntries s + 1\<rparr>"

lemma tlb_clear_slot_spec:
  assumes inv: "tlb_inv s" and h: "tlb_holds s i p"
  shows "tlb_inv (tlb_clear_slot i s)" "tlb_view (tlb_clear_slot i s) = (tlb_view s)(p := None)"
proof -
  note i = tlb_holds_less [OF inv h]
  have upd: "tlb (tlb_clear_slot i s) = (tlb s)[i := (TLBHI_INVALID (of_nat i), TLBLO_INVALID)]"
    by (simp add: tlb_clear_slot_def)
  show inv': "tlb_inv (tlb_clear_slot i s)"
    using inv h by (intro tlb_update_inv [OF inv i upd]) (auto simp: tlb_clear_slot_def tlb_inv_def tlb_holds_def)
  show "tlb_view (tlb_clear_slot i s) = (tlb_view s)(p := None)"
    using h unfolding fun_eq_iff tlb_update_view [OF inv inv' i upd] by (auto simp: tlb_holds_def)
qed

lemma removeTLBv1_eq:
  assumes inv: "tlb_inv s" and v: "v < MIPS_KSEG0"
  shows "removeTLBv1 v s =
    Inr (case find (\<lambda>i. tlb_holds s i (v div PAGE_SIZE)) [0..<NUM_TLB] of
           None \<Rightarrow> s | Some i \<Rightarrow> tlb_clear_slot i s)"
proof (cases "find (\<lambda>i. tlb_holds s i (v div PAGE_SIZE)) [0..<NUM_TLB]")
  case None
  then show ?thesis
    by (simp add: removeTLBv1_def tlb_probe_user [OF inv user_page_frame [OF v]])
next
  case (Some i)
  then have "i < length (tlb s)"
    using tlb_inv_length [OF inv] by (simp add: find_upt_Some_iff)
  then show ?thesis
    using Some
    by (simp add: removeTLBv1_def tlb_probe_user [OF inv user_page_frame [OF v]] tlb_write_def tlb_clear_slot_def)
qed

lemma removeTLBv1_spec:
  assumes "tlb_inv s" "v < MIPS_KSEG0"
  shows "\<exists>s'. removeTLBv1 v s = Inr s' \<and> tlb_inv s' \<and> tlb_view s' = (tlb_view s)(v div PAGE_SIZE := None) \<and>
    main_PG s' = main_PG s \<and> PAGETABLE_ENTRY s' = PAGETABLE_ENTRY s"
proof (cases "find (\<lambda>i. tlb_holds s i (v div PAGE_SIZE)) [0..<NUM_TLB]")
  case None
  then have "tlb_view s (v div PAGE_SIZE) = None"
    unfolding tlb_view_def tlb_inv_length [OF assms(1)] by simp
  then show ?thesis
    using None assms(1) by (intro exI [of _ s]) (auto simp: removeTLBv1_eq [OF assms] fun_eq_iff)
next
  case (Some i)
  then have "tlb_holds s i (v div PAGE_SIZE)"
    by (simp add: find_upt_Some_iff)
  then show ?thesis
    using Some tlb_clear_slot_spec [OF assms(1)]
    by (intro exI [of _ "tlb_clear_slot i s"]) (simp add: removeTLBv1_eq [OF assms] tlb_clear_slot_def)
qed

lemma slot_ehi_iff:
  assumes "tlb_inv s" "v < MIPS_KSEG0" "i < NUM_TLB"
  shows "fst (tlb s ! i) = v AND PAGE_FRAME \<longleftrightarrow> tlb_holds s i (v div PAGE_SIZE)"
proof (cases "slot_valid (tlb s ! i)")
  case True
  then have "fst (tlb s ! i) AND PAGE_FRAME = fst (tlb s ! i)"
    using tlb_inv_slot [OF assms(1,3)] by (simp add: tlb_slot_ok_def)
  then show ?thesis
    using True assms(3) page_frame_eq_iff [of "fst (tlb s ! i)" v]
    by (simp add: tlb_holds_def tlb_inv_length [OF assms(1)])
next
  case False
  then have "fst (tlb s ! i) = TLBHI_INVALID (of_nat i)"
    using tlb_inv_slot [OF assms(1,3)] by (simp add: tlb_slot_ok_def)
  then have "fst (tlb s ! i) div PAGE_SIZE \<noteq> v div PAGE_SIZE"
    using TLBHI_INVALID_page [OF assms(3)] user_page_less [OF assms(2)] by auto
  then show ?thesis
    using False by (auto simp: tlb_holds_def)
qed

lemma removeTLB_eq:
  assumes inv: "tlb_inv s" and v: "v < MIPS_KSEG0"
  shows "removeTLB v s =
    Inr (case find (\<lambda>i. tlb_holds s i (v div PAGE_SIZE)) [0..<NUM_TLB] of
           None \<Rightarrow> s | Some i \<Rightarrow> tlb_clear_slot i s)"
proof -
  have "rfind (\<lambda>i. rbind (tlb_read i s) (\<lambda>(ehi, elo). Inr (ehi = v AND PAGE_FRAME))) [0..<NUM_TLB] =
      Inr (find (\<lambda>i. tlb_holds s i (v div PAGE_SIZE)) [0..<NUM_TLB])"
    using tlb_inv_length [OF inv]
    by (intro rfind_find) (simp add: tlb_read_def case_prod_beta flip: slot_ehi_iff [OF inv v])
  moreover have "i < length (tlb s)" if "find (\<lambda>i. tlb_holds s i (v div PAGE_SIZE)) [0..<NUM_TLB] = Some i" for i
    using that tlb_inv_length [OF inv] by (simp add: find_upt_Some_iff)
  ultimately show ?thesis
    by (cases "find (\<lambda>i. tlb_holds s i (v div PAGE_SIZE)) [0..<NUM_TLB]")
      (simp_all add: removeTLB_def tlb_write_def tlb_clear_slot_def)
qed

section \<open>Flushing\<close>

abbreviation invalid_slots :: "(u32 \<times> u32) list" where
  "invalid_slots \<equiv> map (\<lambda>i. (TLBHI_INVALID (of_nat i), TLBLO_INVALID)) [0..<NUM_TLB]"

lemma fill_invalid_slots:
  "length (tlb s) = n \<Longrightarrow> k \<le> n \<Longrightarrow>
   rfold (\<lambda>i. tlb_write (TLBHI_INVALID (of_nat i)) TLBLO_INVALID i) [0..<k] s =
   Inr (s\<lparr>tlb := map (\<lambda>i. (TLBHI_INVALID (of_nat i), TLBLO_INVALID)) [0..<k] @ drop k (tlb s)\<rparr>)"
proof (induction k)
  case (Suc k)
  then have "drop k (tlb s) = tlb s ! k # drop (Suc k) (tlb s)"
    by (intro Cons_nth_drop_Suc [symmetric]) simp
  then show ?case
    using Suc by (simp add: rfold_append tlb_write_def list_update_append)
qed simp

lemma invalidate_TLB_eq:
  assumes "length (tlb s) = NUM_TLB"
  shows "invalidate_TLB s =
    Inr (s\<lparr>TLB_Invalidations := TLB_Invalidations s + 1, tlb := invalid_slots, freeTLBEntries := of_nat NUM_TLB\<rparr>)"
  unfolding invalidate_TLB_def Let_def
  using fill_invalid_slots [of "s\<lparr>TLB_Invalidations := TLB_Invalidations s + 1\<rparr>" NUM_TLB NUM_TLB] assms
  by simp

lemma invalid_slots_inv:
  assumes "tlb s = invalid_slots" "freeTLBEntries s = of_nat NUM_TLB" "unat (next_victim s) < NUM_TLB"
  shows "tlb_inv s" "tlb_view s p = None"
proof -
  have "\<not> slot_valid (tlb s ! i)" if "i < NUM_TLB" for i
    using that by (simp add: assms(1))
  then show "tlb_view s p = None"
    using assms(1) by (simp add: tlb_view_None tlb_holds_def)
  have "length (filter (\<lambda>e. \<not> slot_valid e) (tlb s)) = NUM_TLB"
    by (simp add: assms(1) comp_def)
  then show "tlb_inv s"
    using assms by (simp add: tlb_inv_def)
qed

section \<open>Loading a translation\<close>

abbreviation frame_elo :: "nat \<Rightarrow> bool \<Rightarrow> u32" where
  "frame_elo f d \<equiv> (if d then of_nat f * PAGE_SIZE OR TLBLO_VALID OR TLBLO_DIRTY else of_nat f * PAGE_SIZE OR TLBLO_VALID)"

lemma frame_elo_bits:
  "of_nat f * PAGE_SIZE = push_bit 12 (of_nat f :: u32)" "(TLBLO_VALID :: u32) = 2 ^ 9" "(TLBLO_DIRTY :: u32) = 2 ^ 10"
  by (simp_all add: push_bit_eq_mult)

lemma slot_valid_iff: "slot_valid e \<longleftrightarrow> bit (snd e) 9"
  unfolding frame_elo_bits and_exp_eq_0_iff by simp

lemma slot_valid_elo: "frame_elo f d AND TLBLO_VALID \<noteq> 0"
  unfolding frame_elo_bits and_exp_eq_0_iff by (simp add: bit_simps)

lemma frame_page_aligned: "of_nat f * PAGE_SIZE AND PAGE_FRAME = (of_nat f * PAGE_SIZE :: u32)"
  unfolding frame_elo_bits page_frame_mask by (rule bit_word_eqI) (auto simp: bit_simps)

lemma slot_frame_elo: "slot_frame (ehi, frame_elo f d) = (of_nat f * PAGE_SIZE, d)"
proof -
  have "frame_elo f d AND TLBLO_PPAGE = of_nat f * PAGE_SIZE"
    by (simp add: bit.conj_disj_distrib2 frame_page_aligned)
  moreover have "frame_elo f d AND TLBLO_DIRTY \<noteq> 0 \<longleftrightarrow> d"
    unfolding frame_elo_bits and_exp_eq_0_iff by (simp add: bit_simps)
  ultimately show ?thesis
    by (simp add: slot_frame_def)
qed

lemma tlb_probe_nonneg:
  assumes "k < length (tlb s)" "fst (tlb s ! k) AND TLBHI_VPAGE = ehi AND TLBHI_VPAGE"
  shows "\<not> tlb_probe ehi elo s < 0"
proof -
  have "find (\<lambda>i. fst (tlb s ! i) AND TLBHI_VPAGE = ehi AND TLBHI_VPAGE) [0..<length (tlb s)] \<noteq> None"
    unfolding find_upt_None_iff using assms by blast
  then show ?thesis
    by (auto simp: tlb_probe_def split: option.split)
qed

lemma free_slot_find:
  assumes "tlb_inv s"
  shows "rfind (\<lambda>i. rbind (tlb_read i s) (\<lambda>(ehi, elo). Inr (elo AND TLBLO_VALID = 0))) [0..<NUM_TLB] =
    Inr (find (\<lambda>i. \<not> slot_valid (tlb s ! i)) [0..<NUM_TLB])"
  using tlb_inv_length [OF assms] by (intro rfind_find) (simp add: tlb_read_def case_prod_beta)

lemma free_slot_count:
  assumes "tlb_inv s"
  shows "freeTLBEntries s = 0 \<longleftrightarrow> find (\<lambda>i. \<not> slot_valid (tlb s ! i)) [0..<NUM_TLB] = None"
proof -
  have "length (filter (\<lambda>e. \<not> slot_valid e) (tlb s)) < 2 ^ 32"
    using length_filter_le [of "\<lambda>e. \<not> slot_valid e" "tlb s"] tlb_inv_length [OF assms] by simp
  then have "freeTLBEntries s = 0 \<longleftrightarrow> length (filter (\<lambda>e. \<not> slot_valid e) (tlb s)) = 0"
    using assms by (simp add: tlb_inv_def word_unat_eq_iff)
  also have "\<dots> \<longleftrightarrow> (\<forall>i<NUM_TLB. slot_valid (tlb s ! i))"
    using tlb_inv_length [OF assms] by (simp add: filter_empty_conv all_set_conv_all_nth)
  finally show ?thesis
    by (simp add: find_upt_None_iff)
qed

text \<open>The state after loading into a free slot, and after replacing the next victim.\<close>

definition tlb_load_free :: "nat \<Rightarrow> u32 \<Rightarrow> u32 \<Rightarrow> 'a tlb_state_scheme \<Rightarrow> 'a tlb_state_scheme" where
  "tlb_load_free k ehi elo s = s\<lparr>tlb := (tlb s)[k := (ehi, elo)], freeTLBEntries := freeTLBEntries s - 1\<rparr>"

definition tlb_load_victim :: "u32 \<Rightarrow> u32 \<Rightarrow> 'a tlb_state_scheme \<Rightarrow> 'a tlb_state_scheme" where
  "tlb_load_victim ehi elo s =
     s\<lparr>next_victim := (next_victim s + 1) mod of_nat NUM_TLB, TLB_victim := next_victim s,
       tlb := (tlb s)[unat (next_victim s) := (ehi, elo)]\<rparr>"

lemma addTLB_write_eq:
  assumes inv: "tlb_inv s" and dup: "\<not> tlb_probe (v AND PAGE_FRAME) (frame_elo f d) s > 0"
  shows "addTLB_write v (of_nat f * PAGE_SIZE + MIPS_KSEG0) (frame_elo f d) s =
    Inr (case find (\<lambda>i. \<not> slot_valid (tlb s ! i)) [0..<NUM_TLB] of
           Some k \<Rightarrow> tlb_load_free k (v AND PAGE_FRAME) (frame_elo f d) s
         | None \<Rightarrow> tlb_load_victim (v AND PAGE_FRAME) (frame_elo f True) s)"
proof (cases "find (\<lambda>i. \<not> slot_valid (tlb s ! i)) [0..<NUM_TLB]")
  case None
  let ?s = "tlb_load_victim (v AND PAGE_FRAME) (frame_elo f True) s"
  have "unat (next_victim s) < length (tlb s)"
    using inv by (simp add: tlb_inv_def)
  then show ?thesis
    using None dup tlb_probe_nonneg [of "unat (next_victim s)" ?s "v AND PAGE_FRAME" "frame_elo f True"]
    by (simp add: addTLB_write_def free_slot_find [OF inv] tlb_write_def tlb_get_rr_victim_def tlb_load_victim_def)
next
  case (Some k)
  let ?s = "s\<lparr>tlb := (tlb s)[k := (v AND PAGE_FRAME, frame_elo f d)]\<rparr>"
  have "k < length (tlb s)"
    using Some tlb_inv_length [OF inv] by (simp add: find_upt_Some_iff)
  then show ?thesis
    using Some dup tlb_probe_nonneg [of k ?s "v AND PAGE_FRAME" "frame_elo f d"]
    by (simp add: addTLB_write_def free_slot_find [OF inv] tlb_write_def tlb_load_free_def del: if_split)
qed

lemma loaded_slot_ok: "v < MIPS_KSEG0 \<Longrightarrow> tlb_slot_ok k (v AND PAGE_FRAME, frame_elo f d)"
  using user_page_frame [of v] slot_valid_elo [of d f] unfolding tlb_slot_ok_def by (simp del: if_split)

lemma tlb_load_free_spec:
  fixes f :: nat and d :: bool
  assumes inv: "tlb_inv s" and v: "v < MIPS_KSEG0" and none: "tlb_view s (v div PAGE_SIZE) = None"
    and k: "k < NUM_TLB" "\<not> slot_valid (tlb s ! k)"
  defines "s' \<equiv> tlb_load_free k (v AND PAGE_FRAME) (frame_elo f d) s"
  shows "tlb_inv s'" "tlb_view s' = (tlb_view s)(v div PAGE_SIZE \<mapsto> (of_nat f * PAGE_SIZE, d))"
proof -
  let ?e = "(v AND PAGE_FRAME, frame_elo f d)"
  have upd: "tlb s' = (tlb s)[k := ?e]"
    by (simp add: s'_def tlb_load_free_def)
  have "freeTLBEntries s' = freeTLBEntries s - 1" "next_victim s' = next_victim s"
    by (simp_all add: s'_def tlb_load_free_def)
  then show inv': "tlb_inv s'"
    using none k inv slot_valid_elo [of d f]
    by (intro tlb_update_inv [OF inv k(1) upd loaded_slot_ok [OF v]])
      (simp_all add: tlb_view_None tlb_inv_def del: if_split)
  have "\<not> tlb_holds s k p" for p
    using k(2) by (simp add: tlb_holds_def)
  then show "tlb_view s' = (tlb_view s)(v div PAGE_SIZE \<mapsto> (of_nat f * PAGE_SIZE, d))"
    using slot_valid_elo [of d f]
    by (intro ext) (simp add: tlb_update_view [OF inv inv' k(1) upd] slot_frame_elo del: if_split)
qed

lemma tlb_load_victim_spec:
  fixes f :: nat
  assumes inv: "tlb_inv s" and v: "v < MIPS_KSEG0" and none: "tlb_view s (v div PAGE_SIZE) = None"
    and full: "\<And>i. i < NUM_TLB \<Longrightarrow> slot_valid (tlb s ! i)"
  defines "s' \<equiv> tlb_load_victim (v AND PAGE_FRAME) (frame_elo f True) s"
  shows "tlb_inv s'"
    and "tlb_view s' = (tlb_view s)(fst (tlb s ! unat (next_victim s)) div PAGE_SIZE := None,
                                    v div PAGE_SIZE \<mapsto> (of_nat f * PAGE_SIZE, True))"
proof -
  let ?k = "unat (next_victim s)" and ?e = "(v AND PAGE_FRAME, frame_elo f True)"
  have k: "?k < NUM_TLB"
    using inv by (simp add: tlb_inv_def)
  have upd: "tlb s' = (tlb s)[?k := ?e]"
    by (simp add: s'_def tlb_load_victim_def)
  have f: "freeTLBEntries s' = freeTLBEntries s" "next_victim s' = (next_victim s + 1) mod of_nat NUM_TLB"
    by (simp_all add: s'_def tlb_load_victim_def)
  show inv': "tlb_inv s'"
  proof (rule tlb_update_inv [OF inv k upd loaded_slot_ok [OF v]])
    show "\<not> tlb_holds s j (fst ?e div PAGE_SIZE)" for j
      using none by (simp add: tlb_view_None)
    show "unat (next_victim s') < NUM_TLB"
      by (simp add: f(2) unat_mod_distrib)
    show "freeTLBEntries s' + (if slot_valid (tlb s ! ?k) then 0 else 1) =
        freeTLBEntries s + (if slot_valid ?e then 0 else 1)"
      using full [OF k] slot_valid_elo [of True f] f(1) by simp
  qed
  have "tlb_holds s ?k p \<longleftrightarrow> p = fst (tlb s ! ?k) div PAGE_SIZE" for p
    using full [OF k] k tlb_inv_length [OF inv] by (auto simp: tlb_holds_def)
  then show "tlb_view s' = (tlb_view s)(fst (tlb s ! ?k) div PAGE_SIZE := None,
      v div PAGE_SIZE \<mapsto> (of_nat f * PAGE_SIZE, True))"
    using slot_valid_elo [of True f] slot_frame_elo [of "v AND PAGE_FRAME" True f]
    by (intro ext) (simp add: tlb_update_view [OF inv inv' k upd])
qed

lemma addTLB_frame_find:
  assumes "pt_wf s"
  shows "addTLB_frame v pid s =
    Inr (find (\<lambda>i. pt_holds s i (v div PAGE_SIZE) \<and> ucast (pt_pid (main_PG s ! i)) = pid) [0..<length (main_PG s)])"
proof -
  have "addTLB_frame v pid s =
      Inr (find (\<lambda>i. pt_holds s i (v div PAGE_SIZE) \<and> ucast (pt_pid (main_PG s ! i)) = pid) (pt_indices s))"
    unfolding addTLB_frame_def using assms by (intro rfind_find) (auto simp: pt_wf_def pt_holds_def)
  then show ?thesis
    using assms by (simp add: pt_wf_def)
qed

lemma addTLB_eq:
  assumes "pt_wf s" "addTLB_frame v pid s = Inr (Some f)"
  shows "addTLB v pid s =
    addTLB_write v (of_nat f * PAGE_SIZE + MIPS_KSEG0) (frame_elo f (Dirty (main_PG s ! f))) s"
proof -
  have f: "f < length (main_PG s)"
    using assms(2) unfolding addTLB_frame_find [OF assms(1)] by (simp add: find_upt_Some_iff)
  then have "f < 2 ^ 17"
    using assms(1) by (simp add: pt_wf_def)
  then have "unat (of_nat f * PAGE_SIZE + MIPS_KSEG0) = f * 4096 + 0x80000000"
    using frame_addr_unat [of f] by (simp add: unat_word_ariths(1))
  then have "of_nat f * PAGE_SIZE + MIPS_KSEG0 \<noteq> 0"
    by auto
  then show ?thesis
    using f by (simp add: addTLB_def assms(2) Let_def)
qed

section \<open>The TLB as a cache of translations\<close>

text \<open>
  What the callers in kmalloc.c, loadelf.c and addrspace.c rely on: evicting a user page
  removes its translation and no other, and a flush leaves no translation.
\<close>

locale translation_cache =
  fixes tc_view :: "'s \<Rightarrow> u32 \<Rightarrow> 'e option"
    and tc_inv :: "'s \<Rightarrow> bool"
    and tc_evict :: "u32 \<Rightarrow> 's \<Rightarrow> 's res"
    and tc_flush :: "'s \<Rightarrow> 's res"
  assumes evict: "tc_inv s \<Longrightarrow> v < MIPS_KSEG0 \<Longrightarrow>
      \<exists>s'. tc_evict v s = Inr s' \<and> tc_inv s' \<and> tc_view s' = (tc_view s)(v div PAGE_SIZE := None)"
    and flush: "tc_inv s \<Longrightarrow> \<exists>s'. tc_flush s = Inr s' \<and> tc_inv s' \<and> tc_view s' = Map.empty"
begin

lemma evict_all:
  assumes "tc_inv s" "\<And>v. v \<in> set vs \<Longrightarrow> v < MIPS_KSEG0"
  shows "\<exists>s'. rfold tc_evict vs s = Inr s' \<and> tc_inv s' \<and>
    tc_view s' = tc_view s |` (- (\<lambda>v. v div PAGE_SIZE) ` set vs)"
  using assms
proof (induction vs arbitrary: s)
  case (Cons v vs)
  then obtain s1 where s1: "tc_evict v s = Inr s1" "tc_inv s1" "tc_view s1 = (tc_view s)(v div PAGE_SIZE := None)"
    using evict [of s v] by auto
  then obtain s' where "rfold tc_evict vs s1 = Inr s'" "tc_inv s'"
      "tc_view s' = tc_view s1 |` (- (\<lambda>v. v div PAGE_SIZE) ` set vs)"
    using Cons.IH [OF s1(2)] Cons.prems(2) by (metis list.set_intros(2))
  then show ?case
    using s1 by (auto simp: restrict_map_def fun_eq_iff)
qed (simp add: restrict_map_def)

lemma flush_evict: "tc_inv s \<Longrightarrow> v < MIPS_KSEG0 \<Longrightarrow>
    \<exists>s'. rbind (tc_flush s) (tc_evict v) = Inr s' \<and> tc_view s' = Map.empty"
  using flush [of s] evict [of _ v] by fastforce

end

lemma invalidate_TLB_spec:
  assumes "length (tlb s) = NUM_TLB" "unat (next_victim s) < NUM_TLB"
  shows "\<exists>s'. invalidate_TLB s = Inr s' \<and> tlb_inv s' \<and> tlb_view s' = Map.empty \<and>
    main_PG s' = main_PG s \<and> PAGETABLE_ENTRY s' = PAGETABLE_ENTRY s"
proof -
  let ?s = "s\<lparr>TLB_Invalidations := TLB_Invalidations s + 1, tlb := invalid_slots, freeTLBEntries := of_nat NUM_TLB\<rparr>"
  have "tlb ?s = invalid_slots" "freeTLBEntries ?s = of_nat NUM_TLB" "unat (next_victim ?s) < NUM_TLB"
    using assms(2) by simp_all
  note inv = invalid_slots_inv [OF this]
  show ?thesis
    using inv by (intro exI [of _ ?s] conjI invalidate_TLB_eq [OF assms(1)] ext) simp_all
qed

interpretation v1: translation_cache tlb_view tlb_inv removeTLBv1 invalidate_TLB
proof unfold_locales
  show "\<exists>s'. removeTLBv1 v s = Inr s' \<and> tlb_inv s' \<and> tlb_view s' = (tlb_view s)(v div PAGE_SIZE := None)"
    if "tlb_inv s" "v < MIPS_KSEG0" for s :: "'a tlb_state_scheme" and v
    using removeTLBv1_spec [OF that] by blast
  show "\<exists>s'. invalidate_TLB s = Inr s' \<and> tlb_inv s' \<and> tlb_view s' = Map.empty"
    if "tlb_inv s" for s :: "'a tlb_state_scheme"
    using invalidate_TLB_spec [of s] that by (auto simp: tlb_inv_def)
qed

interpretation v0: translation_cache tlb_view tlb_inv removeTLB invalidate_TLB
proof unfold_locales
  show "\<exists>s'. removeTLB v s = Inr s' \<and> tlb_inv s' \<and> tlb_view s' = (tlb_view s)(v div PAGE_SIZE := None)"
    if "tlb_inv s" "v < MIPS_KSEG0" for s :: "'a tlb_state_scheme" and v
    using removeTLBv1_spec [OF that] unfolding removeTLB_eq [OF that] removeTLBv1_eq [OF that] by blast
  show "\<exists>s'. invalidate_TLB s = Inr s' \<and> tlb_inv s' \<and> tlb_view s' = Map.empty"
    if "tlb_inv s" for s :: "'a tlb_state_scheme"
    using v1.flush [OF that] .
qed

section \<open>Coherence with the page table\<close>

text \<open>Every translation leads to a frame whose page table entry is valid for that page.\<close>

definition tlb_coherent :: "'a tlb_state_scheme \<Rightarrow> bool" where
  "tlb_coherent s \<longleftrightarrow>
     (\<forall>p pa w. tlb_view s p = Some (pa, w) \<longrightarrow> p \<noteq> 0 \<and> pt_holds s (unat (pa div PAGE_SIZE)) p)"

definition tlb_ok :: "'a tlb_state_scheme \<Rightarrow> bool" where
  "tlb_ok s \<longleftrightarrow> pt_wf s \<and> tlb_inv s \<and> tlb_coherent s"

lemma pt_holds_cong: "main_PG s' = main_PG s \<Longrightarrow> pt_holds s' i p = pt_holds s i p"
  by (simp add: pt_holds_def)

lemma tlb_ok_shrink:
  assumes "tlb_ok s" "tlb_inv s'" "tlb_view s' \<subseteq>\<^sub>m tlb_view s"
    and "main_PG s' = main_PG s" "PAGETABLE_ENTRY s' = PAGETABLE_ENTRY s"
  shows "tlb_ok s'"
proof -
  have "tlb_view s p = Some e" if "tlb_view s' p = Some e" for p e
    using assms(3) that by (auto simp: map_le_def dom_def)
  then show ?thesis
    using assms(1,2,5) pt_holds_cong [OF assms(4)]
    unfolding tlb_ok_def tlb_coherent_def pt_wf_def assms(4) by metis
qed

lemma addPT_frame:
  assumes "addPT f v pid d s = Inr (s' :: 'a tlb_state_scheme)"
  shows "tlb s' = tlb s" "next_victim s' = next_victim s" "freeTLBEntries s' = freeTLBEntries s"
  using assms by (auto simp: addPT_def Let_def rbind_eq_Inr split: if_split_asm)

lemma tlb_ok_enter:
  assumes "tlb_ok s" "addPT f v pid d s = Inr s'"
  shows "tlb_ok s'"
proof -
  note fr = addPT_frame [OF assms(2)]
  have "pt_holds s' i p" if "pt_holds s i p" "p \<noteq> 0" for i p
    using that addPT_available_holds [OF assms(2)] by (auto simp: addPT_holds [OF assms(2)])
  moreover have "tlb_inv s'"
    using assms(1) by (simp add: tlb_ok_def tlb_inv_def fr)
  ultimately show ?thesis
    using assms(1) addPT_wf [OF assms(2)] unfolding tlb_ok_def tlb_coherent_def tlb_view_cong [OF fr(1)] by blast
qed

text \<open>The outcome of loading a translation that is not cached, for a page that has a frame.\<close>

lemma addTLB_spec:
  assumes wf: "pt_wf s" and inv: "tlb_inv s" and v: "v < MIPS_KSEG0"
    and none: "tlb_view s (v div PAGE_SIZE) = None"
    and f: "addTLB_frame v pid s = Inr (Some f)"
  defines "p \<equiv> v div PAGE_SIZE" and "pa \<equiv> of_nat f * PAGE_SIZE :: u32"
  shows "\<exists>s'. addTLB v pid s = Inr s' \<and> tlb_inv s' \<and> main_PG s' = main_PG s \<and> PAGETABLE_ENTRY s' = PAGETABLE_ENTRY s \<and>
    (if freeTLBEntries s \<noteq> 0
     then tlb_view s' = (tlb_view s)(p \<mapsto> (pa, Dirty (main_PG s ! f))) \<and> freeTLBEntries s' = freeTLBEntries s - 1
     else tlb_view s' = (tlb_view s)(fst (tlb s ! unat (next_victim s)) div PAGE_SIZE := None, p \<mapsto> (pa, True)))"
proof -
  let ?d = "Dirty (main_PG s ! f)"
  have "tlb_probe (v AND PAGE_FRAME) (frame_elo f ?d) s = - 1"
    using none by (intro tlb_probe_miss [OF inv user_page_frame [OF v]]) (simp add: tlb_view_None)
  then have eq: "addTLB v pid s =
      Inr (case find (\<lambda>i. \<not> slot_valid (tlb s ! i)) [0..<NUM_TLB] of
           Some k \<Rightarrow> tlb_load_free k (v AND PAGE_FRAME) (frame_elo f ?d) s
         | None \<Rightarrow> tlb_load_victim (v AND PAGE_FRAME) (frame_elo f True) s)"
    unfolding addTLB_eq [OF wf f] by (intro addTLB_write_eq [OF inv]) linarith
  show ?thesis
  proof (cases "find (\<lambda>i. \<not> slot_valid (tlb s ! i)) [0..<NUM_TLB]")
    case None
    then have "slot_valid (tlb s ! i)" if "i < NUM_TLB" for i
      using that unfolding find_upt_None_iff by blast
    from tlb_load_victim_spec [OF inv v none this, of f] show ?thesis
      using None free_slot_count [OF inv] unfolding eq p_def pa_def
      by (intro exI [of _ "tlb_load_victim (v AND PAGE_FRAME) (frame_elo f True) s"])
        (simp add: tlb_load_victim_def)
  next
    case (Some k)
    then have "k < NUM_TLB" "\<not> slot_valid (tlb s ! k)"
      unfolding find_upt_Some_iff by blast+
    from tlb_load_free_spec [OF inv v none this, of ?d f] show ?thesis
      using Some free_slot_count [OF inv] unfolding eq p_def pa_def
      by (intro exI [of _ "tlb_load_free k (v AND PAGE_FRAME) (frame_elo f ?d) s"])
        (simp add: tlb_load_free_def del: if_split)
  qed
qed

lemma addTLB_no_frame: "pt_wf s \<Longrightarrow> addTLB_frame v pid s = Inr None \<Longrightarrow>
    addTLB v pid s = Inl (Panic ''Error in addTLB from pageSearch'')"
  by (simp add: addTLB_def)

lemma frame_of_elo: "f < 2 ^ 17 \<Longrightarrow> unat (of_nat f * PAGE_SIZE div PAGE_SIZE :: u32) = f"
  by (simp add: unat_div_page frame_addr_unat)

lemma tlb_ok_load:
  assumes ok: "tlb_ok s" and add: "addTLB v pid s = Inr s'" and v: "v < MIPS_KSEG0" "v div PAGE_SIZE \<noteq> 0"
    and none: "tlb_view s (v div PAGE_SIZE) = None"
  shows "tlb_ok s'"
proof -
  have wf: "pt_wf s" and inv: "tlb_inv s" and coh: "tlb_coherent s"
    using ok by (auto simp: tlb_ok_def)
  obtain r where r: "addTLB_frame v pid s = Inr r"
    using addTLB_frame_find [OF wf] by blast
  then obtain f where f: "addTLB_frame v pid s = Inr (Some f)"
    using add addTLB_no_frame [OF wf] by (cases r) simp_all
  then have h: "pt_holds s f (v div PAGE_SIZE)"
    unfolding addTLB_frame_find [OF wf] by (auto simp: find_upt_Some_iff)
  then have "f < 2 ^ 17"
    using wf by (simp add: pt_holds_def pt_wf_def)
  note pa = frame_of_elo [OF this]
  from addTLB_spec [OF wf inv v(1) none f] add have s': "tlb_inv s'" "main_PG s' = main_PG s"
      "PAGETABLE_ENTRY s' = PAGETABLE_ENTRY s"
    and new: "\<And>p e. tlb_view s' p = Some e \<Longrightarrow>
      (p = v div PAGE_SIZE \<and> fst e = of_nat f * PAGE_SIZE) \<or> tlb_view s p = Some e"
    by (auto split: if_split_asm)
  have "p \<noteq> 0 \<and> pt_holds s (unat (a div PAGE_SIZE)) p" if "tlb_view s' p = Some (a, w)" for p a w
    using new [OF that] coh h v(2) pa unfolding tlb_coherent_def by auto
  then show ?thesis
    using wf s' unfolding tlb_ok_def tlb_coherent_def pt_holds_cong [OF s'(2)] by (simp add: pt_wf_def)
qed

text \<open>The round-robin counter.\<close>

primrec rr_victims :: "nat \<Rightarrow> 'a tlb_state_scheme \<Rightarrow> u32 list" where
  "rr_victims 0 s = []"
| "rr_victims (Suc n) s = (let (victim, s) = tlb_get_rr_victim s in victim # rr_victims n s)"

lemma rr_victims_eq:
  "unat (next_victim s) < NUM_TLB \<Longrightarrow>
   map unat (rr_victims n s) = map (\<lambda>i. (unat (next_victim s) + i) mod NUM_TLB) [0..<n]"
proof (induction n arbitrary: s)
  case (Suc n)
  let ?s = "s\<lparr>next_victim := (next_victim s + 1) mod of_nat NUM_TLB\<rparr>"
  have nv: "unat (next_victim ?s) = (unat (next_victim s) + 1) mod NUM_TLB"
    using Suc.prems by (simp add: unat_mod_distrib unat_word_ariths(1))
  then have "map unat (rr_victims n ?s) = map (\<lambda>i. (unat (next_victim s) + Suc i) mod NUM_TLB) [0..<n]"
    using Suc.IH [of ?s] by (simp add: mod_add_left_eq)
  then show ?case
    using Suc.prems by (simp add: tlb_get_rr_victim_def map_upt_Suc del: upt_Suc)
qed simp

section \<open>Properties\<close>

text \<open>
  C29: Loading a user page that has a frame in the page table and is not in the TLB
  succeeds and keeps the TLB invariant. With a free slot the TLB map gains exactly that
  translation, writable when the page table entry says so, and the free counter drops by
  one. With no free slot the translation of the round-robin victim is replaced, and the
  new translation is writable whatever the page table entry says.
\<close>

theorem addTLB_correct:
  assumes "pt_wf s" "pt_unique s" "tlb_inv s" "v < MIPS_KSEG0" "v div PAGE_SIZE \<noteq> 0"
    and "pt_holds s f (v div PAGE_SIZE)" "ucast (pt_pid (main_PG s ! f)) = pid"
    and "tlb_view s (v div PAGE_SIZE) = None"
  shows "\<exists>s'. addTLB v pid s = Inr s' \<and> tlb_inv s' \<and>
    (if freeTLBEntries s \<noteq> 0
     then tlb_view s' = (tlb_view s)(v div PAGE_SIZE \<mapsto> (of_nat f * PAGE_SIZE, Dirty (main_PG s ! f))) \<and>
          freeTLBEntries s' = freeTLBEntries s - 1
     else tlb_view s' = (tlb_view s)(fst (tlb s ! unat (next_victim s)) div PAGE_SIZE := None,
                                     v div PAGE_SIZE \<mapsto> (of_nat f * PAGE_SIZE, True)))"
proof -
  have "find (\<lambda>i. pt_holds s i (v div PAGE_SIZE) \<and> ucast (pt_pid (main_PG s ! i)) = pid)
      [0..<length (main_PG s)] = Some f"
    using assms(6,7) by (intro find_upt_unique) (auto simp: pt_holds_def intro: pt_uniqueD [OF assms(2) _ assms(6,5)])
  then have "addTLB_frame v pid s = Inr (Some f)"
    by (simp only: addTLB_frame_find [OF assms(1)])
  from addTLB_spec [OF assms(1,3,4,8) this] show ?thesis
    by blast
qed

text \<open>The table of \<open>example_pt\<close> with a flushed TLB.\<close>

definition example_tlb :: tlb_state where
  "example_tlb = \<lparr>main_PG = main_PG example_pt, PAGETABLE_ENTRY = 4, pt_counter = 10, curproc_pid = 2,
     curproc_as = curproc_as example_pt, tlb = invalid_slots, freeTLBEntries = 64, next_victim = 0,
     TLB_victim = 0, TLB_Invalidations = 1\<rparr>"

lemma example_tlb_ok: "pt_wf example_tlb" "pt_unique example_tlb" "tlb_inv example_tlb"
    "tlb_view example_tlb p = None"
proof -
  show "pt_wf example_tlb"
    using example_pt_wf by (simp add: pt_wf_def example_tlb_def example_pt_def)
  show "pt_unique example_tlb"
    using example_pt_unique by (simp only: pt_unique_def example_tlb_def select_convs pt_state.select_convs)
  have "tlb example_tlb = invalid_slots" "freeTLBEntries example_tlb = of_nat NUM_TLB"
      "unat (next_victim example_tlb) < NUM_TLB"
    by (simp_all only: example_tlb_def tlb_state.select_convs) simp_all
  from invalid_slots_inv [OF this] show "tlb_inv example_tlb" "tlb_view example_tlb p = None" .
qed

lemma example_tlb_holds: "pt_holds example_tlb 1 0x400" "pt_holds example_tlb 2 0x401"
  by (simp_all add: pt_holds_def example_tlb_def example_pt_def)

theorem addTLB_correct_witness:
  "tlb_inv example_tlb \<and> freeTLBEntries example_tlb \<noteq> 0 \<and>
   (\<exists>s'. addTLB 0x401234 2 example_tlb = Inr s' \<and> tlb_view s' 0x401 = Some (0x2000, False) \<and> freeTLBEntries s' = 63)"
proof -
  have "pt_holds example_tlb 2 (0x401234 div PAGE_SIZE)" "ucast (pt_pid (main_PG example_tlb ! 2)) = (2 :: u32)"
      "\<not> Dirty (main_PG example_tlb ! 2)" "freeTLBEntries example_tlb = 64"
    using example_tlb_holds(2) by (simp_all add: example_tlb_def example_pt_def)
  then show ?thesis
    using addTLB_correct [OF example_tlb_ok(1,2,3), of "0x401234" 2 2] example_tlb_ok(3,4) by auto
qed

text \<open>
  C30: For a user address the two removal routines, the linear scan \<open>removeTLB\<close> and the
  probing \<open>removeTLBv1\<close>, compute the same state; they never fail, keep the invariant and
  remove exactly the translation of the address's page.
\<close>

theorem removeTLB_equivalent:
  assumes "tlb_inv s" "v < MIPS_KSEG0"
  shows "removeTLB v s = removeTLBv1 v s \<and>
    (\<exists>s'. removeTLBv1 v s = Inr s' \<and> tlb_inv s' \<and> tlb_view s' = (tlb_view s)(v div PAGE_SIZE := None))"
  using v1.evict [OF assms] by (simp only: removeTLB_eq [OF assms] removeTLBv1_eq [OF assms] simp_thms)

theorem removeTLB_equivalent_witness:
  "tlb_inv example_tlb \<and> removeTLB 0x400abc example_tlb = removeTLBv1 0x400abc example_tlb"
  using removeTLB_equivalent [OF example_tlb_ok(3), of "0x400abc"] example_tlb_ok(3) by simp

text \<open>
  Round-robin replacement is fair: any 64 consecutive victims are the 64 slots, each
  exactly once.
\<close>

theorem tlb_rr_fair:
  assumes "unat (next_victim s) < NUM_TLB"
  shows "distinct (rr_victims NUM_TLB s) \<and> unat ` set (rr_victims NUM_TLB s) = {..<NUM_TLB}"
proof -
  let ?v = "\<lambda>i. (unat (next_victim s) + i) mod NUM_TLB"
  have eq: "map unat (rr_victims NUM_TLB s) = map ?v [0..<NUM_TLB]"
    by (rule rr_victims_eq [OF assms])
  have "?v i = (if unat (next_victim s) + i < NUM_TLB then unat (next_victim s) + i
                else unat (next_victim s) + i - NUM_TLB)" if "i < NUM_TLB" for i
    using that assms by (simp add: mod_if)
  then have "inj_on ?v {..<NUM_TLB}"
    by (intro inj_onI) (auto split: if_split_asm)
  then have "distinct (map unat (rr_victims NUM_TLB s))"
    unfolding eq by (simp add: distinct_map atLeast0LessThan)
  moreover have "?v ` {..<NUM_TLB} = {..<NUM_TLB}"
    by (rule endo_inj_surj) (use \<open>inj_on ?v {..<NUM_TLB}\<close> in auto)
  ultimately show ?thesis
    using eq by (metis distinct_map image_set set_upt atLeast0LessThan)
qed

theorem tlb_rr_fair_witness:
  "distinct (rr_victims NUM_TLB example_tlb) \<and> unat (next_victim example_tlb) = 0"
  using tlb_rr_fair [of example_tlb] by (simp add: example_tlb_def)

text \<open>
  C33: The guard of \<open>addTLB\<close> against duplicate entries does not cover slot 0. Loading a
  page that a slot other than 0 already translates panics; loading a page that slot 0
  translates, while another slot is free, succeeds and leaves two slots for the page.
\<close>

theorem addTLB_slot0_duplicate:
  assumes "pt_wf s" "tlb_inv s" "v < MIPS_KSEG0" "addTLB_frame v pid s = Inr (Some f)"
    and "tlb_holds s i (v div PAGE_SIZE)" "freeTLBEntries s \<noteq> 0"
  shows "if i \<noteq> 0 then addTLB v pid s = Inl (Panic ''TLB Error: duplicate TLB entries'')
    else \<exists>s' k. addTLB v pid s = Inr s' \<and> k \<noteq> 0 \<and> tlb_holds s' 0 (v div PAGE_SIZE) \<and> tlb_holds s' k (v div PAGE_SIZE)"
proof -
  let ?d = "Dirty (main_PG s ! f)"
  have probe: "tlb_probe (v AND PAGE_FRAME) elo s = int i" for elo
    using assms(5) by (intro tlb_probe_holds [OF assms(2) user_page_frame [OF assms(3)]]) simp
  show ?thesis
  proof (cases "i = 0")
    case False
    then show ?thesis
      unfolding addTLB_eq [OF assms(1,4)] by (simp add: addTLB_write_def probe)
  next
    case True
    obtain k where k: "find (\<lambda>i. \<not> slot_valid (tlb s ! i)) [0..<NUM_TLB] = Some k"
      using assms(6) free_slot_count [OF assms(2)] by auto
    then have k': "k < length (tlb s)" "\<not> slot_valid (tlb s ! k)"
      using tlb_inv_length [OF assms(2)] unfolding find_upt_Some_iff by simp_all
    then have k0: "k \<noteq> 0"
      using assms(5) True by (intro notI) (simp add: tlb_holds_def)
    have "\<not> tlb_probe (v AND PAGE_FRAME) (frame_elo f ?d) s > 0"
      unfolding probe using True by simp
    from addTLB_write_eq [OF assms(2) this] have
        "addTLB v pid s = Inr (tlb_load_free k (v AND PAGE_FRAME) (frame_elo f ?d) s)" (is "_ = Inr ?s'")
      unfolding addTLB_eq [OF assms(1,4)] k by simp
    moreover have "tlb_holds ?s' 0 (v div PAGE_SIZE)" "tlb_holds ?s' k (v div PAGE_SIZE)"
      using k'(1) k0 True assms(5) slot_valid_elo [of ?d f] unfolding tlb_load_free_def tlb_holds_def
      by (simp_all del: if_split)
    ultimately have "\<exists>s' k. addTLB v pid s = Inr s' \<and> k \<noteq> 0 \<and>
        tlb_holds s' 0 (v div PAGE_SIZE) \<and> tlb_holds s' k (v div PAGE_SIZE)"
      by (intro exI [of _ ?s'] exI [of _ k] conjI k0)
    then show ?thesis
      by (simp only: True simp_thms if_False)
  qed
qed

theorem addTLB_slot0_duplicate_witness:
  "\<exists>(s :: tlb_state) s' k. tlb_inv s \<and> addTLB 0x400000 2 s = Inr s' \<and> k \<noteq> 0 \<and>
     tlb_holds s' 0 0x400 \<and> tlb_holds s' k 0x400"
proof -
  let ?s = "tlb_load_free 0 (0x400000 AND PAGE_FRAME) (frame_elo 1 False) example_tlb"
  have "\<not> slot_valid (tlb example_tlb ! 0)"
    by (simp add: example_tlb_def nth_map del: upt_Suc)
  with tlb_load_free_spec(1) [OF example_tlb_ok(3) _ example_tlb_ok(4), of "0x400000" 0 False 1]
  have inv: "tlb_inv ?s"
    by simp
  have s: "main_PG ?s = main_PG example_tlb" "PAGETABLE_ENTRY ?s = PAGETABLE_ENTRY example_tlb"
      "freeTLBEntries ?s \<noteq> 0"
    by (simp_all add: tlb_load_free_def example_tlb_def)
  have "pt_wf ?s"
    using example_tlb_ok(1) unfolding pt_wf_def s .
  moreover have "tlb_holds ?s 0 (0x400000 div PAGE_SIZE)"
    using tlb_inv_length [OF example_tlb_ok(3)] by (simp add: tlb_holds_def tlb_load_free_def)
  moreover have "addTLB_frame 0x400000 2 ?s = Inr (Some 1)"
    unfolding addTLB_frame_def s by (simp add: example_tlb_def example_pt_def eval_simps)
  ultimately have "\<exists>s' k. addTLB 0x400000 2 ?s = Inr s' \<and> k \<noteq> 0 \<and>
      tlb_holds s' 0 (0x400000 div PAGE_SIZE) \<and> tlb_holds s' k (0x400000 div PAGE_SIZE)"
    using addTLB_slot0_duplicate [OF _ inv, of "0x400000" 2 1 0] s(3) by simp
  moreover have "0x400000 div PAGE_SIZE = 0x400"
    by simp
  ultimately show ?thesis
    using inv by metis
qed

end
