(* ===== verification/Ram.thy ===== *)
theory Ram
  imports Tlb
begin

text \<open>
  Physical memory before the VM system takes over, arch/mips/vm/ram.c: the bump
  allocator \<open>ram_stealmem\<close> between \<open>firstpaddr\<close> and \<open>lastpaddr\<close>. The size the bus reports
  (\<open>mainbus_ramsize\<close>) and the first free address start.S leaves in \<open>firstfree\<close> are
  arguments.
\<close>

record ram_state = tlb_state +
  firstpaddr :: u32
  lastpaddr :: u32

definition ram_bootstrap :: "u32 \<Rightarrow> u32 \<Rightarrow> 'a ram_state_scheme \<Rightarrow> 'a ram_state_scheme" where
  "ram_bootstrap ramsize firstfree s =
     (let ramsize = (if ramsize > 512 * 1024 * 1024 then 512 * 1024 * 1024 else ramsize);
          s = s\<lparr>lastpaddr := ramsize\<rparr>
      in s\<lparr>firstpaddr := firstfree - MIPS_KSEG0\<rparr>)"

definition ram_stealmem :: "u32 \<Rightarrow> 'a ram_state_scheme \<Rightarrow> u32 \<times> 'a ram_state_scheme" where
  "ram_stealmem npages s =
     (let size = npages * PAGE_SIZE
      in if firstpaddr s + size > lastpaddr s then (0, s)
         else let paddr = firstpaddr s in (paddr, s\<lparr>firstpaddr := firstpaddr s + size\<rparr>))"

definition ram_getsize :: "'a ram_state_scheme \<Rightarrow> u32" where
  "ram_getsize s = lastpaddr s"

definition ram_getfirstfree :: "'a ram_state_scheme \<Rightarrow> u32 \<times> 'a ram_state_scheme" where
  "ram_getfirstfree s =
     (let ret = firstpaddr s in (ret, s\<lparr>lastpaddr := 0, firstpaddr := 0\<rparr>))"

text \<open>What holds between \<open>ram_bootstrap\<close> and \<open>ram_getfirstfree\<close>: at most 512 megabytes, the free part above page 0.\<close>

definition ram_ok :: "'a ram_state_scheme \<Rightarrow> bool" where
  "ram_ok s \<longleftrightarrow> 0 < firstpaddr s \<and> firstpaddr s \<le> lastpaddr s \<and> lastpaddr s \<le> 512 * 1024 * 1024 \<and>
     firstpaddr s AND PAGE_FRAME = firstpaddr s"

lemma ram_stealmem_spec:
  assumes "ram_ok s" "unat n \<le> 2 ^ 17" "ram_stealmem n s = (pa, s')"
  shows "if unat (firstpaddr s) + unat n * 4096 \<le> unat (lastpaddr s)
    then pa = firstpaddr s \<and> ram_ok s' \<and> lastpaddr s' = lastpaddr s \<and>
         unat (firstpaddr s') = unat (firstpaddr s) + unat n * 4096
    else pa = 0 \<and> s' = s"
proof -
  have l: "unat (lastpaddr s) \<le> 2 ^ 29" and f: "unat (firstpaddr s) \<le> unat (lastpaddr s)"
    using assms(1) by (simp_all add: ram_ok_def word_le_nat_alt)
  have sz: "unat (n * PAGE_SIZE) = unat n * 4096"
    using assms(2) frame_addr_unat [of "unat n"] by simp
  then have sum: "unat (firstpaddr s + n * PAGE_SIZE) = unat (firstpaddr s) + unat n * 4096"
    using l f assms(2) by (simp add: unat_word_ariths(1))
  have al: "(firstpaddr s + n * PAGE_SIZE) AND PAGE_FRAME = firstpaddr s + n * PAGE_SIZE"
  proof -
    have "firstpaddr s = push_bit 12 (drop_bit 12 (firstpaddr s))"
      using assms(1) by (simp add: ram_ok_def and_page_frame)
    then have "firstpaddr s + n * PAGE_SIZE = push_bit 12 (drop_bit 12 (firstpaddr s) + n)"
      by (simp add: push_bit_eq_mult algebra_simps)
    then show ?thesis
      unfolding page_frame_mask by (simp only:) (rule bit_word_eqI, auto simp: bit_simps)
  qed
  show ?thesis
  proof (cases "unat (firstpaddr s) + unat n * 4096 \<le> unat (lastpaddr s)")
    case True
    then have "\<not> firstpaddr s + n * PAGE_SIZE > lastpaddr s"
      by (simp add: word_less_nat_alt sum)
    then have "pa = firstpaddr s" "s' = s\<lparr>firstpaddr := firstpaddr s + n * PAGE_SIZE\<rparr>"
      using assms(3) by (auto simp: ram_stealmem_def Let_def)
    moreover have "0 < firstpaddr s + n * PAGE_SIZE" "firstpaddr s + n * PAGE_SIZE \<le> lastpaddr s"
      using assms(1) True by (simp_all add: ram_ok_def word_less_nat_alt word_le_nat_alt sum)
    ultimately show ?thesis
      using True assms(1) al sum by (simp add: ram_ok_def)
  next
    case False
    then have "firstpaddr s + n * PAGE_SIZE > lastpaddr s"
      by (simp add: word_less_nat_alt sum)
    then show ?thesis
      using False assms(3) by (auto simp: ram_stealmem_def Let_def)
  qed
qed

text \<open>A series of requests made before the VM system starts; the result lists the regions handed out.\<close>

primrec steal_all :: "u32 list \<Rightarrow> 'a ram_state_scheme \<Rightarrow> (nat \<times> nat) list \<times> 'a ram_state_scheme" where
  "steal_all [] s = ([], s)"
| "steal_all (n # ns) s =
     (let (pa, s) = ram_stealmem n s; (rs, s') = steal_all ns s
      in (if pa = 0 then rs else (unat pa, unat pa + unat n * 4096) # rs, s'))"

text \<open>Regions in increasing order, none overlapping the next, all within the bounds.\<close>

primrec regions_ok :: "nat \<Rightarrow> nat \<Rightarrow> (nat \<times> nat) list \<Rightarrow> bool" where
  "regions_ok lo hi [] \<longleftrightarrow> lo \<le> hi"
| "regions_ok lo hi (r # rs) \<longleftrightarrow> lo \<le> fst r \<and> fst r \<le> snd r \<and> 4096 dvd fst r \<and> regions_ok (snd r) hi rs"

lemma regions_ok_mono: "regions_ok lo hi rs \<Longrightarrow> lo' \<le> lo \<Longrightarrow> regions_ok lo' hi rs"
  by (cases rs) auto

lemma regions_ok_mono_hi: "regions_ok lo hi rs \<Longrightarrow> hi \<le> hi' \<Longrightarrow> regions_ok lo hi' rs"
  by (induction rs arbitrary: lo) auto

lemma page_aligned_dvd: "a AND PAGE_FRAME = a \<Longrightarrow> 4096 dvd unat (a :: u32)"
proof -
  assume "a AND PAGE_FRAME = a"
  then have "a = drop_bit 12 a * PAGE_SIZE"
    by (simp add: and_page_frame push_bit_eq_mult)
  moreover have "unat (drop_bit 12 a :: u32) < 2 ^ 20"
    using page_number_less [of a] by (simp add: div_page_size)
  ultimately have "unat a = unat (drop_bit 12 a) * 4096"
    using frame_addr_unat [of "unat (drop_bit 12 a)"] by simp
  then show ?thesis
    by simp
qed

lemma steal_all_regions:
  "ram_ok s \<Longrightarrow> (\<And>n. n \<in> set ns \<Longrightarrow> unat n \<le> 2 ^ 17) \<Longrightarrow> steal_all ns s = (rs, s') \<Longrightarrow>
   regions_ok (unat (firstpaddr s)) (unat (firstpaddr s')) rs \<and> ram_ok s' \<and> lastpaddr s' = lastpaddr s"
proof (induction ns arbitrary: s rs)
  case (Cons n ns)
  obtain pa s1 where s1: "ram_stealmem n s = (pa, s1)"
    by (cases "ram_stealmem n s")
  obtain rs1 where rs1: "steal_all ns s1 = (rs1, s')"
    using Cons.prems(3) s1 by (auto simp: Let_def split: prod.splits)
  have rs: "rs = (if pa = 0 then rs1 else (unat pa, unat pa + unat n * 4096) # rs1)"
    using Cons.prems(3) s1 rs1 by simp
  have n: "unat n \<le> 2 ^ 17"
    using Cons.prems(2) by simp
  note sp = ram_stealmem_spec [OF Cons.prems(1) n s1]
  have ok1: "ram_ok s1"
    using sp Cons.prems(1) by (simp split: if_split_asm)
  have IH: "regions_ok (unat (firstpaddr s1)) (unat (firstpaddr s')) rs1 \<and> ram_ok s' \<and> lastpaddr s' = lastpaddr s1"
    using Cons.IH [OF ok1 _ rs1] Cons.prems(2) by simp
  have "4096 dvd unat (firstpaddr s)"
    using Cons.prems(1) by (intro page_aligned_dvd) (simp add: ram_ok_def)
  then show ?case
    using IH sp rs regions_ok_mono [of "unat (firstpaddr s1)" _ rs1 "unat (firstpaddr s)"]
    by (auto split: if_split_asm)
qed simp

section \<open>Property\<close>

text \<open>
  C34: Before the VM system starts, any series of \<open>ram_stealmem\<close> requests (each of at most
  512 megabytes) hands out page-aligned regions that do not overlap, lie above the memory
  the kernel already uses and below the end of RAM, and keeps the bounds valid.
\<close>

theorem ram_stealmem_disjoint:
  assumes "ram_ok s" "\<forall>n\<in>set ns. unat n \<le> 2 ^ 17" "steal_all ns s = (rs, s')"
  shows "regions_ok (unat (firstpaddr s)) (unat (lastpaddr s)) rs \<and> ram_ok s'"
proof -
  have "regions_ok (unat (firstpaddr s)) (unat (firstpaddr s')) rs" and ok: "ram_ok s'"
    and l: "lastpaddr s' = lastpaddr s"
    using steal_all_regions [OF assms(1) _ assms(3)] assms(2) by blast+
  moreover have "unat (firstpaddr s') \<le> unat (lastpaddr s)"
    using ok l by (simp add: ram_ok_def word_le_nat_alt)
  ultimately show ?thesis
    using regions_ok_mono_hi by blast
qed

definition example_ram :: ram_state where
  "example_ram = tlb_state.extend example_tlb \<lparr>firstpaddr = 0x30000, lastpaddr = 0x35000\<rparr>"

theorem ram_stealmem_disjoint_witness:
  "ram_ok example_ram \<and> fst (steal_all [2, 9, 1] example_ram) = [(0x30000, 0x32000), (0x32000, 0x33000)] \<and>
   regions_ok 0x30000 0x35000 [(0x30000, 0x32000), (0x32000, 0x33000)]"
proof -
  have ok: "ram_ok example_ram" and b: "firstpaddr example_ram = 0x30000" "lastpaddr example_ram = 0x35000"
    by (simp_all add: ram_ok_def example_ram_def tlb_state.extend_def)
  have eq: "fst (steal_all [2, 9, 1] example_ram) = [(0x30000, 0x32000), (0x32000, 0x33000)]"
    by (simp add: ram_stealmem_def Let_def b)
  then show ?thesis
    using ram_stealmem_disjoint [OF ok, of "[2, 9, 1]" "fst (steal_all [2, 9, 1] example_ram)"
        "snd (steal_all [2, 9, 1] example_ram)"] ok b eq by simp
qed

end
