(* ===== verification/Pointer_Lists.thy ===== *)
theory Pointer_Lists
  imports Kernel_Prelude
begin

text \<open>
  Singly linked lists in memory. The free lists and page lists of the kernel heap, the
  list of free frames and the swap list are all chains of addresses ended by the null
  pointer; \<open>path nxt p xs\<close> says that the chain from \<open>p\<close> through \<open>nxt\<close> visits exactly
  \<open>xs\<close>. A loop that follows a chain is written with fuel and \<open>walk_path\<close> shows that
  more fuel than nodes is enough.
\<close>

abbreviation NULL :: u32 where "NULL \<equiv> 0"

primrec path :: "(u32 \<Rightarrow> u32) \<Rightarrow> u32 \<Rightarrow> u32 list \<Rightarrow> bool" where
  "path nxt p [] \<longleftrightarrow> p = NULL"
| "path nxt p (x # xs) \<longleftrightarrow> p = x \<and> x \<noteq> NULL \<and> path nxt (nxt x) xs"

text \<open>
  \<open>for (p = p0; p != NULL; p = nxt(p)) if (P(p)) break;\<close> as a function that returns the
  node where the loop stopped, or null.
\<close>

primrec walk :: "nat \<Rightarrow> (u32 \<Rightarrow> bool res) \<Rightarrow> (u32 \<Rightarrow> u32) \<Rightarrow> u32 \<Rightarrow> u32 res" where
  "walk 0 P nxt p = Inl OutOfFuel"
| "walk (Suc k) P nxt p =
     (if p = NULL then Inr NULL else rbind (P p) (\<lambda>b. if b then Inr p else walk k P nxt (nxt p)))"

lemma path_NULL [simp]: "path nxt 0 xs \<longleftrightarrow> xs = []"
  by (cases xs) auto

lemma path_nonnull: "path nxt p xs \<Longrightarrow> 0 \<notin> set xs"
  by (induction xs arbitrary: p) auto

lemma path_head: "path nxt p xs \<Longrightarrow> p \<noteq> 0 \<Longrightarrow> xs = p # tl xs \<and> path nxt (nxt p) (tl xs)"
  by (cases xs) auto

lemma path_unique: "path nxt p xs \<Longrightarrow> path nxt p ys \<Longrightarrow> xs = ys"
proof (induction xs arbitrary: p ys)
  case (Cons x xs)
  then show ?case
    by (cases ys) auto
qed simp

lemma path_append:
  "path nxt p (xs @ y # ys) \<Longrightarrow> path nxt y (y # ys)"
  by (induction xs arbitrary: p) auto

lemma path_distinct: "path nxt p xs \<Longrightarrow> distinct xs"
proof (induction xs arbitrary: p)
  case (Cons x xs)
  have "x \<notin> set xs"
  proof
    assume "x \<in> set xs"
    then obtain as bs where xs: "xs = as @ x # bs"
      by (meson split_list)
    then have "path nxt x (x # bs)"
      using path_append [of nxt "nxt x" as x bs] Cons.prems by simp
    from path_unique [OF this, of "x # xs"] Cons.prems xs show False
      by simp
  qed
  then show ?case
    using Cons.IH [of "nxt x"] Cons.prems by simp
qed simp

lemma path_cong: "(\<And>x. x \<in> set xs \<Longrightarrow> nxt x = nxt' x) \<Longrightarrow> path nxt p xs = path nxt' p xs"
  by (induction xs arbitrary: p) auto

lemma path_upd [simp]: "y \<notin> set xs \<Longrightarrow> path (nxt(y := z)) p xs = path nxt p xs"
  by (rule path_cong) auto

lemma walk_path:
  assumes "path nxt p xs" "length xs < k" "\<And>x. x \<in> set xs \<Longrightarrow> P x = Inr (Q x)"
  shows "walk k P nxt p = Inr (case find Q xs of None \<Rightarrow> 0 | Some x \<Rightarrow> x)"
  using assms
proof (induction xs arbitrary: p k)
  case Nil
  then show ?case
    by (cases k) auto
next
  case (Cons x xs)
  then show ?case
    by (cases k) auto
qed

end
