(* ===== verification/Kheap.thy ===== *)
theory Kheap
  imports Ram Pointer_Lists
begin

text \<open>
  The subpage allocator of vm/kmalloc.c: pages divided into blocks of one of eight sizes,
  each page described by a \<open>pageref\<close>, the pagerefs kept in at most 16 pages of 256 with a
  bitmap each. The optional checking code (SLOW, GUARDS, LABELS) is compiled out and not
  modelled; neither is the spinlock, as the state is that of one thread inside it.

  The word memory \<open>mem\<close> holds the heap blocks: the first word of a free block is the link of
  the page's free list. The pageref structures live in a store of their own, addressed by
  their address (pageref pages hold nothing else). The page allocator the code calls
  back into is an argument here; Kpages supplies it.
\<close>

section \<open>State\<close>

record pageref =
  next_samesize :: u32
  next_all :: u32
  pageaddr_and_blocktype :: u32
  freelist_offset :: u16
  nfree :: u16

record kheap_root =
  kr_page :: u32
  pagerefs_inuse :: "u32 list"
  numinuse :: u32

record kheap_state = ram_state +
  mem :: "u32 \<Rightarrow> u32"
  prefs :: "u32 \<Rightarrow> pageref"
  kheaproots :: "kheap_root list"
  sizebases :: "u32 list"
  allbase :: u32
  frame_list :: u32
  VM_Started :: bool
  main_PG_addr :: u32

abbreviation NSIZES :: nat where "NSIZES \<equiv> 8"
abbreviation LARGEST_SUBPAGE_SIZE :: u32 where "LARGEST_SUBPAGE_SIZE \<equiv> 2048"
abbreviation INVALID_OFFSET :: u16 where "INVALID_OFFSET \<equiv> 0xffff"
abbreviation NPAGEREFS_PER_PAGE :: nat where "NPAGEREFS_PER_PAGE \<equiv> 256"
abbreviation INUSE_WORDS :: nat where "INUSE_WORDS \<equiv> 8"
abbreviation NUM_PAGEREFPAGES :: nat where "NUM_PAGEREFPAGES \<equiv> 16"
abbreviation TOTAL_PAGEREFS :: nat where "TOTAL_PAGEREFS \<equiv> NUM_PAGEREFPAGES * NPAGEREFS_PER_PAGE"

definition sizes :: "u32 list" where
  "sizes = [16, 32, 64, 128, 256, 512, 1024, 2048]"

definition PR_PAGEADDR :: "pageref \<Rightarrow> u32" where
  "PR_PAGEADDR pr = pageaddr_and_blocktype pr AND PAGE_FRAME"

definition PR_BLOCKTYPE :: "pageref \<Rightarrow> u32" where
  "PR_BLOCKTYPE pr = pageaddr_and_blocktype pr AND NOT PAGE_FRAME"

definition MKPAB :: "u32 \<Rightarrow> u32 \<Rightarrow> u32" where
  "MKPAB pa blk = (pa AND PAGE_FRAME) OR (blk AND NOT PAGE_FRAME)"

text \<open>The page allocator as seen from here: \<open>alloc_kpages\<close> and \<open>free_kpages\<close>.\<close>

type_synonym 's alloc_pages = "u32 \<Rightarrow> 's \<Rightarrow> (u32 \<times> 's) res"
type_synonym 's free_pages = "u32 \<Rightarrow> 's \<Rightarrow> 's res"

section \<open>Memory\<close>

definition fill_deadbeef :: "u32 \<Rightarrow> u32 \<Rightarrow> (u32 \<Rightarrow> u32) \<Rightarrow> u32 \<Rightarrow> u32" where
  "fill_deadbeef vptr len m = fold (\<lambda>i m. m(vptr + 4 * of_nat i := 0xdeadbeef)) [0..<unat len div 4] m"

text \<open>\<open>memset(p, 0, PAGE_SIZE)\<close>.\<close>

definition zero_page :: "u32 \<Rightarrow> (u32 \<Rightarrow> u32) \<Rightarrow> u32 \<Rightarrow> u32" where
  "zero_page p m = (\<lambda>a. if a - p < PAGE_SIZE then 0 else m a)"

section \<open>Pagerefs\<close>

definition allocpagerefpage ::
    "'a kheap_state_scheme alloc_pages \<Rightarrow> 'a kheap_state_scheme free_pages \<Rightarrow> nat \<Rightarrow>
     'a kheap_state_scheme \<Rightarrow> 'a kheap_state_scheme res" where
  "allocpagerefpage alloc_kpages free_kpages root s =
     rbind (arr_get (kheaproots s) root) (\<lambda>r.
     kassert (kr_page r = NULL) (
     rbind (alloc_kpages 1 s) (\<lambda>(va, s).
     if va = 0 then Inr s
     else kassert (va mod PAGE_SIZE = 0) (
       rbind (arr_get (kheaproots s) root) (\<lambda>r.
       if kr_page r \<noteq> NULL then
         rbind (free_kpages va s) (\<lambda>s.
         rbind (arr_get (kheaproots s) root) (\<lambda>r.
         kassert (kr_page r \<noteq> NULL) (Inr s)))
       else Inr (s\<lparr>kheaproots := (kheaproots s)[root := r\<lparr>kr_page := va\<rparr>]\<rparr>))))))"

text \<open>The search of \<open>allocpageref\<close> for a clear bit of one root.\<close>

definition free_pageref_bit :: "kheap_root \<Rightarrow> (nat \<times> nat) option res" where
  "free_pageref_bit r =
     (if numinuse r \<ge> of_nat NPAGEREFS_PER_PAGE then Inr None
      else rfirst (\<lambda>i.
        rbind (arr_get (pagerefs_inuse r) i) (\<lambda>w.
        if w = 0xffffffff then Inr None
        else rbind (rfind (\<lambda>j. Inr (w AND push_bit j 1 = 0)) [0..<32]) (\<lambda>j.
          case j of None \<Rightarrow> Inl KAssertFail | Some j \<Rightarrow> Inr (Some (i, j)))))
        [0..<INUSE_WORDS])"

definition allocpageref ::
    "'a kheap_state_scheme alloc_pages \<Rightarrow> 'a kheap_state_scheme free_pages \<Rightarrow>
     'a kheap_state_scheme \<Rightarrow> (u32 \<times> 'a kheap_state_scheme) res" where
  "allocpageref alloc_kpages free_kpages s =
     rbind (rfirst (\<lambda>whichroot.
        rbind (arr_get (kheaproots s) whichroot) (\<lambda>r.
        rbind (free_pageref_bit r) (\<lambda>b.
        case b of None \<Rightarrow> Inr None | Some (i, j) \<Rightarrow> Inr (Some (whichroot, i, j)))))
        [0..<NUM_PAGEREFPAGES]) (\<lambda>b.
     case b of
       None \<Rightarrow> Inr (NULL, s)
     | Some (whichroot, i, j) \<Rightarrow>
         rbind (arr_get (kheaproots s) whichroot) (\<lambda>r.
         let r = r\<lparr>pagerefs_inuse := (pagerefs_inuse r)[i := pagerefs_inuse r ! i OR push_bit j 1],
                   numinuse := numinuse r + 1\<rparr>;
             s = s\<lparr>kheaproots := (kheaproots s)[whichroot := r]\<rparr>
         in rbind (if kr_page r = NULL then allocpagerefpage alloc_kpages free_kpages whichroot s else Inr s) (\<lambda>s.
            rbind (arr_get (kheaproots s) whichroot) (\<lambda>r.
            if kr_page r = NULL then Inr (NULL, s)
            else Inr (kr_page r + 16 * of_nat (i * 32 + j), s)))))"

text \<open>
  \<open>freepageref\<close>: the pointer difference \<open>p - page->refs\<close> counts structures of 16 bytes and
  is compared as an unsigned number.
\<close>

definition freepageref :: "u32 \<Rightarrow> 'a kheap_state_scheme \<Rightarrow> 'a kheap_state_scheme res" where
  "freepageref p s =
     rbind (rfirst (\<lambda>whichroot.
        rbind (arr_get (kheaproots s) whichroot) (\<lambda>r.
        if kr_page r = NULL then kassert (numinuse r = 0) (Inr None)
        else let j = (p - kr_page r) div 16
             in if j < of_nat NPAGEREFS_PER_PAGE then Inr (Some (whichroot, unat j)) else Inr None))
        [0..<NUM_PAGEREFPAGES]) (\<lambda>b.
     case b of
       None \<Rightarrow> Inl KAssertFail
     | Some (whichroot, j) \<Rightarrow>
         rbind (arr_get (kheaproots s) whichroot) (\<lambda>r.
         let i = j div 32; k = push_bit (j mod 32) 1
         in rbind (arr_get (pagerefs_inuse r) i) (\<lambda>w.
            kassert (w AND k \<noteq> 0) (
            kassert (numinuse r > 0) (
            Inr (s\<lparr>kheaproots := (kheaproots s)[whichroot :=
                   r\<lparr>pagerefs_inuse := (pagerefs_inuse r)[i := w AND NOT k], numinuse := numinuse r - 1\<rparr>]\<rparr>))))))"

text \<open>
  The two loops of \<open>remove_lists\<close> step a pointer to a pointer: \<open>None\<close> stands for the address
  of the list head and \<open>Some q\<close> for the address of the link field of \<open>q\<close>.
\<close>

primrec remove_loop ::
    "nat \<Rightarrow> (u32 option \<Rightarrow> 's \<Rightarrow> u32) \<Rightarrow> (u32 option \<Rightarrow> u32 \<Rightarrow> 's \<Rightarrow> 's) \<Rightarrow> u32 \<Rightarrow> u32 option \<Rightarrow> 's \<Rightarrow> 's res" where
  "remove_loop 0 rd wr pr guy s = Inl OutOfFuel"
| "remove_loop (Suc n) rd wr pr guy s =
     (if rd guy s = NULL then Inr s
      else if rd guy s = pr then Inr (wr guy (rd (Some pr) s) s)
      else remove_loop n rd wr pr (Some (rd guy s)) s)"

definition samesize_rd :: "nat \<Rightarrow> u32 option \<Rightarrow> 'a kheap_state_scheme \<Rightarrow> u32" where
  "samesize_rd blktype guy s =
     (case guy of None \<Rightarrow> sizebases s ! blktype | Some q \<Rightarrow> next_samesize (prefs s q))"

definition samesize_wr :: "nat \<Rightarrow> u32 option \<Rightarrow> u32 \<Rightarrow> 'a kheap_state_scheme \<Rightarrow> 'a kheap_state_scheme" where
  "samesize_wr blktype guy p s =
     (case guy of None \<Rightarrow> s\<lparr>sizebases := (sizebases s)[blktype := p]\<rparr>
      | Some q \<Rightarrow> s\<lparr>prefs := (prefs s)(q := (prefs s q)\<lparr>next_samesize := p\<rparr>)\<rparr>)"

definition all_rd :: "u32 option \<Rightarrow> 'a kheap_state_scheme \<Rightarrow> u32" where
  "all_rd guy s = (case guy of None \<Rightarrow> allbase s | Some q \<Rightarrow> next_all (prefs s q))"

definition all_wr :: "u32 option \<Rightarrow> u32 \<Rightarrow> 'a kheap_state_scheme \<Rightarrow> 'a kheap_state_scheme" where
  "all_wr guy p s =
     (case guy of None \<Rightarrow> s\<lparr>allbase := p\<rparr>
      | Some q \<Rightarrow> s\<lparr>prefs := (prefs s)(q := (prefs s q)\<lparr>next_all := p\<rparr>)\<rparr>)"

definition remove_lists :: "u32 \<Rightarrow> nat \<Rightarrow> 'a kheap_state_scheme \<Rightarrow> 'a kheap_state_scheme res" where
  "remove_lists pr blktype s =
     kassert (blktype < NSIZES) (
     rbind (remove_loop (Suc TOTAL_PAGEREFS) (samesize_rd blktype) (samesize_wr blktype) pr None s)
       (remove_loop (Suc TOTAL_PAGEREFS) all_rd all_wr pr None))"

section \<open>Blocks\<close>

definition blocktype :: "u32 \<Rightarrow> nat res" where
  "blocktype clientsz =
     rbind (rfind (\<lambda>i. rbind (arr_get sizes i) (\<lambda>sz. Inr (clientsz \<le> sz))) [0..<NSIZES]) (\<lambda>r.
     case r of None \<Rightarrow> Inl (Panic ''Subpage allocator cannot handle allocation of size'') | Some i \<Rightarrow> Inr i)"

text \<open>The part of \<open>subpage_kmalloc\<close> at the label \<open>doalloc\<close>: take the head of the page's free list.\<close>

definition subpage_doalloc :: "u32 \<Rightarrow> 'a kheap_state_scheme \<Rightarrow> (u32 \<times> 'a kheap_state_scheme) res" where
  "subpage_doalloc pr s =
     (let p = prefs s pr in
      kassert (freelist_offset p < 4096) (
      let prpage = PR_PAGEADDR p;
          fla = prpage + ucast (freelist_offset p);
          retptr = fla;
          fl = mem s fla;
          p = p\<lparr>nfree := nfree p - 1\<rparr>
      in if fl \<noteq> NULL then
           kassert (nfree p > 0) (
           kassert (fl - prpage < PAGE_SIZE) (
           Inr (retptr, s\<lparr>prefs := (prefs s)(pr := p\<lparr>freelist_offset := ucast (fl - prpage)\<rparr>)\<rparr>)))
         else
           kassert (nfree p = 0) (
           Inr (retptr, s\<lparr>prefs := (prefs s)(pr := p\<lparr>freelist_offset := INVALID_OFFSET\<rparr>)\<rparr>))))"

text \<open>
  The loop of \<open>subpage_kmalloc\<close> that chains the blocks of a fresh page; the loop state is
  the pointer \<open>fl\<close> and the memory.
\<close>

definition chain_blocks :: "u32 \<Rightarrow> u32 \<Rightarrow> nat \<Rightarrow> (u32 \<Rightarrow> u32) \<Rightarrow> (u32 \<times> (u32 \<Rightarrow> u32)) res" where
  "chain_blocks fla sz n m =
     rfold (\<lambda>i (fl, m).
         let fl = fla + of_nat i * sz;
             m = m(fl := fla + (of_nat i - 1) * sz)
         in kassert (fl \<noteq> m fl) (Inr (fl, m)))
       [1..<n] (fla, m(fla := NULL))"

text \<open>The rest of \<open>subpage_kmalloc\<close>: no page of the size has a free block, make a new page.\<close>

definition subpage_newpage ::
    "'a kheap_state_scheme alloc_pages \<Rightarrow> 'a kheap_state_scheme free_pages \<Rightarrow> nat \<Rightarrow>
     'a kheap_state_scheme \<Rightarrow> (u32 \<times> 'a kheap_state_scheme) res" where
  "subpage_newpage alloc_kpages free_kpages blktype s =
     rbind (alloc_kpages 1 s) (\<lambda>(prpage, s).
     if prpage = 0 then Inr (NULL, s)
     else kassert (prpage mod PAGE_SIZE = 0) (
       rbind (allocpageref alloc_kpages free_kpages s) (\<lambda>(pr, s).
       if pr = NULL then rbind (free_kpages prpage s) (\<lambda>s. Inr (NULL, s))
       else
         rbind (arr_get sizes blktype) (\<lambda>size.
         let p = (prefs s pr)\<lparr>pageaddr_and_blocktype := MKPAB prpage (of_nat blktype),
                              nfree := ucast (PAGE_SIZE div size)\<rparr>
         in rbind (chain_blocks prpage size (unat (nfree p)) (mem s)) (\<lambda>(fla, m).
            let p = p\<lparr>freelist_offset := ucast (fla - prpage)\<rparr>
            in kassert (ucast (freelist_offset p) = (ucast (nfree p) - 1) * size) (
               rbind (arr_get (sizebases s) blktype) (\<lambda>b.
               let p = p\<lparr>next_samesize := b, next_all := allbase s\<rparr>
               in subpage_doalloc pr
                    (s\<lparr>mem := m, prefs := (prefs s)(pr := p),
                       sizebases := (sizebases s)[blktype := pr], allbase := pr\<rparr>))))))))"

definition subpage_kmalloc ::
    "'a kheap_state_scheme alloc_pages \<Rightarrow> 'a kheap_state_scheme free_pages \<Rightarrow> u32 \<Rightarrow>
     'a kheap_state_scheme \<Rightarrow> (u32 \<times> 'a kheap_state_scheme) res" where
  "subpage_kmalloc alloc_kpages free_kpages sz s =
     rbind (blocktype sz) (\<lambda>blktype.
     rbind (arr_get (sizebases s) blktype) (\<lambda>b.
     rbind (walk (Suc TOTAL_PAGEREFS)
              (\<lambda>pr. kassert (PR_BLOCKTYPE (prefs s pr) = of_nat blktype) (Inr (nfree (prefs s pr) > 0)))
              (\<lambda>pr. next_samesize (prefs s pr)) b) (\<lambda>pr.
     if pr \<noteq> NULL then subpage_doalloc pr s
     else subpage_newpage alloc_kpages free_kpages blktype s)))"

text \<open>\<open>subpage_kfree\<close> returns -1 when the pointer is on no heap page.\<close>

definition subpage_kfree ::
    "'a kheap_state_scheme free_pages \<Rightarrow> u32 \<Rightarrow> 'a kheap_state_scheme \<Rightarrow> (int \<times> 'a kheap_state_scheme) res" where
  "subpage_kfree free_kpages ptr s =
     rbind (walk (Suc TOTAL_PAGEREFS)
              (\<lambda>pr. kassert (PR_BLOCKTYPE (prefs s pr) < of_nat NSIZES)
                 (Inr (ptr \<ge> PR_PAGEADDR (prefs s pr) \<and> ptr < PR_PAGEADDR (prefs s pr) + PAGE_SIZE)))
              (\<lambda>pr. next_all (prefs s pr)) (allbase s)) (\<lambda>pr.
     if pr = NULL then Inr (- 1, s)
     else
       let p = prefs s pr;
           prpage = PR_PAGEADDR p;
           blktype = unat (PR_BLOCKTYPE p);
           offset = ptr - prpage
       in rbind (arr_get sizes blktype) (\<lambda>size.
          if offset \<ge> PAGE_SIZE \<or> offset mod size \<noteq> 0
          then Inl (Panic ''kfree: subpage free of invalid addr'')
          else
            let m = fill_deadbeef ptr size (mem s);
                fla = prpage + offset
            in rbind (if freelist_offset p = INVALID_OFFSET then Inr (m(fla := NULL))
                      else let m = m(fla := prpage + ucast (freelist_offset p))
                           in kassert (fla \<noteq> m fla) (Inr m)) (\<lambda>m.
               let p = p\<lparr>freelist_offset := ucast offset, nfree := nfree p + 1\<rparr>;
                   s = s\<lparr>mem := m, prefs := (prefs s)(pr := p)\<rparr>
               in kassert (ucast (nfree p) \<le> PAGE_SIZE div size) (
                  if ucast (nfree p) = PAGE_SIZE div size then
                    rbind (remove_lists pr blktype s) (\<lambda>s.
                    rbind (freepageref pr s) (\<lambda>s.
                    rbind (free_kpages prpage s) (\<lambda>s. Inr (0, s))))
                  else Inr (0, s)))))"

definition kmalloc_with ::
    "'a kheap_state_scheme alloc_pages \<Rightarrow> 'a kheap_state_scheme free_pages \<Rightarrow> u32 \<Rightarrow>
     'a kheap_state_scheme \<Rightarrow> (u32 \<times> 'a kheap_state_scheme) res" where
  "kmalloc_with alloc_kpages free_kpages sz s =
     (let checksz = sz + 0 + 0 in
      if checksz \<ge> LARGEST_SUBPAGE_SIZE then
        let npages = (sz + PAGE_SIZE - 1) div PAGE_SIZE
        in rbind (alloc_kpages npages s) (\<lambda>(address, s).
           if address = 0 then Inr (NULL, s)
           else kassert (address mod PAGE_SIZE = 0) (Inr (address, s)))
      else subpage_kmalloc alloc_kpages free_kpages sz s)"

definition kfree_with ::
    "'a kheap_state_scheme free_pages \<Rightarrow> u32 \<Rightarrow> 'a kheap_state_scheme \<Rightarrow> 'a kheap_state_scheme res" where
  "kfree_with free_kpages ptr s =
     (if ptr = NULL then Inr s
      else rbind (subpage_kfree free_kpages ptr s) (\<lambda>(r, s).
        if r \<noteq> 0 then kassert (ptr mod PAGE_SIZE = 0) (free_kpages ptr s) else Inr s))"

end
