(* ===== verification/Kpages.thy ===== *)
theory Kpages
  imports Kheap
begin

text \<open>
  Physical frames: the list of free frames (lib/list.c, vm/coremap.c) and the page
  allocator at the end of vm/kmalloc.c. The nodes of the frame list are themselves
  blocks of the kernel heap, so \<open>alloc_kpages\<close> frees a block, \<open>free_kpages\<close> allocates one,
  and the heap calls back into both. The bodies are written with the function they call as
  an argument and the recursion is closed with fuel.
\<close>

section \<open>The list of free frames\<close>

text \<open>A node: word 0 is \<open>frame_number\<close>, word 1 (offset 4) is \<open>next_frame\<close>.\<close>

definition frame_number :: "'a kheap_state_scheme \<Rightarrow> u32 \<Rightarrow> u32" where
  "frame_number s node = mem s node"

definition next_frame :: "'a kheap_state_scheme \<Rightarrow> u32 \<Rightarrow> u32" where
  "next_frame s node = mem s (node + 4)"

definition set_next_frame :: "u32 \<Rightarrow> u32 \<Rightarrow> 'a kheap_state_scheme \<Rightarrow> 'a kheap_state_scheme" where
  "set_next_frame node p s = s\<lparr>mem := (mem s)(node + 4 := p)\<rparr>"

abbreviation addTOP :: u8 where "addTOP \<equiv> 0"
abbreviation addBOTTOM :: u8 where "addBOTTOM \<equiv> 1"

text \<open>The loop of \<open>check_free_frame\<close>: the state is \<open>(FIFOSize, stopped)\<close>; \<open>currentFrame\<close> does not change in it.\<close>

definition check_free_frame :: "u32 \<Rightarrow> 'a kheap_state_scheme \<Rightarrow> u32" where
  "check_free_frame npages s =
     (let currentFrame = frame_list s in
      if currentFrame = NULL then 0
      else fst (fold (\<lambda>p (FIFOSize, stopped).
                  if stopped \<or> next_frame s currentFrame = NULL then (FIFOSize, True) else (FIFOSize + 1, False))
                [1..<unat npages] (1, False)))"

text \<open>The allocation and initialisation of a node, common to both positions.\<close>

definition new_frame_node ::
    "(u32 \<Rightarrow> 'a kheap_state_scheme \<Rightarrow> (u32 \<times> 'a kheap_state_scheme) res) \<Rightarrow> u32 \<Rightarrow>
     'a kheap_state_scheme \<Rightarrow> (u32 \<times> 'a kheap_state_scheme) res" where
  "new_frame_node kmalloc v s =
     rbind (kmalloc 8 s) (\<lambda>(currentFrame, s).
     if currentFrame = 0 then Inl (Panic ''Error kmalloc in addToList()'')
     else if currentFrame = 0xdeadeef then Inl (Panic ''1'')
     else let s = s\<lparr>mem := (mem s)(currentFrame := v)\<rparr>
          in kassert (v \<le> PAGETABLE_ENTRY s) (Inr (currentFrame, s)))"

definition addToFrameList_top ::
    "(u32 \<Rightarrow> 'a kheap_state_scheme \<Rightarrow> (u32 \<times> 'a kheap_state_scheme) res) \<Rightarrow> u32 \<Rightarrow>
     'a kheap_state_scheme \<Rightarrow> (int \<times> 'a kheap_state_scheme) res" where
  "addToFrameList_top kmalloc v s =
     rbind (new_frame_node kmalloc v s) (\<lambda>(currentFrame, s).
     let s = set_next_frame currentFrame (frame_list s) s
     in Inr (0, s\<lparr>frame_list := currentFrame\<rparr>))"

text \<open>The loop \<open>while (1)\<close> of the bottom case looks for the last node.\<close>

definition last_frame_node :: "'a kheap_state_scheme \<Rightarrow> u32 res" where
  "last_frame_node s =
     walk (unat (PAGETABLE_ENTRY s) + 2)
       (\<lambda>node. Inr (\<not> (next_frame s node \<noteq> NULL \<and> next_frame s node \<noteq> 0xdeadbeef)))
       (next_frame s) (frame_list s)"

definition addToFrameList_with ::
    "(u32 \<Rightarrow> 'a kheap_state_scheme \<Rightarrow> (u32 \<times> 'a kheap_state_scheme) res) \<Rightarrow> u32 \<Rightarrow> u8 \<Rightarrow>
     'a kheap_state_scheme \<Rightarrow> (int \<times> 'a kheap_state_scheme) res" where
  "addToFrameList_with kmalloc v position s =
     (if position = addTOP then addToFrameList_top kmalloc v s
      else rbind (new_frame_node kmalloc v s) (\<lambda>(currentFrame, s).
        if position = addBOTTOM then
          (if frame_list s = NULL then addToFrameList_top kmalloc v s
           else rbind (last_frame_node s) (\<lambda>bufferFrame.
             Inr (0, set_next_frame bufferFrame currentFrame s)))
        else Inr (1, s)))"

section \<open>The page allocator\<close>

text \<open>One iteration of the loop of \<open>alloc_kpages\<close>: take the first free frame. The loop state is \<open>(addr, s)\<close>.\<close>

definition alloc_kpages_step ::
    "(u32 \<Rightarrow> 'a kheap_state_scheme \<Rightarrow> 'a kheap_state_scheme res) \<Rightarrow>
     u32 \<times> 'a kheap_state_scheme \<Rightarrow> (u32 \<times> 'a kheap_state_scheme) res" where
  "alloc_kpages_step kfree st =
     (case st of (addr, s) \<Rightarrow>
        let currentFrame = frame_list s in
        if currentFrame = NULL then Inl BadAccess
        else
          let index = frame_number s currentFrame in
          kassert (index < PAGETABLE_ENTRY s) (
          rbind (arr_get (main_PG s) (unat index)) (\<lambda>e.
          if Valid e then Inl (Panic ''This should not happen'')
          else
            let s = s\<lparr>pt_counter := pt_counter s + 1\<rparr>;
                s = s\<lparr>main_PG := (main_PG s)[unat index :=
                       e\<lparr>Valid := True, pt_pid := 0, page_number := 0, victim_counter := ucast (pt_counter s)\<rparr>]\<rparr>;
                first = index * 4096
            in if addr = 0 \<and> first \<ge> main_PG_addr s - MIPS_KSEG0
               then Inl (Panic ''You're trying to write over the PG'')
               else if addr = 0 \<and> first = 0 then Inl (Panic ''Error in alloc_kpages'')
               else
                 let addr = (if addr = 0 then first else addr);
                     deleteFrame = currentFrame;
                     s = s\<lparr>frame_list := next_frame s currentFrame\<rparr>
                 in rbind (kfree deleteFrame s) (\<lambda>s. Inr (addr, s)))))"

definition alloc_kpages_with ::
    "(u32 \<Rightarrow> 'a kheap_state_scheme \<Rightarrow> 'a kheap_state_scheme res) \<Rightarrow> u32 \<Rightarrow>
     'a kheap_state_scheme \<Rightarrow> (u32 \<times> 'a kheap_state_scheme) res" where
  "alloc_kpages_with kfree npages s =
     kassert (npages < of_nat MAX_PAGES_ALLOC) (
     if \<not> VM_Started s then
       let (addr, s) = ram_stealmem npages s
       in if addr = 0 then Inl (Panic ''Error in alloc_kpages: Not enough RAM'')
          else Inr (PADDR_TO_KVADDR addr, s)
     else
       let FIFOSize = ucast (check_free_frame npages s) :: u8
       in if FIFOSize = 0 then Inr (0, s)
          else if ucast FIFOSize = npages then
            rbind (rfold (\<lambda>_. alloc_kpages_step kfree) [0..<unat npages] (0, s)) (\<lambda>(addr, s).
            Inr (PADDR_TO_KVADDR addr, s\<lparr>mem := zero_page (PADDR_TO_KVADDR addr) (mem s)\<rparr>))
          else Inl (Panic ''Error in alloc_kpages''))"

definition free_kpages_with ::
    "(u32 \<Rightarrow> u8 \<Rightarrow> 'a kheap_state_scheme \<Rightarrow> (int \<times> 'a kheap_state_scheme) res) \<Rightarrow> u32 \<Rightarrow>
     'a kheap_state_scheme \<Rightarrow> 'a kheap_state_scheme res" where
  "free_kpages_with addToFrameList paddr s =
     (if \<not> VM_Started s then Inr s
      else
        let paddr_align = paddr AND PAGE_FRAME;
            frame_index = (paddr_align - MIPS_KSEG0) div PAGE_SIZE
        in kassert (frame_index < PAGETABLE_ENTRY s) (
           rbind (arr_get (main_PG s) (unat frame_index)) (\<lambda>e.
           if \<not> Valid e then Inl (Panic ''You're trying to free an already empty memory region'')
           else
             rbind (if pt_pid e \<noteq> 0 then removeTLBv1 (page_number e * 4096) s else Inr s) (\<lambda>s.
             let s = s\<lparr>main_PG := (main_PG s)[unat frame_index :=
                         e\<lparr>Valid := False, pt_pid := 0, page_number := 0\<rparr>]\<rparr>;
                 s = s\<lparr>mem := zero_page paddr (mem s)\<rparr>
             in rbind (addToFrameList frame_index addTOP s) (\<lambda>(r, s). Inr s)))))"

section \<open>Closing the recursion\<close>

text \<open>
  The fuel bounds the nesting of page allocation inside page allocation; running out is
  the error \<open>OutOfFuel\<close>.
\<close>

fun alloc_kpages :: "nat \<Rightarrow> u32 \<Rightarrow> 'a kheap_state_scheme \<Rightarrow> (u32 \<times> 'a kheap_state_scheme) res"
and free_kpages :: "nat \<Rightarrow> u32 \<Rightarrow> 'a kheap_state_scheme \<Rightarrow> 'a kheap_state_scheme res" where
  "alloc_kpages 0 npages s = Inl OutOfFuel"
| "alloc_kpages (Suc n) npages s = alloc_kpages_with (kfree_with (free_kpages n)) npages s"
| "free_kpages 0 paddr s = Inl OutOfFuel"
| "free_kpages (Suc n) paddr s =
     free_kpages_with (addToFrameList_with (kmalloc_with (alloc_kpages n) (free_kpages n))) paddr s"

definition kmalloc :: "nat \<Rightarrow> u32 \<Rightarrow> 'a kheap_state_scheme \<Rightarrow> (u32 \<times> 'a kheap_state_scheme) res" where
  "kmalloc n = kmalloc_with (alloc_kpages n) (free_kpages n)"

definition kfree :: "nat \<Rightarrow> u32 \<Rightarrow> 'a kheap_state_scheme \<Rightarrow> 'a kheap_state_scheme res" where
  "kfree n = kfree_with (free_kpages n)"

definition addToFrameList :: "nat \<Rightarrow> u32 \<Rightarrow> u8 \<Rightarrow> 'a kheap_state_scheme \<Rightarrow> (int \<times> 'a kheap_state_scheme) res" where
  "addToFrameList n = addToFrameList_with (kmalloc n)"

text \<open>\<open>page_replacement\<close> of vm/pt.c gives up the frame with the given number.\<close>

definition page_replacement :: "nat \<Rightarrow> u32 \<Rightarrow> 'a kheap_state_scheme \<Rightarrow> (int \<times> 'a kheap_state_scheme) res" where
  "page_replacement n page_num s = rbind (free_kpages n (page_num * PAGE_SIZE + MIPS_KSEG0) s) (\<lambda>s. Inr (0, s))"

end
