(* ===== verification/Swapfile.thy ===== *)
theory Swapfile
  imports Kpages
begin

text \<open>
  The swap file, vm/swapfile.c: a table with one slot per page of the file, the searches in
  it, and the transfer of a page between a frame and the file. The state record holds
  the globals of the virtual memory system that are left: the swap table, the contents of the
  swap file (words by byte offset) and the statistics counters of vm/vmstats.c.

  The file itself is reached through the VFS layer. What that layer answers is an
  argument, \<open>vfs_env\<close>: the result of opening a file, the error code of a page read or
  write at an offset of the swap file, the bytes of a kernel read of an executable, and
  the whole effect of a read into user memory (which may fault). A page transfer without
  error copies the page, as the vnode operations document.
\<close>

section \<open>State\<close>

record list_param =
  p_number :: u32
  p_pid :: u32
  p_offset :: u32
  sf_Dirty :: bool

record vm_state = kheap_state +
  sf_list :: "list_param list"
  swap_file :: "u32 \<Rightarrow> u32"
  curproc_as_ptr :: u32
  curproc_name :: string
  exit_status :: int
  TLB_PID :: bool
  TLB_Faults :: u32
  TLB_Faults_wFree :: u32
  TLB_Faults_wReplace :: u32
  TLB_Reloads :: u32
  PF_Zeroed :: u32
  PF_ELF :: u32
  PF_Disk :: u32
  PF_Swapfile :: u32
  SF_Writes :: u32

record 's vfs_env =
  env_open :: "string \<Rightarrow> int"
  env_swap_read :: "u32 \<Rightarrow> int"
  env_swap_write :: "u32 \<Rightarrow> int"
  env_elf_read :: "u32 \<Rightarrow> nat \<Rightarrow> int \<times> u8 list"
  env_user_read :: "u32 \<Rightarrow> u32 \<Rightarrow> u32 \<Rightarrow> u32 \<Rightarrow> bool \<Rightarrow> 's \<Rightarrow> (int \<times> u32 \<times> 's) res"

abbreviation SWAPFILE_SIZE :: nat where "SWAPFILE_SIZE \<equiv> 2304"

definition swap_filename :: string where
  "swap_filename = ''swapfile''"

text \<open>\<open>VOP_READ\<close> and \<open>VOP_WRITE\<close> of one page: the words move between memory and the file.\<close>

definition page_to_file :: "u32 \<Rightarrow> u32 \<Rightarrow> (u32 \<Rightarrow> u32) \<Rightarrow> (u32 \<Rightarrow> u32) \<Rightarrow> u32 \<Rightarrow> u32" where
  "page_to_file addr offset m d = (\<lambda>x. if x - offset < PAGE_SIZE then m (addr + (x - offset)) else d x)"

definition file_to_page :: "u32 \<Rightarrow> u32 \<Rightarrow> (u32 \<Rightarrow> u32) \<Rightarrow> (u32 \<Rightarrow> u32) \<Rightarrow> u32 \<Rightarrow> u32" where
  "file_to_page addr offset d m = (\<lambda>a. if a - addr < PAGE_SIZE then d (offset + (a - addr)) else m a)"

section \<open>Operations\<close>

definition swapfile_init :: "'a vm_state_scheme vfs_env \<Rightarrow> 'a vm_state_scheme \<Rightarrow> 'a vm_state_scheme res" where
  "swapfile_init env s =
     (if env_open env swap_filename \<noteq> 0 then Inl (Panic ''Something has gone wrong with swapfile creation'')
      else rfold (\<lambda>i s. rbind (arr_get (sf_list s) i) (\<lambda>e.
               Inr (s\<lparr>sf_list := (sf_list s)[i := e\<lparr>p_number := 0, p_pid := 0, sf_Dirty := False, p_offset := of_nat i\<rparr>]\<rparr>)))
             [0..<SWAPFILE_SIZE] s)"

definition sf_pageSearch :: "u32 \<Rightarrow> u32 \<Rightarrow> 'a vm_state_scheme \<Rightarrow> int res" where
  "sf_pageSearch page_num pid s =
     rbind (rfind (\<lambda>i. rbind (arr_get (sf_list s) i) (\<lambda>e. Inr (page_num = p_number e \<and> pid = p_pid e)))
              [0..<SWAPFILE_SIZE])
       (\<lambda>r. case r of None \<Rightarrow> Inr noEntryFound | Some i \<Rightarrow> Inr (int i))"

definition sf_freeSearch :: "'a vm_state_scheme \<Rightarrow> int res" where
  "sf_freeSearch s =
     rbind (rfind (\<lambda>i. rbind (arr_get (sf_list s) i) (\<lambda>e. Inr (p_number e = 0 \<and> p_pid e = 0))) [0..<SWAPFILE_SIZE])
       (\<lambda>r. case r of None \<Rightarrow> Inr noEntryFound | Some i \<Rightarrow> Inr (int i))"

definition swapfile_checkv1 :: "u32 \<Rightarrow> u32 \<Rightarrow> 'a vm_state_scheme \<Rightarrow> int res" where
  "swapfile_checkv1 page_num pid s =
     rbind (sf_pageSearch page_num pid s) (\<lambda>index.
     if index < 0 then Inr noEntryFound
     else if index \<ge> 0 then Inr index
     else Inr noEntryFound)"

definition swapIn :: "nat \<Rightarrow> 'a vm_state_scheme vfs_env \<Rightarrow> int \<Rightarrow> 'a vm_state_scheme \<Rightarrow> (int \<times> 'a vm_state_scheme) res" where
  "swapIn n env index s =
     rbind (alloc_kpages n 1 s) (\<lambda>(RAM_address, s).
     if RAM_address = 0 then Inl (Panic ''swapIn not allowed!'')
     else
       let pt_index = (RAM_address - MIPS_KSEG0) div PAGE_SIZE
       in rbind (arr_get (sf_list s) (nat index)) (\<lambda>e.
          let vaddress = p_number e * PAGE_SIZE; pid = p_pid e; dirty = sf_Dirty e
          in rbind (addPT pt_index vaddress pid dirty s) (\<lambda>s.
             rbind (addTLB vaddress pid s) (\<lambda>s.
             let offset = p_offset e * PAGE_SIZE
             in if env_open env swap_filename > 0 then Inl (Panic ''ERROR in SWAPFILE opening operation'')
                else if env_swap_read env offset \<noteq> 0 then Inr (- 1, s)
                else
                  let s = s\<lparr>mem := file_to_page RAM_address offset (swap_file s) (mem s)\<rparr>
                  in rbind (arr_get (sf_list s) (nat index)) (\<lambda>e.
                     Inr (0, s\<lparr>sf_list := (sf_list s)[nat index :=
                            e\<lparr>p_number := 0, p_pid := 0, sf_Dirty := False\<rparr>]\<rparr>))))))"

definition swapOut :: "nat \<Rightarrow> 'a vm_state_scheme vfs_env \<Rightarrow> u32 \<Rightarrow> 'a vm_state_scheme \<Rightarrow> (int \<times> 'a vm_state_scheme) res" where
  "swapOut n env RAM_address s =
     rbind (sf_freeSearch s) (\<lambda>index.
     if index = noEntryFound then Inl (Panic ''ERROR: Out of swap space!!'')
     else
       rbind (arr_get (sf_list s) (nat index)) (\<lambda>e.
       let offset = p_offset e * PAGE_SIZE
       in if env_open env swap_filename > 0 then Inl (Panic ''ERROR in SWAPFILE opening operation'')
          else if env_swap_write env offset \<noteq> 0 then Inr (- 1, s)
          else
            let s = s\<lparr>swap_file := page_to_file RAM_address offset (mem s) (swap_file s)\<rparr>;
                pt_index = (RAM_address - MIPS_KSEG0) div PAGE_SIZE
            in rbind (arr_get (main_PG s) (unat pt_index)) (\<lambda>pte.
               let s = s\<lparr>sf_list := (sf_list s)[nat index :=
                          e\<lparr>p_number := page_number pte, p_pid := ucast (pt_pid pte), sf_Dirty := Dirty pte\<rparr>]\<rparr>
               in rbind (free_kpages n RAM_address s) (\<lambda>s. Inr (0, s)))))"

end
