(* ===== verification/Addrspace.thy ===== *)
theory Addrspace
  imports Swapfile
begin

text \<open>
  Address spaces, vm/addrspace.c, and the allocation of user pages, \<open>alloc_pages\<close> of vm/vm.c.
  The structure of the current process is the field \<open>curproc_as\<close> of the state and
  \<open>curproc_as_ptr\<close> its address; an operation that is handed the structure takes it as a value
  and returns it updated. The first argument of an operation is the fuel of the page
  allocator.
\<close>

section \<open>User pages\<close>

definition alloc_pages :: "nat \<Rightarrow> u8 \<Rightarrow> u32 \<Rightarrow> bool \<Rightarrow> 'a vm_state_scheme \<Rightarrow> (u32 \<times> 'a vm_state_scheme) res" where
  "alloc_pages n npages vaddr dirty s =
     (let pid = curproc_pid s in
      kassert (VM_Started s) (
      rbind (rfold (\<lambda>_ s.
          rbind (alloc_kpages n 1 s) (\<lambda>(paddr, s).
          if paddr = 0 then Inl (Panic ''Error in alloc_pages() during kmalloc()'')
          else
            let frame_index = (paddr - MIPS_KSEG0) div PAGE_SIZE
            in addPT frame_index vaddr pid dirty s)) [0..<unat npages] s)
        (\<lambda>s. Inr (0, s))))"

section \<open>Life of an address space\<close>

text \<open>
  \<open>as_create\<close>: the structure comes from \<open>kmalloc\<close>; the fields the code does not set keep
  whatever the block held, the argument \<open>garbage\<close>.
\<close>

definition as_create ::
    "nat \<Rightarrow> addrspace \<Rightarrow> 'a vm_state_scheme \<Rightarrow> ((u32 \<times> addrspace) \<times> 'a vm_state_scheme) res" where
  "as_create n garbage s =
     rbind (kmalloc n 28 s) (\<lambda>(as, s).
     if as = NULL then Inl (Panic ''Error while kmalloc in as_create()'')
     else Inr ((as, garbage\<lparr>as_vbase_code := 0, as_npages_code := 0, as_vbase_data := 0, as_npages_data := 0,
                            as_vbase_bss := 0, as_vbase_stack := 0\<rparr>), s))"

definition as_copy ::
    "nat \<Rightarrow> addrspace \<Rightarrow> addrspace \<Rightarrow> 'a vm_state_scheme \<Rightarrow> ((u32 \<times> addrspace) \<times> 'a vm_state_scheme) res" where
  "as_copy n garbage old s = as_create n garbage s"

definition as_destroy :: "nat \<Rightarrow> u32 \<Rightarrow> 'a vm_state_scheme \<Rightarrow> 'a vm_state_scheme res" where
  "as_destroy n as s =
     rbind (kfree n as s) (\<lambda>s.
     rbind (rfold (\<lambda>i s.
         rbind (arr_get (main_PG s) i) (\<lambda>e.
         if ucast (pt_pid e) = curproc_pid s \<and> Valid e
         then free_kpages n (of_nat i * 4096 + MIPS_KSEG0) s else Inr s)) (pt_indices s) s)
       invalidate_TLB)"

text \<open>\<open>TLB_PID\<close> has type \<open>_Bool\<close>: the identifier is compared with 0 or 1 and stored as 0 or 1.\<close>

definition as_activate :: "'a vm_state_scheme \<Rightarrow> 'a vm_state_scheme res" where
  "as_activate s =
     (case curproc_as s of
        None \<Rightarrow> Inr s
      | Some as \<Rightarrow>
          if curproc_pid s \<noteq> (if TLB_PID s then 1 else 0) then
            rbind (invalidate_TLB s) (\<lambda>s. Inr (s\<lparr>TLB_PID := (curproc_pid s \<noteq> 0)\<rparr>))
          else Inr s)"

section \<open>Regions\<close>

text \<open>The loop of \<open>as_define_region\<close> that gives a frame and, while there is room, a TLB entry to each page.\<close>

definition region_pages :: "nat \<Rightarrow> u32 \<Rightarrow> u16 \<Rightarrow> 'a vm_state_scheme \<Rightarrow> 'a vm_state_scheme res" where
  "region_pages n base loaded s =
     rfold (\<lambda>i s.
         rbind (alloc_pages n 1 (base + of_nat i * PAGE_SIZE) True s) (\<lambda>(r, s).
         if r \<noteq> 0 then Inl (Panic ''Error during memory allocation. See alloc_kpages called by as_define_region.'')
         else if freeTLBEntries s \<noteq> 0 then addTLB (base + of_nat i * PAGE_SIZE) (curproc_pid s) s
         else Inr s)) [0..<unat loaded] s"

definition as_define_region ::
    "nat \<Rightarrow> addrspace \<Rightarrow> u32 \<Rightarrow> u32 \<Rightarrow> bool \<Rightarrow> bool \<Rightarrow> bool \<Rightarrow> 'a vm_state_scheme \<Rightarrow>
     ((int \<times> addrspace) \<times> 'a vm_state_scheme) res" where
  "as_define_region n as vaddr memsize readable writeable executable s =
     (if executable then
        let as = as\<lparr>as_vbase_code := vaddr, as_npages_code := ucast (memsize div PAGE_SIZE + 1)\<rparr>;
            as = as\<lparr>as_npages_code_loaded :=
                   (if unat (as_npages_code as) > MAX_CODE_SEGMENT_PAGES then of_nat MAX_CODE_SEGMENT_PAGES
                    else as_npages_code as)\<rparr>
        in rbind (region_pages n (as_vbase_code as) (as_npages_code_loaded as) s) (\<lambda>s. Inr ((0, as), s))
      else if \<not> writeable then Inl (Panic ''Function not developed yet'')
      else if \<not> readable then Inl (Panic ''Function not developed yet'')
      else if writeable \<and> readable then
        let as = as\<lparr>as_vbase_data := vaddr, as_npages_data := ucast (memsize div PAGE_SIZE + 1)\<rparr>;
            as = as\<lparr>as_npages_data_loaded :=
                   (if unat (as_npages_data as) > MAX_DATA_SEGMENT_PAGES
                    then of_nat MAX_PAGES_PER_PROCESS - (as_npages_code_loaded as - of_nat MAX_STACK_SEGMENT_PAGES)
                    else as_npages_data as)\<rparr>
        in rbind (region_pages n (as_vbase_data as) (as_npages_data_loaded as) s) (\<lambda>s. Inr ((0, as), s))
      else Inr ((ENOSYS, as), s))"

definition as_prepare_load ::
    "nat \<Rightarrow> addrspace \<Rightarrow> 'a vm_state_scheme \<Rightarrow> ((int \<times> addrspace) \<times> 'a vm_state_scheme) res" where
  "as_prepare_load n as s =
     (let as = as\<lparr>as_vbase_stack := as_vbase_data as + PAGE_SIZE * ucast (as_npages_data as)\<rparr>
      in rbind (alloc_pages n 1 (as_vbase_stack as) True s) (\<lambda>(addr, s).
         if addr \<noteq> 0 then Inl (Panic ''Error while as_prepare_load()'') else Inr ((0, as), s)))"

definition as_complete_load :: "addrspace \<Rightarrow> int" where
  "as_complete_load as = 0"

definition as_define_stack :: "addrspace \<Rightarrow> (int \<times> u32) res" where
  "as_define_stack as =
     (let stackptr = as_vbase_stack as in kassert (as_vbase_stack as \<noteq> 0) (Inr (0, stackptr)))"

end
