(* ===== verification/Byte_Order.thy ===== *)
theory Byte_Order
  imports Kernel_Prelude
begin

text \<open>
  The words of structures that are stored as bytes: the ELF headers, the inodes, directory
  entries and indirect blocks of the file system. The machine is big-endian, so a structure in
  memory has the most significant byte of each field first.
\<close>

definition be16 :: "u8 list \<Rightarrow> nat \<Rightarrow> u16" where
  "be16 b i = push_bit 8 (ucast (b ! i)) OR ucast (b ! (i + 1))"

definition be32 :: "u8 list \<Rightarrow> nat \<Rightarrow> u32" where
  "be32 b i = push_bit 24 (ucast (b ! i)) OR push_bit 16 (ucast (b ! (i + 1))) OR
              push_bit 8 (ucast (b ! (i + 2))) OR ucast (b ! (i + 3))"

definition put16 :: "u16 \<Rightarrow> u8 list" where
  "put16 w = [ucast (drop_bit 8 w), ucast w]"

definition put32 :: "u32 \<Rightarrow> u8 list" where
  "put32 w = [ucast (drop_bit 24 w), ucast (drop_bit 16 w), ucast (drop_bit 8 w), ucast w]"

text \<open>An array of words, as an indirect block holds it.\<close>

definition words_of :: "nat \<Rightarrow> nat \<Rightarrow> u8 list \<Rightarrow> u32 list" where
  "words_of off n b = map (\<lambda>i. be32 b (off + 4 * i)) [0..<n]"

definition bytes_of :: "u32 list \<Rightarrow> u8 list" where
  "bytes_of ws = concat (map put32 ws)"

section \<open>Round trips\<close>

lemma be32_bytes:
  "push_bit 24 (ucast (ucast (drop_bit 24 w) :: u8)) OR push_bit 16 (ucast (ucast (drop_bit 16 w) :: u8)) OR
   push_bit 8 (ucast (ucast (drop_bit 8 w) :: u8)) OR ucast (ucast w :: u8) = (w :: u32)" (is "?l = _")
proof (rule bit_word_eqI)
  fix n :: nat
  consider "n < 8" | "8 \<le> n \<and> n < 16" | "16 \<le> n \<and> n < 24" | "24 \<le> n"
    by linarith
  then show "bit ?l n = bit w n" if "n < LENGTH(32)"
    using that by cases (auto simp: bit_simps)
qed

lemma be16_bytes: "push_bit 8 (ucast (ucast (drop_bit 8 w) :: u8)) OR ucast (ucast w :: u8) = (w :: u16)" (is "?l = _")
proof (rule bit_word_eqI)
  fix n :: nat
  show "bit ?l n = bit w n" if "n < LENGTH(16)"
    using that by (cases "n < 8") (auto simp: bit_simps)
qed

lemma length_put [simp]: "length (put16 h) = 2" "length (put32 w) = 4"
  by (simp_all add: put16_def put32_def)

lemma length_bytes_of [simp]: "length (bytes_of ws) = 4 * length ws"
  by (induction ws) (simp_all add: bytes_of_def)

lemma length_words_of [simp]: "length (words_of off n b) = n"
  by (simp add: words_of_def)

lemma be32_prefix [simp]: "be32 (xs @ put32 w @ ys) (length xs) = w"
  by (simp add: be32_def put32_def nth_append be32_bytes)

lemma be16_prefix [simp]: "be16 (xs @ put16 w @ ys) (length xs) = w"
  by (simp add: be16_def put16_def nth_append be16_bytes)

lemma be32_at: "n = length xs \<Longrightarrow> be32 (xs @ put32 w @ ys) n = w"
  by simp

lemma be16_at: "n = length xs \<Longrightarrow> be16 (xs @ put16 w @ ys) n = w"
  by simp

lemma bytes_of_split:
  "i < length ws \<Longrightarrow> bytes_of ws = bytes_of (take i ws) @ put32 (ws ! i) @ bytes_of (drop (Suc i) ws)"
  by (subst id_take_nth_drop [of i ws]) (simp_all add: bytes_of_def)

lemma be32_bytes_of:
  assumes "i < length ws" "off = length xs"
  shows "be32 (xs @ bytes_of ws @ ys) (off + 4 * i) = ws ! i"
proof -
  have "xs @ bytes_of ws @ ys = (xs @ bytes_of (take i ws)) @ put32 (ws ! i) @ bytes_of (drop (Suc i) ws) @ ys"
    using bytes_of_split [OF assms(1)] by simp
  then show ?thesis
    using assms by (simp only: be32_at length_append length_bytes_of length_take min_absorb2 less_imp_le)
qed

lemma words_of_bytes_of: "length ws = n \<Longrightarrow> off = length xs \<Longrightarrow> words_of off n (xs @ bytes_of ws @ ys) = ws"
  by (rule nth_equalityI) (simp_all add: words_of_def be32_bytes_of)

lemma words_of_bytes_of_0 [simp]: "length ws = n \<Longrightarrow> words_of 0 n (bytes_of ws) = ws"
  using words_of_bytes_of [of ws n 0 "[]" "[]"] by simp

text \<open>The other way round: the bytes of a block are those of its words.\<close>

lemma put32_be32_bytes:
  "put32 (push_bit 24 (ucast a) OR push_bit 16 (ucast b) OR push_bit 8 (ucast c) OR ucast d) = [a, b, c, d]"
proof -
  let ?w = "push_bit 24 (ucast a) OR push_bit 16 (ucast b) OR push_bit 8 (ucast c) OR ucast d :: u32"
  have "ucast (drop_bit 24 ?w) = a" "ucast (drop_bit 16 ?w) = b" "ucast (drop_bit 8 ?w) = c" "ucast ?w = d"
    by (rule bit_word_eqI; auto simp: bit_simps dest: bit_imp_le_length)+
  then show ?thesis
    by (simp add: put32_def)
qed

lemma put32_be32: "i + 4 \<le> length b \<Longrightarrow> put32 (be32 b i) = take 4 (drop i b)"
  unfolding be32_def put32_be32_bytes
  by (rule nth_equalityI) (auto simp: less_Suc_eq numeral_eq_Suc nth_Cons')

lemma bytes_of_words_of:
  assumes "4 * n \<le> length b"
  shows "bytes_of (words_of 0 n b) = take (4 * n) b"
  using assms
proof (induction n)
  case 0
  then show ?case by (simp add: words_of_def bytes_of_def)
next
  case (Suc n)
  have "words_of 0 (Suc n) b = words_of 0 n b @ [be32 b (4 * n)]"
    by (simp add: words_of_def)
  then have "bytes_of (words_of 0 (Suc n) b) = take (4 * n) b @ put32 (be32 b (4 * n))"
    using Suc by (simp add: bytes_of_def)
  also have "\<dots> = take (4 * n) b @ take 4 (drop (4 * n) b)"
    using Suc.prems by (simp add: put32_be32)
  also have "\<dots> = take (4 * n + 4) b"
    by (simp only: take_add)
  finally show ?case
    by (simp add: add.commute)
qed

end
