(* ===== verification/Loadelf.thy ===== *)
theory Loadelf
  imports Addrspace Byte_Order
begin

text \<open>
  Loading executables, syscall/loadelf.c: the decoding of the ELF header and the program
  headers as the big-endian MIPS structures of include/elf.h, the checks on them, the
  definition of the regions, and the loading of whole segments (at program start) or of
  single pages (from the fault handler).
\<close>

section \<open>Headers\<close>

record Elf_Ehdr =
  e_ident :: "u8 list"
  e_type :: u16
  e_machine :: u16
  e_version :: u32
  e_entry :: u32
  e_phoff :: u32
  e_phentsize :: u16
  e_phnum :: u16

record Elf_Phdr =
  p_type :: u32
  ph_offset :: u32
  p_vaddr :: u32
  p_filesz :: u32
  p_memsz :: u32
  p_flags :: u32

abbreviation EHDR_SIZE :: nat where "EHDR_SIZE \<equiv> 52"
abbreviation PHDR_SIZE :: nat where "PHDR_SIZE \<equiv> 32"
abbreviation PT_NULL :: u32 where "PT_NULL \<equiv> 0"
abbreviation PT_LOAD :: u32 where "PT_LOAD \<equiv> 1"
abbreviation PT_PHDR :: u32 where "PT_PHDR \<equiv> 6"
abbreviation PT_MIPS_REGINFO :: u32 where "PT_MIPS_REGINFO \<equiv> 0x70000000"
abbreviation PF_R :: u32 where "PF_R \<equiv> 4"
abbreviation PF_W :: u32 where "PF_W \<equiv> 2"
abbreviation PF_X :: u32 where "PF_X \<equiv> 1"

definition decode_ehdr :: "u8 list \<Rightarrow> Elf_Ehdr" where
  "decode_ehdr b = \<lparr>e_ident = take 16 b, e_type = be16 b 16, e_machine = be16 b 18, e_version = be32 b 20,
     e_entry = be32 b 24, e_phoff = be32 b 28, e_phentsize = be16 b 42, e_phnum = be16 b 44\<rparr>"

definition decode_phdr :: "u8 list \<Rightarrow> Elf_Phdr" where
  "decode_phdr b = \<lparr>p_type = be32 b 0, ph_offset = be32 b 4, p_vaddr = be32 b 8, p_filesz = be32 b 16,
     p_memsz = be32 b 20, p_flags = be32 b 24\<rparr>"

text \<open>The test for a 32-bit big-endian version-1 MIPS executable.\<close>

definition ehdr_bad :: "Elf_Ehdr \<Rightarrow> bool" where
  "ehdr_bad eh \<longleftrightarrow>
     e_ident eh ! 0 \<noteq> 0x7f \<or> e_ident eh ! 1 \<noteq> 0x45 \<or> e_ident eh ! 2 \<noteq> 0x4c \<or> e_ident eh ! 3 \<noteq> 0x46 \<or>
     e_ident eh ! 4 \<noteq> 1 \<or> e_ident eh ! 5 \<noteq> 2 \<or> e_ident eh ! 6 \<noteq> 1 \<or>
     e_version eh \<noteq> 1 \<or> e_type eh \<noteq> 2 \<or> e_machine eh \<noteq> 8"

text \<open>
  \<open>uio_kinit\<close> and \<open>VOP_READ\<close> of a structure: an error of the read is returned as it is, a
  short read is \<open>ENOEXEC\<close>.
\<close>

definition read_struct :: "'a vm_state_scheme vfs_env \<Rightarrow> u32 \<Rightarrow> nat \<Rightarrow> u8 list ret" where
  "read_struct env offset len =
     (case env_elf_read env offset len of (result, bytes) \<Rightarrow>
        if result \<noteq> 0 then Fail result
        else if length bytes < len then Fail ENOEXEC
        else Done (take len bytes))"

section \<open>Loading a segment\<close>

definition load_segment ::
    "'a vm_state_scheme vfs_env \<Rightarrow> u32 \<Rightarrow> u32 \<Rightarrow> u32 \<Rightarrow> u32 \<Rightarrow> bool \<Rightarrow>
     'a vm_state_scheme \<Rightarrow> (int \<times> 'a vm_state_scheme) res" where
  "load_segment env offset vaddr memsize filesize is_executable s =
     (let filesize = (if filesize > memsize then memsize else filesize) in
      rbind (deref (curproc_as s)) (\<lambda>as.
      let s = (if is_dataSegment vaddr as \<and> as_vbase_bss as = 0
               then s\<lparr>curproc_as := Some (as\<lparr>as_vbase_bss := as_vbase_data as + filesize div PAGE_SIZE + 1\<rparr>)\<rparr>
               else s)
      in rbind (env_user_read env offset vaddr memsize filesize is_executable s) (\<lambda>(result, resid, s).
         if result \<noteq> 0 then Inr (result, s)
         else
           rbind (removeTLBv1 vaddr s) (\<lambda>s.
           rbind (deref (curproc_as s)) (\<lambda>as.
           rbind (if is_codeSegment vaddr as then
                    rbind (pageSearch vaddr s) (\<lambda>r.
                    if r \<noteq> noEntryFound then
                      rbind (arr_get (main_PG s) (nat r)) (\<lambda>e.
                      Inr (s\<lparr>main_PG := (main_PG s)[nat r := e\<lparr>Dirty := False\<rparr>]\<rparr>))
                    else Inr s)
                  else Inr s) (\<lambda>s.
           rbind (addTLB vaddr (curproc_pid s) s) (\<lambda>s.
           if resid \<noteq> 0 then Inr (ENOEXEC, s) else Inr (0, s))))))))"

section \<open>Loading an executable\<close>

text \<open>
  The switch on the segment type: \<open>None\<close> skips the header, \<open>Some True\<close> is a segment to load,
  \<open>Some False\<close> an unknown type.
\<close>

definition ph_kind :: "Elf_Phdr \<Rightarrow> bool option" where
  "ph_kind ph =
     (if p_type ph = PT_NULL \<or> p_type ph = PT_PHDR \<or> p_type ph = PT_MIPS_REGINFO then None
      else Some (p_type ph = PT_LOAD))"

definition ph_location :: "Elf_Ehdr \<Rightarrow> nat \<Rightarrow> u32" where
  "ph_location eh i = e_phoff eh + of_nat i * ucast (e_phentsize eh)"

text \<open>First pass over the program headers; the state of the loop is the error to return, if any, and the machine.\<close>

definition define_step ::
    "nat \<Rightarrow> 'a vm_state_scheme vfs_env \<Rightarrow> Elf_Ehdr \<Rightarrow> u32 \<Rightarrow> nat \<Rightarrow> int \<times> 'a vm_state_scheme \<Rightarrow>
     (int \<times> 'a vm_state_scheme) res" where
  "define_step n env eh start i st =
     (case st of (err, s) \<Rightarrow>
        if err \<noteq> 0 then Inr st
        else
          case read_struct env (ph_location eh i) PHDR_SIZE of
            Fail e \<Rightarrow> Inr (e, s)
          | Done bytes \<Rightarrow>
              let ph = decode_phdr bytes in
              case ph_kind ph of
                None \<Rightarrow> Inr (0, s)
              | Some False \<Rightarrow> Inr (ENOEXEC, s)
              | Some True \<Rightarrow>
                  if start = 0 then
                    rbind (deref (curproc_as s)) (\<lambda>as.
                    rbind (as_define_region n as (p_vaddr ph) (p_memsz ph) (p_flags ph AND PF_R \<noteq> 0)
                             (p_flags ph AND PF_W \<noteq> 0) (p_flags ph AND PF_X \<noteq> 0) s) (\<lambda>((result, as), s).
                    Inr (result, s\<lparr>curproc_as := Some as\<rparr>)))
                  else Inr (0, s))"

text \<open>Second pass: the size actually loaded at program start, and the part of a segment loaded on a fault.\<close>

definition start_memsz :: "Elf_Phdr \<Rightarrow> addrspace \<Rightarrow> u32" where
  "start_memsz ph as =
     (if p_vaddr ph = as_vbase_code as then
        if unat (p_filesz ph div PAGE_SIZE) > MAX_CODE_SEGMENT_PAGES
        then ucast (as_npages_code_loaded as) * PAGE_SIZE else p_memsz ph
      else if p_vaddr ph = as_vbase_data as then
        if unat (p_filesz ph div PAGE_SIZE) > MAX_DATA_SEGMENT_PAGES
        then ucast (as_npages_data_loaded as) * PAGE_SIZE else p_memsz ph
      else p_memsz ph)"

definition load_step ::
    "'a vm_state_scheme vfs_env \<Rightarrow> Elf_Ehdr \<Rightarrow> u32 \<Rightarrow> u32 \<Rightarrow> nat \<Rightarrow> int \<times> 'a vm_state_scheme \<Rightarrow>
     (int \<times> 'a vm_state_scheme) res" where
  "load_step env eh start npages i st =
     (case st of (err, s) \<Rightarrow>
        if err \<noteq> 0 then Inr st
        else
          case read_struct env (ph_location eh i) PHDR_SIZE of
            Fail e \<Rightarrow> Inr (e, s)
          | Done bytes \<Rightarrow>
              let ph = decode_phdr bytes; exec = (p_flags ph AND PF_X \<noteq> 0) in
              case ph_kind ph of
                None \<Rightarrow> Inr (0, s)
              | Some False \<Rightarrow> Inr (ENOEXEC, s)
              | Some True \<Rightarrow>
                  rbind (deref (curproc_as s)) (\<lambda>as.
                  if start = 0 then
                    load_segment env (ph_offset ph) (p_vaddr ph) (start_memsz ph as) (p_filesz ph) exec s
                  else if is_codeSegment start as then
                    if is_codeSegment (p_vaddr ph) as then
                      load_segment env (ph_offset ph + (start - p_vaddr ph)) start
                        (npages * PAGE_SIZE) (npages * PAGE_SIZE) exec s
                    else Inr (0, s)
                  else if is_dataSegment start as then
                    if is_dataSegment (p_vaddr ph) as \<and> \<not> is_bssSegment start as then
                      load_segment env (ph_offset ph + (start - p_vaddr ph)) start
                        (npages * PAGE_SIZE) (npages * PAGE_SIZE) exec s
                    else Inr (0, s)
                  else Inr (0, s)))"

text \<open>\<open>load_elf\<close> returns the error code and, when it is 0, the entry point.\<close>

definition load_elf ::
    "nat \<Rightarrow> 'a vm_state_scheme vfs_env \<Rightarrow> u32 \<Rightarrow> u32 \<Rightarrow> 'a vm_state_scheme \<Rightarrow> (u32 ret \<times> 'a vm_state_scheme) res" where
  "load_elf n env start npages s =
     (case read_struct env 0 EHDR_SIZE of
        Fail e \<Rightarrow> Inr (Fail e, s)
      | Done bytes \<Rightarrow>
          let eh = decode_ehdr bytes in
          if ehdr_bad eh then Inr (Fail ENOEXEC, s)
          else
            rbind (rfold (define_step n env eh start) [0..<unat (e_phnum eh)] (0, s)) (\<lambda>(err, s).
            if err \<noteq> 0 then Inr (Fail err, s)
            else
              rbind (if start = 0 then
                       rbind (deref (curproc_as s)) (\<lambda>as.
                       rbind (as_prepare_load n as s) (\<lambda>((result, as), s). Inr (result, s\<lparr>curproc_as := Some as\<rparr>)))
                     else Inr (0, s)) (\<lambda>(err, s).
              if err \<noteq> 0 then Inr (Fail err, s)
              else
                rbind (rfold (load_step env eh start npages) [0..<unat (e_phnum eh)] (0, s)) (\<lambda>(err, s).
                if err \<noteq> 0 then Inr (Fail err, s)
                else if start = 0 then
                  rbind (deref (curproc_as s)) (\<lambda>as.
                  if as_complete_load as \<noteq> 0 then Inr (Fail (as_complete_load as), s)
                  else Inr (Done (e_entry eh), s))
                else Inr (Done (e_entry eh), s)))))"

end
