(* ===== verification/Vm.thy ===== *)
theory Vm
  imports Loadelf
begin

text \<open>
  The virtual memory system proper, vm/vm.c: its start, the fault handler and the exit of a
  process that it may force (\<open>sys__exit\<close> of main/main.c), and \<open>runprogram\<close> of
  syscall/runprogram.c, which sets an address space up. The fault handler is split at its
  switch and at its branches; each piece is the code of one branch. The time stamps are
  statistics and left out.
\<close>

section \<open>Start\<close>

definition empty_pte :: invertedPT where
  "empty_pte = \<lparr>Dirty = False, Valid = False, pt_pid = 0, page_number = 0, victim_counter = 0\<rparr>"

text \<open>\<open>PTLR\<close> is the size of an entry of the page table: 12 bytes.\<close>

abbreviation PTLR :: u32 where "PTLR \<equiv> 12"

text \<open>The body of the two loops that reserve frames for the kernel image and for the page table.\<close>

definition reserve_frame :: "u32 \<Rightarrow> 'a vm_state_scheme \<Rightarrow> 'a vm_state_scheme res" where
  "reserve_frame i s =
     rbind (arr_get (main_PG s) (unat i)) (\<lambda>e.
     Inr (s\<lparr>main_PG := (main_PG s)[unat i := e\<lparr>page_number := 0, pt_pid := 0, Valid := True\<rparr>]\<rparr>))"

definition tlb_fill_invalid :: "'a vm_state_scheme \<Rightarrow> 'a vm_state_scheme res" where
  "tlb_fill_invalid s =
     rbind (rfold (\<lambda>i. tlb_write (TLBHI_INVALID (of_nat i)) TLBLO_INVALID i) [0..<NUM_TLB] s)
       (\<lambda>s. Inr (s\<lparr>freeTLBEntries := of_nat NUM_TLB\<rparr>))"

text \<open>
  \<open>vm_bootstrap\<close>; the structure assertion on \<open>sizeof(struct frame_list_struct)\<close>, 8 bytes, is a
  constant of the build.
\<close>

definition vm_bootstrap :: "nat \<Rightarrow> 'a vm_state_scheme vfs_env \<Rightarrow> 'a vm_state_scheme \<Rightarrow> 'a vm_state_scheme res" where
  "vm_bootstrap n env s =
     (let RAM_Size = ram_getsize s; (RAM_FirstFree, s) = ram_getfirstfree s in
      kassert (8 < LARGEST_SUBPAGE_SIZE) (
      let s = s\<lparr>PAGETABLE_ENTRY := RAM_Size div PAGE_SIZE\<rparr>;
          PT_Size = PAGETABLE_ENTRY s * PTLR;
          location = RAM_Size - PT_Size;
          location = location AND PAGE_FRAME;
          s = s\<lparr>main_PG_addr := PADDR_TO_KVADDR location,
                main_PG := replicate (unat (PAGETABLE_ENTRY s)) empty_pte\<rparr>;
          reserved = (RAM_Size - location) div PAGE_SIZE
      in rbind (rfold (\<lambda>i. reserve_frame (of_nat i)) [0..<unat (RAM_FirstFree div PAGE_SIZE)] s) (\<lambda>s.
         rbind (rfold (\<lambda>i s. reserve_frame (PAGETABLE_ENTRY s - 1 - of_nat i) s) [0..<unat reserved] s) (\<lambda>s.
         rbind (tlb_fill_invalid s) (\<lambda>s.
         rbind (swapfile_init env s) (\<lambda>s.
         let s = s\<lparr>VM_Started := True\<rparr>
         in rfold (\<lambda>i s.
              rbind (addToFrameList n (of_nat i) addBOTTOM s) (\<lambda>(r, s).
              if r \<noteq> 0 then Inl (Panic ''Error in addToList()'') else Inr s))
              [unat (RAM_FirstFree div PAGE_SIZE)..<unat (PAGETABLE_ENTRY s - reserved)] s))))))"

section \<open>Exit of a process\<close>

text \<open>What a handler does in the end: it returns a code, or the thread is gone.\<close>

datatype 's outcome = Returned int 's | Exited 's

definition sys__exit :: "nat \<Rightarrow> int \<Rightarrow> 'a vm_state_scheme \<Rightarrow> 'a vm_state_scheme outcome res" where
  "sys__exit n status s =
     (let s = s\<lparr>exit_status := status\<rparr> in rbind (as_destroy n (curproc_as_ptr s) s) (\<lambda>s. Inr (Exited s)))"

section \<open>The fault handler\<close>

datatype fault_type = VM_FAULT_READ | VM_FAULT_WRITE | VM_FAULT_READONLY | VM_FAULT_OTHER

text \<open>\<open>victim_page*PAGE_SIZE + MIPS_KSEG0\<close>, stored in an unsigned word.\<close>

definition victim_paddress :: "int \<Rightarrow> u32" where
  "victim_paddress victim_page = of_int victim_page * PAGE_SIZE + MIPS_KSEG0"

definition count_fault :: "'a vm_state_scheme \<Rightarrow> 'a vm_state_scheme" where
  "count_fault s =
     (let s = s\<lparr>TLB_Faults := TLB_Faults s + 1\<rparr>
      in if freeTLBEntries s \<noteq> 0 then s\<lparr>TLB_Faults_wFree := TLB_Faults_wFree s + 1\<rparr>
         else s\<lparr>TLB_Faults_wReplace := TLB_Faults_wReplace s + 1\<rparr>)"

definition uncount_fault :: "'a vm_state_scheme \<Rightarrow> 'a vm_state_scheme" where
  "uncount_fault s =
     (let s = s\<lparr>TLB_Faults := TLB_Faults s - 1\<rparr>
      in if freeTLBEntries s \<noteq> 0 then s\<lparr>TLB_Faults_wFree := TLB_Faults_wFree s - 1\<rparr>
         else s\<lparr>TLB_Faults_wReplace := TLB_Faults_wReplace s - 1\<rparr>)"

text \<open>
  The end shared by the three branches that load a page for the first time: enter the frame
  in the page table, open the executable and load one page of it.
\<close>

definition load_first_time ::
    "nat \<Rightarrow> 'a vm_state_scheme vfs_env \<Rightarrow> u32 \<Rightarrow> u32 \<Rightarrow> 'a vm_state_scheme \<Rightarrow> 'a vm_state_scheme outcome res" where
  "load_first_time n env result faultaddress s =
     rbind (addPT ((result - MIPS_KSEG0) div PAGE_SIZE) (faultaddress AND PAGE_FRAME) (curproc_pid s) True s) (\<lambda>s.
     let r = env_open env (curproc_name s)
     in if r \<noteq> 0 then Inr (Returned r s)
        else rbind (load_elf n env faultaddress 1 s) (\<lambda>(r, s).
             case r of
               Fail e \<Rightarrow> Inr (Returned e s)
             | Done _ \<Rightarrow> Inr (Returned 0 (s\<lparr>PF_ELF := PF_ELF s + 1, PF_Disk := PF_Disk s + 1\<rparr>))))"

text \<open>The frame for a page: the next free one, or the one of a victim.\<close>

definition frame_for_code :: "nat \<Rightarrow> 'a vm_state_scheme \<Rightarrow> (u32 \<times> 'a vm_state_scheme) res" where
  "frame_for_code n s =
     rbind (alloc_kpages n 1 s) (\<lambda>(result, s).
     if result \<noteq> 0 then Inr (result, s)
     else
       rbind (victim_pageSearch False s) (\<lambda>victim_page.
       if victim_page = noEntryFound then Inl (Panic ''No victim found.'')
       else rbind (free_kpages n (victim_paddress victim_page) s) (\<lambda>s. alloc_kpages n 1 s)))"

definition frame_for_data_read ::
    "nat \<Rightarrow> 'a vm_state_scheme vfs_env \<Rightarrow> 'a vm_state_scheme \<Rightarrow> (u32 \<times> 'a vm_state_scheme) res" where
  "frame_for_data_read n env s =
     rbind (alloc_kpages n 1 s) (\<lambda>(result, s).
     if result \<noteq> 0 then Inr (result, s)
     else
       rbind (victim_pageSearch True s) (\<lambda>victim_page.
       rbind (swapOut n env (victim_paddress victim_page) s) (\<lambda>(r, s).
       let s = s\<lparr>SF_Writes := SF_Writes s + 1\<rparr> in alloc_kpages n 1 s)))"

definition frame_for_data_write ::
    "nat \<Rightarrow> 'a vm_state_scheme vfs_env \<Rightarrow> 'a vm_state_scheme \<Rightarrow> (u32 \<times> 'a vm_state_scheme) res" where
  "frame_for_data_write n env s =
     rbind (alloc_kpages n 1 s) (\<lambda>(result, s).
     if result \<noteq> 0 then Inr (result, s)
     else
       rbind (victim_pageSearch True s) (\<lambda>victim_page.
       if victim_page \<noteq> noEntryFound then
         rbind (swapOut n env (victim_paddress victim_page) s) (\<lambda>(r, s).
         let s = s\<lparr>SF_Writes := SF_Writes s + 1\<rparr> in alloc_kpages n 1 s)
       else Inl (Panic '' '')))"

text \<open>\<open>VM_FAULT_READ\<close>: a page of the data segment that is in the swap file.\<close>

definition read_swap_in ::
    "nat \<Rightarrow> 'a vm_state_scheme vfs_env \<Rightarrow> int \<Rightarrow> 'a vm_state_scheme \<Rightarrow> 'a vm_state_scheme outcome res" where
  "read_swap_in n env index s =
     rbind (victim_pageSearch True s) (\<lambda>victim_page.
     rbind (swapOut n env (victim_paddress victim_page) s) (\<lambda>(r, s).
     if r \<noteq> 0 then Inr (Returned 1 s)
     else
       let s = s\<lparr>SF_Writes := SF_Writes s + 1\<rparr>
       in rbind (swapIn n env index s) (\<lambda>(r, s).
          Inr (Returned 0 (s\<lparr>PF_Swapfile := PF_Swapfile s + 1, PF_Disk := PF_Disk s + 1\<rparr>)))))"

text \<open>\<open>VM_FAULT_WRITE\<close>: the same, where a failed \<open>swapOut\<close> is not reported.\<close>

definition write_swap_in ::
    "nat \<Rightarrow> 'a vm_state_scheme vfs_env \<Rightarrow> int \<Rightarrow> 'a vm_state_scheme \<Rightarrow> 'a vm_state_scheme outcome res" where
  "write_swap_in n env index s =
     rbind (victim_pageSearch True s) (\<lambda>victim_page.
     rbind (swapOut n env (victim_paddress victim_page) s) (\<lambda>(r, s).
     if r = 0 then
       let s = s\<lparr>SF_Writes := SF_Writes s + 1\<rparr>
       in rbind (swapIn n env index s) (\<lambda>(r, s).
          Inr (Returned 0 (s\<lparr>PF_Disk := PF_Disk s + 1, PF_Swapfile := PF_Swapfile s + 1\<rparr>)))
     else Inr (Returned 0 s)))"

definition fault_read ::
    "nat \<Rightarrow> 'a vm_state_scheme vfs_env \<Rightarrow> addrspace \<Rightarrow> u32 \<Rightarrow> 'a vm_state_scheme \<Rightarrow> 'a vm_state_scheme outcome res" where
  "fault_read n env as faultaddress s =
     (let p_num = faultaddress div PAGE_SIZE in
      rbind (pageSearch faultaddress s) (\<lambda>ret.
      if ret > 0 then
        rbind (addTLB (faultaddress AND PAGE_FRAME) (curproc_pid s) s) (\<lambda>s.
        Inr (Returned 0 (s\<lparr>TLB_Reloads := TLB_Reloads s + 1\<rparr>)))
      else if is_codeSegment faultaddress as then
        rbind (frame_for_code n s) (\<lambda>(result, s). load_first_time n env result (faultaddress AND PAGE_FRAME) s)
      else if is_dataSegment faultaddress as then
        rbind (swapfile_checkv1 p_num (curproc_pid s) s) (\<lambda>index.
        if index = noEntryFound then
          rbind (frame_for_data_read n env s) (\<lambda>(result, s).
          load_first_time n env result (faultaddress AND PAGE_FRAME) s)
        else read_swap_in n env index s)
      else Inr (Returned EINVAL s)))"

definition fault_write ::
    "nat \<Rightarrow> 'a vm_state_scheme vfs_env \<Rightarrow> addrspace \<Rightarrow> u32 \<Rightarrow> 'a vm_state_scheme \<Rightarrow> 'a vm_state_scheme outcome res" where
  "fault_write n env as faultaddress s =
     (let p_num = faultaddress div PAGE_SIZE in
      rbind (pageSearch faultaddress s) (\<lambda>ret.
      if ret < 0 then
        if is_codeSegment faultaddress as then Inl (Panic ''You cannot write, is a code segment.'')
        else if is_dataSegment faultaddress as then
          rbind (swapfile_checkv1 p_num (curproc_pid s) s) (\<lambda>index.
          if index = noEntryFound then
            rbind (frame_for_data_write n env s) (\<lambda>(result, s).
            load_first_time n env result (faultaddress AND PAGE_FRAME) s)
          else write_swap_in n env index s)
        else Inr (Returned 1 s)
      else
        rbind (addTLB faultaddress (curproc_pid s) s) (\<lambda>s.
        Inr (Returned 0 (s\<lparr>TLB_Reloads := TLB_Reloads s + 1\<rparr>)))))"

definition vm_fault ::
    "nat \<Rightarrow> 'a vm_state_scheme vfs_env \<Rightarrow> fault_type \<Rightarrow> u32 \<Rightarrow> 'a vm_state_scheme \<Rightarrow> 'a vm_state_scheme outcome res" where
  "vm_fault n env faulttype faultaddress s =
     (case curproc_as s of
        None \<Rightarrow> Inr (Returned EFAULT s)
      | Some as \<Rightarrow>
          let s = count_fault s in
          (case faulttype of
             VM_FAULT_READONLY \<Rightarrow> sys__exit n 0 (uncount_fault s)
           | VM_FAULT_READ \<Rightarrow> fault_read n env as faultaddress s
           | VM_FAULT_WRITE \<Rightarrow> fault_write n env as faultaddress s
           | VM_FAULT_OTHER \<Rightarrow> Inr (Returned EINVAL s)))"

definition vm_tlbshootdown :: "'a vm_state_scheme \<Rightarrow> 'a vm_state_scheme res" where
  "vm_tlbshootdown s = Inl (Panic ''Someone tried to shutdown the TLB'')"

text \<open>\<open>print_vm_stat\<close> of vm/vmstats.c: the verdicts of its three checks, in the order it prints them.\<close>

definition print_vm_stat :: "'a vm_state_scheme \<Rightarrow> bool list" where
  "print_vm_stat s =
     [TLB_Faults_wFree s + TLB_Faults_wReplace s = TLB_Faults s,
      TLB_Reloads s + PF_Disk s + PF_Zeroed s = TLB_Faults s,
      PF_ELF s + PF_Swapfile s = PF_Disk s]"

section \<open>Starting a program\<close>

text \<open>
  \<open>runprogram\<close> returns an error code, or leaves for user mode with a stack pointer and an entry
  point. \<open>garbage\<close> is the previous contents of the block of the new address space.
\<close>

definition runprogram ::
    "nat \<Rightarrow> 'a vm_state_scheme vfs_env \<Rightarrow> addrspace \<Rightarrow> string \<Rightarrow> 'a vm_state_scheme \<Rightarrow>
     ((u32 \<times> u32) ret \<times> 'a vm_state_scheme) res" where
  "runprogram n env garbage progname s =
     (let result = env_open env progname in
      if result \<noteq> 0 then Inr (Fail result, s)
      else
        kassert (curproc_as s = None) (
        rbind (as_create n garbage s) (\<lambda>((as_ptr, as), s).
        let s = s\<lparr>curproc_as := Some as, curproc_as_ptr := as_ptr\<rparr>
        in rbind (as_activate s) (\<lambda>s.
           rbind (load_elf n env 0 0 s) (\<lambda>(r, s).
           case r of
             Fail e \<Rightarrow> Inr (Fail e, s)
           | Done entrypoint \<Rightarrow>
               rbind (deref (curproc_as s)) (\<lambda>as.
               rbind (as_define_stack as) (\<lambda>(result, stackptr).
               if result \<noteq> 0 then Inr (Fail result, s)
               else Inr (Done (stackptr, entrypoint), s))))))))"

end
