(* ===== verification/Kernel_Frame.thy ===== *)
theory Kernel_Frame
  imports Kpages
begin

text \<open>
  What the memory allocators leave alone. \<open>still\<close> collects the parts of the state that no
  operation on the page table, the TLB, the kernel heap or the frames changes: the current
  process, the size and place of the page table, and every field that a larger state
  adds. The lemmas follow the call graph up from the TLB to \<open>alloc_kpages\<close> and
  \<open>free_kpages\<close>, whose mutual recursion is handled by one induction on the fuel.
\<close>

definition still ::
    "'a kheap_state_scheme \<Rightarrow> u32 \<times> addrspace option \<times> u32 \<times> bool \<times> u32 \<times> 'a" where
  "still s = (curproc_pid s, curproc_as s, PAGETABLE_ENTRY s, VM_Started s, main_PG_addr s, kheap_state.more s)"

lemma still_update [simp]:
  "still (s\<lparr>main_PG := x1\<rparr>) = still s" "still (s\<lparr>pt_counter := x2\<rparr>) = still s" "still (s\<lparr>tlb := x3\<rparr>) = still s"
  "still (s\<lparr>freeTLBEntries := x4\<rparr>) = still s" "still (s\<lparr>next_victim := x4\<rparr>) = still s"
  "still (s\<lparr>TLB_victim := x4\<rparr>) = still s" "still (s\<lparr>TLB_Invalidations := x4\<rparr>) = still s"
  "still (s\<lparr>firstpaddr := x4\<rparr>) = still s" "still (s\<lparr>lastpaddr := x4\<rparr>) = still s"
  "still (s\<lparr>mem := x5\<rparr>) = still s" "still (s\<lparr>prefs := x6\<rparr>) = still s" "still (s\<lparr>kheaproots := x7\<rparr>) = still s"
  "still (s\<lparr>sizebases := x8\<rparr>) = still s" "still (s\<lparr>allbase := x4\<rparr>) = still s" "still (s\<lparr>frame_list := x4\<rparr>) = still s"
  by (simp_all add: still_def)

text \<open>Code that returned: the steps of a sequence, one after the other.\<close>

lemma rbindE:
  assumes "rbind m f = Inr y"
  obtains x where "m = Inr x" "f x = Inr y"
  using assms by (auto simp: rbind_eq_Inr)

lemma kassertE:
  assumes "kassert b k = Inr y"
  obtains "b" "k = Inr y"
  using assms by (simp add: kassert_eq_Inr)

section \<open>Page table and TLB\<close>

lemma tlb_write_still: "tlb_write h l i s = Inr s' \<Longrightarrow> still s' = still s"
  by (auto simp: tlb_write_def arr_set_def elim!: rbindE kassertE split: if_splits)

lemma addPT_still: "addPT f v p d s = Inr s' \<Longrightarrow> still s' = still s"
  by (auto simp: addPT_def Let_def elim!: rbindE kassertE split: if_splits)

lemma addTLB_still: "addTLB v p s = Inr s' \<Longrightarrow> still s' = still s"
  by (auto simp: addTLB_def addTLB_write_def tlb_get_rr_victim_def Let_def
        elim!: rbindE kassertE split: option.splits if_splits dest!: tlb_write_still)

lemma removeTLBv1_still: "removeTLBv1 v s = Inr s' \<Longrightarrow> still s' = still s"
  by (auto simp: removeTLBv1_def Let_def elim!: rbindE kassertE split: if_splits dest!: tlb_write_still)

lemma rfold_still:
  assumes "\<And>i s s'. f i s = Inr s' \<Longrightarrow> still s' = still s" "rfold f xs s = Inr s'"
  shows "still s' = still s"
  using assms(2) by (induction xs arbitrary: s) (auto elim!: rbindE dest: assms(1))

lemma invalidate_TLB_still: "invalidate_TLB s = Inr s' \<Longrightarrow> still s' = still s"
  by (auto simp: invalidate_TLB_def Let_def elim!: rbindE dest!: rfold_still [rotated] tlb_write_still)

section \<open>The kernel heap over any page allocator\<close>

text \<open>What the heap needs of the page allocator it is handed.\<close>

locale still_pages =
  fixes al :: "u32 \<Rightarrow> 'a kheap_state_scheme \<Rightarrow> (u32 \<times> 'a kheap_state_scheme) res"
    and fr :: "u32 \<Rightarrow> 'a kheap_state_scheme \<Rightarrow> 'a kheap_state_scheme res"
  assumes al_still: "al n s = Inr (a, s') \<Longrightarrow> still s' = still s"
    and fr_still: "fr a s = Inr s' \<Longrightarrow> still s' = still s"
begin

lemma allocpagerefpage_still: "allocpagerefpage al fr r s = Inr s' \<Longrightarrow> still s' = still s"
  by (auto simp: allocpagerefpage_def elim!: rbindE kassertE split: if_splits dest!: al_still fr_still)

lemma allocpageref_still: "allocpageref al fr s = Inr (p, s') \<Longrightarrow> still s' = still s"
  by (auto simp: allocpageref_def Let_def elim!: rbindE kassertE split: if_splits option.splits dest!: allocpagerefpage_still)

lemma freepageref_still: "freepageref p s = Inr s' \<Longrightarrow> still s' = still s"
  by (auto simp: freepageref_def Let_def elim!: rbindE kassertE split: if_splits option.splits)

lemma remove_loop_still:
  assumes "\<And>g p s. still (wr g p s) = still s" "remove_loop n rd wr pr guy s = Inr s'"
  shows "still s' = still s"
  using assms(2) by (induction n arbitrary: guy) (auto simp: assms(1) elim!: rbindE kassertE split: if_splits)

lemma remove_lists_still: "remove_lists pr b s = Inr s' \<Longrightarrow> still s' = still s"
  by (auto simp: remove_lists_def samesize_wr_def all_wr_def elim!: rbindE kassertE split: option.splits dest!: remove_loop_still [rotated])

lemma subpage_doalloc_still: "subpage_doalloc pr s = Inr (a, s') \<Longrightarrow> still s' = still s"
  by (auto simp: subpage_doalloc_def Let_def elim!: rbindE kassertE split: if_splits)

lemma subpage_newpage_still: "subpage_newpage al fr b s = Inr (a, s') \<Longrightarrow> still s' = still s"
  by (auto simp: subpage_newpage_def Let_def elim!: rbindE kassertE split: if_splits
        dest!: al_still fr_still allocpageref_still subpage_doalloc_still)

lemma kmalloc_with_still: "kmalloc_with al fr z s = Inr (a, s') \<Longrightarrow> still s' = still s"
  by (auto simp: kmalloc_with_def subpage_kmalloc_def Let_def elim!: rbindE kassertE split: if_splits
        dest!: al_still subpage_doalloc_still subpage_newpage_still)

lemma subpage_kfree_still: "subpage_kfree fr p s = Inr (r, s') \<Longrightarrow> still s' = still s"
  by (auto simp: subpage_kfree_def Let_def elim!: rbindE kassertE split: if_splits
        dest!: remove_lists_still freepageref_still fr_still)

lemma kfree_with_still: "kfree_with fr p s = Inr s' \<Longrightarrow> still s' = still s"
  by (auto simp: kfree_with_def elim!: rbindE kassertE split: if_splits dest!: subpage_kfree_still fr_still)

lemma addToFrameList_with_still: "addToFrameList_with (kmalloc_with al fr) f p s = Inr (r, s') \<Longrightarrow> still s' = still s"
  by (auto simp: addToFrameList_with_def addToFrameList_top_def new_frame_node_def set_next_frame_def Let_def
        elim!: rbindE kassertE split: if_splits dest!: kmalloc_with_still)

lemma free_kpages_with_still:
  "free_kpages_with (addToFrameList_with (kmalloc_with al fr)) p s = Inr s' \<Longrightarrow> still s' = still s"
  by (auto simp: free_kpages_with_def Let_def elim!: rbindE kassertE split: if_splits
        dest!: removeTLBv1_still addToFrameList_with_still)

lemma alloc_kpages_step_still: "alloc_kpages_step (kfree_with fr) (x, s) = Inr (y, s') \<Longrightarrow> still s' = still s"
  by (auto simp: alloc_kpages_step_def Let_def elim!: rbindE kassertE split: if_splits dest!: kfree_with_still)

lemma alloc_kpages_with_still:
  assumes "alloc_kpages_with (kfree_with fr) k s = Inr (a, s')"
  shows "still s' = still s"
proof -
  have loop: "still t' = still t"
    if "rfold (\<lambda>_. alloc_kpages_step (kfree_with fr)) xs (x, t) = Inr (y, t')" for xs :: "nat list" and x t y t'
    using that by (induction xs arbitrary: x t) (auto elim!: rbindE dest!: alloc_kpages_step_still)
  show ?thesis
    using assms by (auto simp: alloc_kpages_with_def ram_stealmem_def Let_def elim!: rbindE kassertE split: if_splits dest!: loop)
qed

end

section \<open>Closing the recursion\<close>

lemma pages_still:
  "(\<forall>k (s :: 'a kheap_state_scheme) a s'. alloc_kpages n k s = Inr (a, s') \<longrightarrow> still s' = still s) \<and>
   (\<forall>p (s :: 'a kheap_state_scheme) s'. free_kpages n p s = Inr s' \<longrightarrow> still s' = still s)"
proof (induction n)
  case (Suc n)
  then have l: "still_pages (alloc_kpages n) (free_kpages n :: u32 \<Rightarrow> 'a kheap_state_scheme \<Rightarrow> _)"
    by unfold_locales blast+
  show ?case
    using still_pages.alloc_kpages_with_still [OF l] still_pages.free_kpages_with_still [OF l] by simp
qed simp

interpretation kp: still_pages "alloc_kpages n" "free_kpages n" for n
  by unfold_locales (use pages_still in blast)+

lemma kmalloc_still: "kmalloc n z s = Inr (a, s') \<Longrightarrow> still s' = still s"
  unfolding kmalloc_def by (rule kp.kmalloc_with_still)

lemma kfree_still: "kfree n p s = Inr s' \<Longrightarrow> still s' = still s"
  unfolding kfree_def by (rule kp.kfree_with_still)

lemma addToFrameList_still: "addToFrameList n f p s = Inr (r, s') \<Longrightarrow> still s' = still s"
  unfolding addToFrameList_def kmalloc_def by (rule kp.addToFrameList_with_still)

end
