(* ===== verification/Kheap_Correct.thy ===== *)
theory Kheap_Correct
  imports Kheap
begin

text \<open>
  Correctness of the subpage allocator: \<open>heap_ok\<close> describes a well-formed heap together
  with the free list of every page, and the lemmas give the effect of taking a block from
  a page and of giving it back on that description.
\<close>

section \<open>Block sizes\<close>

definition bsize :: "nat \<Rightarrow> nat" where
  "bsize b = 16 * 2 ^ b"

definition bcount :: "nat \<Rightarrow> nat" where
  "bcount b = 2 ^ (8 - b)"

lemma less_8_cases: "b < (8 :: nat) \<Longrightarrow> b = 0 \<or> b = 1 \<or> b = 2 \<or> b = 3 \<or> b = 4 \<or> b = 5 \<or> b = 6 \<or> b = 7"
  by auto

lemma bsize_bcount: "b < 8 \<Longrightarrow> bcount b * bsize b = 4096"
  by (drule less_8_cases) (auto simp: bsize_def bcount_def)

lemma bsize_pos: "16 \<le> bsize b"
  by (simp add: bsize_def)

lemma bsize_le: "b < 8 \<Longrightarrow> bsize b \<le> 2048"
  by (drule less_8_cases) (auto simp: bsize_def)

lemma bsize_dvd: "16 dvd bsize b"
  by (simp add: bsize_def)

lemma sizes_nth: "b < 8 \<Longrightarrow> sizes ! b = of_nat (bsize b)"
  by (drule less_8_cases) (auto simp: bsize_def sizes_def)

lemma sizes_length [simp]: "length sizes = 8"
  by (simp add: sizes_def)

lemma page_div_sizes: "b < 8 \<Longrightarrow> PAGE_SIZE div sizes ! b = of_nat (bcount b)"
  by (drule less_8_cases) (auto simp: bcount_def sizes_def)

lemma bcount_le: "b < 8 \<Longrightarrow> 2 \<le> bcount b \<and> bcount b \<le> 256"
  by (drule less_8_cases) (auto simp: bcount_def)

lemma block_offset_less:
  assumes "b < 8" "i < bcount b"
  shows "i * bsize b + bsize b \<le> 4096"
proof -
  have "Suc i * bsize b \<le> bcount b * bsize b"
    using assms(2) by (intro mult_le_mono) simp_all
  then show ?thesis
    using bsize_bcount [OF assms(1)] by simp
qed

section \<open>Pages and blocks\<close>

definition blk :: "'a kheap_state_scheme \<Rightarrow> u32 \<Rightarrow> nat" where
  "blk s p = unat (PR_BLOCKTYPE (prefs s p))"

definition pr_page :: "'a kheap_state_scheme \<Rightarrow> u32 \<Rightarrow> u32" where
  "pr_page s p = PR_PAGEADDR (prefs s p)"

text \<open>A heap page is a page of kseg0 that is backed by RAM.\<close>

definition kpage :: "u32 \<Rightarrow> bool" where
  "kpage a \<longleftrightarrow> a AND PAGE_FRAME = a \<and> MIPS_KSEG0 \<le> a \<and> a < 0xa0000000"

definition block :: "'a kheap_state_scheme \<Rightarrow> u32 \<Rightarrow> nat \<Rightarrow> u32" where
  "block s p i = pr_page s p + of_nat (i * bsize (blk s p))"

definition blocks :: "'a kheap_state_scheme \<Rightarrow> u32 \<Rightarrow> u32 set" where
  "blocks s p = block s p ` {..<bcount (blk s p)}"

lemma kpage_dvd: "kpage a \<Longrightarrow> 4096 dvd unat a"
  by (simp add: kpage_def page_aligned_dvd)

lemma kpage_bounds: "kpage a \<Longrightarrow> 0x80000000 \<le> unat a \<and> unat a < 0xa0000000"
  by (simp add: kpage_def word_le_nat_alt word_less_nat_alt)

text \<open>An address inside a heap page.\<close>

lemma in_page:
  assumes "kpage a" "n < 4096"
  shows "unat (a + of_nat n) = unat a + n" "(a + of_nat n) AND PAGE_FRAME = a"
    "a + of_nat n - a = (of_nat n :: u32)"
proof -
  show u: "unat (a + of_nat n) = unat a + n"
    using kpage_bounds [OF assms(1)] assms(2) by (simp add: unat_word_ariths(1))
  have "unat ((a + of_nat n) div PAGE_SIZE) = unat (a div PAGE_SIZE)"
    using kpage_dvd [OF assms(1)] assms(2) by (auto simp: unat_div_page u elim!: dvdE)
  then have "(a + of_nat n) AND PAGE_FRAME = a AND PAGE_FRAME"
    unfolding page_frame_eq_iff by (simp add: word_unat_eq_iff)
  then show "(a + of_nat n) AND PAGE_FRAME = a"
    using assms(1) by (simp add: kpage_def)
qed simp

lemma block_in_page:
  assumes "kpage (pr_page s p)" "blk s p < 8" "i < bcount (blk s p)" "n < bsize (blk s p)"
  shows "unat (block s p i + of_nat n) = unat (pr_page s p) + i * bsize (blk s p) + n"
    "(block s p i + of_nat n) AND PAGE_FRAME = pr_page s p"
proof -
  have "i * bsize (blk s p) + n < 4096"
    using block_offset_less [OF assms(2,3)] assms(4) by simp
  moreover have "block s p i + of_nat n = pr_page s p + of_nat (i * bsize (blk s p) + n)"
    by (simp add: block_def)
  ultimately show "unat (block s p i + of_nat n) = unat (pr_page s p) + i * bsize (blk s p) + n"
    "(block s p i + of_nat n) AND PAGE_FRAME = pr_page s p"
    using in_page [OF assms(1), of "i * bsize (blk s p) + n"] by (simp_all only: add.assoc)
qed

text \<open>Two words at multiples of the size inside blocks coincide only in the same block.\<close>

lemma block_span_inj:
  assumes "kpage (pr_page s p)" "blk s p < 8" "i < bcount (blk s p)" "n < bsize (blk s p)"
    "j < bcount (blk s p)" "m < bsize (blk s p)" "block s p i + of_nat n = block s p j + of_nat m"
  shows "i = j \<and> n = m"
proof -
  have "i * bsize (blk s p) + n = j * bsize (blk s p) + m"
    using arg_cong [OF assms(7), of unat] block_in_page(1) [OF assms(1-4)] block_in_page(1) [OF assms(1,2,5,6)]
    by simp
  then have "(i * bsize (blk s p) + n) div bsize (blk s p) = (j * bsize (blk s p) + m) div bsize (blk s p)"
    by simp
  then have "i = j"
    using assms(4,6) bsize_pos [of "blk s p"] by simp
  then show ?thesis
    using \<open>i * bsize (blk s p) + n = j * bsize (blk s p) + m\<close> by simp
qed

lemma block_in_page0:
  assumes "kpage (pr_page s p)" "blk s p < 8" "a \<in> blocks s p"
  shows "a AND PAGE_FRAME = pr_page s p" "unat (a - pr_page s p) < 4096" "16 dvd unat a"
    "0x80000000 \<le> unat a" "a \<noteq> 0"
proof -
  obtain i where i: "i < bcount (blk s p)" "a = block s p i"
    using assms(3) by (auto simp: blocks_def)
  have b: "0 < bsize (blk s p)"
    using bsize_pos [of "blk s p"] by simp
  note u = block_in_page [OF assms(1,2) i(1) b, simplified, folded i(2)]
  show "a AND PAGE_FRAME = pr_page s p"
    by (rule u(2))
  have off: "i * bsize (blk s p) < 4096"
    using block_offset_less [OF assms(2) i(1)] b by simp
  then show "unat (a - pr_page s p) < 4096"
    by (simp add: i(2) block_def del: of_nat_mult)
  have "16 dvd unat (pr_page s p)"
    using kpage_dvd [OF assms(1)] by (rule dvd_trans [rotated]) simp
  then show "16 dvd unat a"
    using u(1) bsize_dvd [of "blk s p"] by simp
  show "0x80000000 \<le> unat a"
    using u(1) kpage_bounds [OF assms(1)] by simp
  then show "a \<noteq> 0"
    by auto
qed

section \<open>Well-formed pages\<close>

definition free_head :: "pageref \<Rightarrow> u32" where
  "free_head p = (if freelist_offset p = INVALID_OFFSET then NULL else PR_PAGEADDR p + ucast (freelist_offset p))"

text \<open>The page of pageref \<open>p\<close> is a heap page whose free list visits the blocks \<open>fs\<close>.\<close>

definition page_ok :: "'a kheap_state_scheme \<Rightarrow> u32 \<Rightarrow> u32 list \<Rightarrow> bool" where
  "page_ok s p fs \<longleftrightarrow> kpage (pr_page s p) \<and> blk s p < NSIZES \<and>
     path (mem s) (free_head (prefs s p)) fs \<and> length fs = unat (nfree (prefs s p)) \<and> set fs \<subseteq> blocks s p"

text \<open>Fields that do not move the page leave its address, its size class and its blocks alone.\<close>

lemma pageref_upd_simps [simp]:
  "PR_PAGEADDR (p\<lparr>nfree := n\<rparr>) = PR_PAGEADDR p" "PR_PAGEADDR (p\<lparr>freelist_offset := f\<rparr>) = PR_PAGEADDR p"
  "PR_PAGEADDR (p\<lparr>next_all := q\<rparr>) = PR_PAGEADDR p" "PR_PAGEADDR (p\<lparr>next_samesize := q\<rparr>) = PR_PAGEADDR p"
  "PR_BLOCKTYPE (p\<lparr>nfree := n\<rparr>) = PR_BLOCKTYPE p" "PR_BLOCKTYPE (p\<lparr>freelist_offset := f\<rparr>) = PR_BLOCKTYPE p"
  "PR_BLOCKTYPE (p\<lparr>next_all := q\<rparr>) = PR_BLOCKTYPE p" "PR_BLOCKTYPE (p\<lparr>next_samesize := q\<rparr>) = PR_BLOCKTYPE p"
  by (simp_all add: PR_PAGEADDR_def PR_BLOCKTYPE_def)

lemma blocks_cong:
  "PR_PAGEADDR (prefs s' p) = PR_PAGEADDR (prefs s p) \<Longrightarrow> PR_BLOCKTYPE (prefs s' p) = PR_BLOCKTYPE (prefs s p) \<Longrightarrow>
   blocks s' p = blocks s p"
  by (simp add: blocks_def block_def blk_def pr_page_def cong: image_cong)

lemma free_head_offset:
  assumes "page_ok s p (f # fs)"
  shows "freelist_offset (prefs s p) < 4096" "f = pr_page s p + ucast (freelist_offset (prefs s p))"
    "ucast (f - pr_page s p) = freelist_offset (prefs s p)"
proof -
  let ?o = "freelist_offset (prefs s p)"
  have f: "f \<in> blocks s p" "f = free_head (prefs s p)" "f \<noteq> 0" and pg: "kpage (pr_page s p)" "blk s p < 8"
    using assms by (simp_all add: page_ok_def)
  then show o: "f = pr_page s p + ucast ?o"
    by (simp add: free_head_def pr_page_def split: if_split_asm)
  have "unat (ucast ?o :: u32) < 4096"
    using block_in_page0(2) [OF pg f(1)] by (simp add: o)
  then show "?o < 4096"
    by (simp add: word_less_nat_alt unat_ucast_up)
  show "ucast (f - pr_page s p) = ?o"
    by (simp add: o)
qed

text \<open>The effect of \<open>doalloc\<close> on the pageref.\<close>

definition take_block :: "'a kheap_state_scheme \<Rightarrow> u32 \<Rightarrow> u32 list \<Rightarrow> 'a kheap_state_scheme" where
  "take_block s p fs = s\<lparr>prefs := (prefs s)(p := (prefs s p)
     \<lparr>nfree := nfree (prefs s p) - 1,
      freelist_offset := (if fs = [] then INVALID_OFFSET else ucast (hd fs - pr_page s p))\<rparr>)\<rparr>"

lemma unat_u16_dec: "(n :: u16) \<noteq> 0 \<Longrightarrow> unat (n - 1) = unat n - 1"
  by (simp add: unat_minus_one)

lemma subpage_doalloc_eq:
  assumes ok: "page_ok s p (f # fs)"
  shows "subpage_doalloc p s = Inr (f, take_block s p fs)"
proof -
  note fo = free_head_offset [OF ok]
  have f: "f \<noteq> 0" "path (mem s) (mem s f) fs" and n: "unat (nfree (prefs s p)) = Suc (length fs)"
    and sub: "set fs \<subseteq> blocks s p" and pg: "kpage (pr_page s p)" "blk s p < 8"
    using ok by (auto simp: page_ok_def)
  have n1: "unat (nfree (prefs s p) - 1) = length fs"
    using n by (subst unat_u16_dec) auto
  show ?thesis
  proof (cases fs)
    case Nil
    then have "mem s f = 0" "nfree (prefs s p) - 1 = 0"
      using f n1 by (simp_all add: unat_eq_0)
    then show ?thesis
      using fo Nil by (simp add: subpage_doalloc_def take_block_def Let_def flip: pr_page_def)
  next
    case (Cons g gs)
    then have g: "mem s f = g" "g \<noteq> 0" "g \<in> blocks s p"
      using f sub by auto
    have "unat (g - pr_page s p) < 4096"
      by (rule block_in_page0(2) [OF pg g(3)])
    then have "g - pr_page s p < PAGE_SIZE"
      by (simp add: word_less_nat_alt)
    moreover have "nfree (prefs s p) - 1 > 0"
      using n1 Cons by (simp add: word_less_nat_alt)
    ultimately show ?thesis
      using fo Cons g by (simp add: subpage_doalloc_def take_block_def Let_def flip: pr_page_def)
  qed
qed

lemma take_block_ok:
  assumes ok: "page_ok s p (f # fs)"
  shows "page_ok (take_block s p fs) p fs"
proof -
  let ?s = "take_block s p fs"
  have p: "prefs ?s p = (prefs s p)\<lparr>nfree := nfree (prefs s p) - 1,
      freelist_offset := (if fs = [] then INVALID_OFFSET else ucast (hd fs - pr_page s p))\<rparr>" and m: "mem ?s = mem s"
    by (simp_all add: take_block_def)
  have same: "pr_page ?s p = pr_page s p" "blk ?s p = blk s p" "blocks ?s p = blocks s p"
    using p by (simp_all add: pr_page_def blk_def cong: blocks_cong)
  have f: "path (mem s) (mem s f) fs" and n: "unat (nfree (prefs s p)) = Suc (length fs)"
    and sub: "set fs \<subseteq> blocks s p" and pg: "kpage (pr_page s p)" "blk s p < 8"
    using ok by (auto simp: page_ok_def)
  have "unat (nfree (prefs ?s p)) = length fs"
    using n by (simp add: p, subst unat_u16_dec) auto
  moreover have "free_head (prefs ?s p) = mem s f"
  proof (cases fs)
    case (Cons g gs)
    then have g: "mem s f = g" "g \<in> blocks s p"
      using f sub by auto
    have o: "unat (g - pr_page s p) < 4096"
      by (rule block_in_page0(2) [OF pg g(2)])
    have u: "unat (ucast (g - pr_page s p) :: u16) = unat (g - pr_page s p)"
      using o by (simp add: unsigned_ucast_eq take_bit_nat_eq_self)
    have c: "(ucast (ucast (g - pr_page s p) :: u16) :: u32) = g - pr_page s p"
      using u by (simp add: word_unat_eq_iff unat_ucast_up)
    have "ucast (g - pr_page s p) \<noteq> INVALID_OFFSET"
      using u o by (auto simp: word_unat_eq_iff)
    then show ?thesis
      unfolding free_head_def p using Cons g(1) c by (simp add: pr_page_def)
  qed (use f in \<open>unfold p free_head_def, simp\<close>)
  ultimately show ?thesis
    using f sub pg same by (simp add: page_ok_def m)
qed

section \<open>Well-formed heaps\<close>

text \<open>
  \<open>prs\<close> are the pagerefs on the list of all pages, in order; the list of each size class
  visits those of the class in the same order; \<open>free\<close> gives the free list of each page; no
  two pagerefs describe the same page.
\<close>

definition heap_ok :: "'a kheap_state_scheme \<Rightarrow> u32 list \<Rightarrow> (u32 \<Rightarrow> u32 list) \<Rightarrow> bool" where
  "heap_ok s prs free \<longleftrightarrow>
     path (\<lambda>p. next_all (prefs s p)) (allbase s) prs \<and> length prs \<le> TOTAL_PAGEREFS \<and>
     length (sizebases s) = NSIZES \<and>
     (\<forall>b<NSIZES. path (\<lambda>p. next_samesize (prefs s p)) (sizebases s ! b) (filter (\<lambda>p. blk s p = b) prs)) \<and>
     (\<forall>p\<in>set prs. page_ok s p (free p)) \<and> inj_on (pr_page s) (set prs)"

lemma heap_ok_page: "heap_ok s prs free \<Longrightarrow> p \<in> set prs \<Longrightarrow> page_ok s p (free p)"
  by (simp add: heap_ok_def)

lemma heap_ok_kpage:
  assumes "heap_ok s prs free" "p \<in> set prs"
  shows "kpage (pr_page s p)" "blk s p < NSIZES"
  using heap_ok_page [OF assms] by (simp_all add: page_ok_def)

text \<open>An update of one page's pageref and of memory no other free list uses.\<close>

lemma heap_ok_update:
  assumes ok: "heap_ok s prs free" and p: "p \<in> set prs"
    and upd: "prefs s' = (prefs s)(p := P)" "next_all P = next_all (prefs s p)"
      "next_samesize P = next_samesize (prefs s p)" "pageaddr_and_blocktype P = pageaddr_and_blocktype (prefs s p)"
    and same: "allbase s' = allbase s" "sizebases s' = sizebases s"
    and other: "\<And>q a. q \<in> set prs \<Longrightarrow> q \<noteq> p \<Longrightarrow> a \<in> set (free q) \<Longrightarrow> mem s' a = mem s a"
    and page: "page_ok s' p fs"
  shows "heap_ok s' prs (free(p := fs))"
proof -
  have nx: "next_all (prefs s' q) = next_all (prefs s q)" "next_samesize (prefs s' q) = next_samesize (prefs s q)"
    "PR_PAGEADDR (prefs s' q) = PR_PAGEADDR (prefs s q)" "PR_BLOCKTYPE (prefs s' q) = PR_BLOCKTYPE (prefs s q)" for q
    using upd by (simp_all add: PR_PAGEADDR_def PR_BLOCKTYPE_def)
  then have pb: "pr_page s' = pr_page s" "blk s' = blk s"
    by (simp_all add: pr_page_def blk_def fun_eq_iff)
  have "page_ok s' q (free q)" if q: "q \<in> set prs" "q \<noteq> p" for q
  proof -
    have "path (mem s') h (free q) = path (mem s) h (free q)" for h
      using other [OF q] by (rule path_cong)
    moreover have "prefs s' q = prefs s q"
      using upd q by simp
    ultimately show ?thesis
      using heap_ok_page [OF ok q(1)] blocks_cong [OF nx(3,4), of q] pb by (simp add: page_ok_def)
  qed
  then show ?thesis
    using ok page by (simp add: heap_ok_def nx pb same)
qed

lemma take_block_heap_ok:
  assumes ok: "heap_ok s prs free" and p: "p \<in> set prs" "free p = f # fs"
  shows "heap_ok (take_block s p fs) prs (free(p := fs))"
  using take_block_ok [of s p f fs] heap_ok_page [OF ok p(1)] p(2)
  by (intro heap_ok_update [OF ok p(1), where P = "prefs (take_block s p fs) p"]) (simp_all add: take_block_def)

lemma blocktype_spec:
  assumes "sz \<le> 2048"
  shows "\<exists>b<NSIZES. blocktype sz = Inr b \<and> unat sz \<le> bsize b \<and> (\<forall>j<b. bsize j < unat sz)"
proof -
  have eq: "rfind (\<lambda>i. rbind (arr_get sizes i) (\<lambda>z. Inr (sz \<le> z))) [0..<NSIZES] =
      Inr (find (\<lambda>i. unat sz \<le> bsize i) [0..<NSIZES])"
    using bsize_le by (intro rfind_find) (fastforce simp: sizes_nth word_le_nat_alt)
  have "unat sz \<le> bsize 7"
    using assms by (simp add: word_le_nat_alt bsize_def)
  then have "find (\<lambda>i. unat sz \<le> bsize i) [0..<NSIZES] \<noteq> None"
    unfolding find_upt_None_iff by (intro notI) (drule spec [of _ 7], simp)
  then obtain b where b: "find (\<lambda>i. unat sz \<le> bsize i) [0..<NSIZES] = Some b"
    by blast
  then have "blocktype sz = Inr b"
    by (simp add: blocktype_def eq)
  then show ?thesis
    using b unfolding find_upt_Some_iff by (intro exI [of _ b]) (auto simp: not_le)
qed

lemma free_nonempty_iff: "page_ok s p fs \<Longrightarrow> nfree (prefs s p) > 0 \<longleftrightarrow> fs \<noteq> []"
  by (simp add: page_ok_def word_less_nat_alt flip: length_greater_0_conv)

text \<open>The search of \<open>subpage_kmalloc\<close> finds the first page of the class with a free block.\<close>

lemma subpage_kmalloc_eq:
  assumes ok: "heap_ok s prs free" and b: "blocktype sz = Inr b" "b < NSIZES"
  shows "subpage_kmalloc al fr sz s =
    (case find (\<lambda>p. blk s p = b \<and> free p \<noteq> []) prs of
       None \<Rightarrow> subpage_newpage al fr b s
     | Some p \<Rightarrow> Inr (hd (free p), take_block s p (tl (free p))))"
proof -
  let ?l = "filter (\<lambda>p. blk s p = b) prs"
  have p: "path (\<lambda>p. next_samesize (prefs s p)) (sizebases s ! b) ?l" and len: "length (sizebases s) = 8"
    using ok b(2) by (simp_all add: heap_ok_def)
  have "length prs \<le> TOTAL_PAGEREFS"
    using ok by (simp add: heap_ok_def)
  then have "length ?l < Suc TOTAL_PAGEREFS"
    using length_filter_le [of "\<lambda>p. blk s p = b" prs] by linarith
  moreover have "kassert (PR_BLOCKTYPE (prefs s x) = of_nat b) (Inr (nfree (prefs s x) > 0)) = Inr (free x \<noteq> [])"
    if "x \<in> set ?l" for x
    using that free_nonempty_iff [OF heap_ok_page [OF ok]] by (auto simp: blk_def)
  ultimately have w: "walk (Suc TOTAL_PAGEREFS)
        (\<lambda>pr. kassert (PR_BLOCKTYPE (prefs s pr) = of_nat b) (Inr (nfree (prefs s pr) > 0)))
        (\<lambda>pr. next_samesize (prefs s pr)) (sizebases s ! b) =
      Inr (case find (\<lambda>p. free p \<noteq> []) ?l of None \<Rightarrow> 0 | Some x \<Rightarrow> x)"
    by (rule walk_path [OF p])
  show ?thesis
  proof (cases "find (\<lambda>p. blk s p = b \<and> free p \<noteq> []) prs")
    case None
    then show ?thesis
      using b len w unfolding subpage_kmalloc_def by (simp add: find_filter)
  next
    case (Some q)
    then have q: "q \<in> set prs" "free q \<noteq> []"
      by (auto simp: find_Some_iff)
    then have "q \<noteq> 0"
      using ok path_nonnull [of _ "allbase s" prs] by (auto simp: heap_ok_def)
    moreover have "subpage_doalloc q s = Inr (hd (free q), take_block s q (tl (free q)))"
      using heap_ok_page [OF ok q(1)] q(2) by (intro subpage_doalloc_eq) simp
    ultimately show ?thesis
      using Some b len w unfolding subpage_kmalloc_def by (simp add: find_filter)
  qed
qed

section \<open>Giving a block back\<close>

lemma fill_deadbeef_fold:
  "fold (\<lambda>i m. m(a + 4 * of_nat i := 0xdeadbeef)) [0..<n] m x =
   (if \<exists>i<n. x = a + 4 * of_nat i then 0xdeadbeef else m x)" for a :: u32
  by (induction n) (auto simp: less_Suc_eq)

lemma fill_deadbeef_apply:
  "fill_deadbeef a len m x = (if \<exists>i<unat len div 4. x = a + 4 * of_nat i then 0xdeadbeef else m x)"
  unfolding fill_deadbeef_def by (rule fill_deadbeef_fold)

lemma in_kpage_iff:
  assumes "kpage g"
  shows "g \<le> a \<and> a < g + PAGE_SIZE \<longleftrightarrow> a AND PAGE_FRAME = g"
proof -
  have u: "unat (g + PAGE_SIZE) = unat g + 4096"
    using kpage_bounds [OF assms] by (simp add: unat_word_ariths(1))
  have "a AND PAGE_FRAME = g \<longleftrightarrow> unat (a div PAGE_SIZE) = unat (g div PAGE_SIZE)"
    using assms page_frame_eq_iff [of a g] by (simp add: kpage_def word_unat_eq_iff)
  also have "\<dots> \<longleftrightarrow> unat g \<le> unat a \<and> unat a < unat g + 4096"
    using kpage_dvd [OF assms] by (auto simp: unat_div_page elim!: dvdE)
  finally show ?thesis
    by (simp add: word_le_nat_alt word_less_nat_alt u)
qed

text \<open>The effect of freeing block \<open>a\<close> of the page of \<open>p\<close>.\<close>

definition give_block :: "'a kheap_state_scheme \<Rightarrow> u32 \<Rightarrow> u32 \<Rightarrow> 'a kheap_state_scheme" where
  "give_block s p a = s\<lparr>
     mem := (fill_deadbeef a (sizes ! blk s p) (mem s))(a := free_head (prefs s p)),
     prefs := (prefs s)(p := (prefs s p)\<lparr>freelist_offset := ucast (a - pr_page s p), nfree := nfree (prefs s p) + 1\<rparr>)\<rparr>"

text \<open>Freeing a block writes only inside the block.\<close>

lemma give_block_mem:
  assumes pg: "kpage (pr_page s p)" "blk s p < NSIZES" and a: "a = block s p i" "i < bcount (blk s p)"
    and x: "\<And>n. n < bsize (blk s p) \<Longrightarrow> x \<noteq> a + of_nat n"
  shows "mem (give_block s p a) x = mem s x"
proof -
  have sz: "unat (sizes ! blk s p) = bsize (blk s p)"
    using bsize_le [OF pg(2)] by (simp add: sizes_nth [OF pg(2)])
  have "x \<noteq> a + 4 * of_nat j" if "j < bsize (blk s p) div 4" for j
    using x [of "4 * j"] that by simp
  moreover have "x \<noteq> a"
    using x [of 0] bsize_pos [of "blk s p"] by simp
  ultimately show ?thesis
    by (auto simp: give_block_def fill_deadbeef_apply sz)
qed

text \<open>A block of another page, or another block of the page, is not touched.\<close>

lemma give_block_other:
  assumes ok: "heap_ok s prs free" and p: "p \<in> set prs" "a \<in> blocks s p"
    and q: "q \<in> set prs" "x \<in> blocks s q" "x \<noteq> a" and n: "n < bsize (blk s q)"
  shows "mem (give_block s p a) (x + of_nat n) = mem s (x + of_nat n)"
proof -
  note pg = heap_ok_kpage [OF ok p(1)] and qg = heap_ok_kpage [OF ok q(1)]
  obtain i where i: "a = block s p i" "i < bcount (blk s p)"
    using p(2) by (auto simp: blocks_def)
  obtain j where j: "x = block s q j" "j < bcount (blk s q)"
    using q(2) by (auto simp: blocks_def)
  show ?thesis
  proof (rule give_block_mem [OF pg i])
    fix m
    assume m: "m < bsize (blk s p)"
    show "x + of_nat n \<noteq> a + of_nat m"
    proof
      assume eq: "x + of_nat n = a + of_nat m"
      then have "pr_page s q = pr_page s p"
        using block_in_page(2) [OF qg j(2) n] block_in_page(2) [OF pg i(2) m] i(1) j(1) by simp
      then have qp: "q = p"
        using ok p(1) q(1) by (auto simp: heap_ok_def inj_on_def)
      with block_span_inj [OF pg, of j n i m] eq show False
        using i j m n q(3) by simp
    qed
  qed
qed

lemma free_head_nil: "page_ok s p [] \<Longrightarrow> freelist_offset (prefs s p) = INVALID_OFFSET"
proof (rule ccontr)
  assume ok: "page_ok s p []" and "freelist_offset (prefs s p) \<noteq> INVALID_OFFSET"
  then have z: "pr_page s p + ucast (freelist_offset (prefs s p)) = 0" and pg: "kpage (pr_page s p)"
    by (simp_all add: page_ok_def free_head_def pr_page_def)
  have "unat (freelist_offset (prefs s p)) < 2 ^ 16"
    using unsigned_less [of "freelist_offset (prefs s p)"] by simp
  then have "unat (pr_page s p + ucast (freelist_offset (prefs s p))) =
      unat (pr_page s p) + unat (freelist_offset (prefs s p))"
    using kpage_bounds [OF pg] by (simp add: unat_word_ariths(1) unat_ucast_up)
  then show False
    using z kpage_bounds [OF pg] by simp
qed

lemma free_head_cons: "page_ok s p (f # fs) \<Longrightarrow> freelist_offset (prefs s p) \<noteq> INVALID_OFFSET"
  by (auto simp: page_ok_def free_head_def)

lemma u32_of_u16_Suc: "unat (n :: u16) < 256 \<Longrightarrow> unat (n + 1) = Suc (unat n)"
  by (simp add: unat_word_ariths(1))

lemma block_offset:
  assumes "kpage (pr_page s p)" "blk s p < NSIZES" "a \<in> blocks s p"
  shows "a - pr_page s p < PAGE_SIZE" "(a - pr_page s p) mod sizes ! blk s p = 0"
    "(ucast (ucast (a - pr_page s p) :: u16) :: u32) = a - pr_page s p" "ucast (a - pr_page s p) \<noteq> INVALID_OFFSET"
proof -
  have o: "unat (a - pr_page s p) < 4096"
    by (rule block_in_page0(2) [OF assms])
  then show "a - pr_page s p < PAGE_SIZE"
    by (simp add: word_less_nat_alt)
  have u: "unat (ucast (a - pr_page s p) :: u16) = unat (a - pr_page s p)"
    using o by (simp add: unsigned_ucast_eq take_bit_nat_eq_self)
  then show "(ucast (ucast (a - pr_page s p) :: u16) :: u32) = a - pr_page s p"
    by (simp add: word_unat_eq_iff unat_ucast_up)
  show "ucast (a - pr_page s p) \<noteq> INVALID_OFFSET"
    using u o by (auto simp: word_unat_eq_iff)
  obtain i where i: "i < bcount (blk s p)" "a = block s p i"
    using assms(3) by (auto simp: blocks_def)
  have "i * bsize (blk s p) < 4096"
    using block_offset_less [OF assms(2) i(1)] bsize_pos [of "blk s p"] by simp
  then have "unat ((a - pr_page s p) mod sizes ! blk s p) = (i * bsize (blk s p)) mod bsize (blk s p)"
    using i(2) bsize_le [OF assms(2)]
    by (simp add: unat_mod_distrib sizes_nth [OF assms(2)] block_def del: of_nat_mult)
  then show "(a - pr_page s p) mod sizes ! blk s p = 0"
    by (simp add: unat_eq_0)
qed

text \<open>The page that \<open>subpage_kfree\<close> finds for an address.\<close>

lemma subpage_kfree_search:
  assumes ok: "heap_ok s prs free"
  shows "walk (Suc TOTAL_PAGEREFS)
       (\<lambda>pr. kassert (PR_BLOCKTYPE (prefs s pr) < of_nat NSIZES)
          (Inr (a \<ge> PR_PAGEADDR (prefs s pr) \<and> a < PR_PAGEADDR (prefs s pr) + PAGE_SIZE)))
       (\<lambda>pr. next_all (prefs s pr)) (allbase s) =
     Inr (case find (\<lambda>p. a AND PAGE_FRAME = pr_page s p) prs of None \<Rightarrow> 0 | Some p \<Rightarrow> p)"
proof (rule walk_path)
  show "path (\<lambda>pr. next_all (prefs s pr)) (allbase s) prs" "length prs < Suc TOTAL_PAGEREFS"
    using ok by (simp_all add: heap_ok_def)
  show "kassert (PR_BLOCKTYPE (prefs s x) < of_nat NSIZES)
      (Inr (a \<ge> PR_PAGEADDR (prefs s x) \<and> a < PR_PAGEADDR (prefs s x) + PAGE_SIZE)) =
    Inr (a AND PAGE_FRAME = pr_page s x)" if "x \<in> set prs" for x
    using heap_ok_kpage [OF ok that] in_kpage_iff [of "pr_page s x" a]
    by (simp add: blk_def word_less_nat_alt flip: pr_page_def)
qed

lemma find_page:
  assumes ok: "heap_ok s prs free" and p: "p \<in> set prs" "a AND PAGE_FRAME = pr_page s p"
  shows "find (\<lambda>p. a AND PAGE_FRAME = pr_page s p) prs = Some p"
proof (rule find_unique)
  fix y
  assume "y \<in> set prs" "a AND PAGE_FRAME = pr_page s y"
  then show "y = p"
    using ok p unfolding heap_ok_def by (auto dest: inj_onD)
qed (use p in auto)

lemma subpage_kfree_eq:
  assumes ok: "heap_ok s prs free" and p: "p \<in> set prs" "a \<in> blocks s p" "a \<notin> set (free p)"
    and keep: "Suc (length (free p)) < bcount (blk s p)"
  shows "subpage_kfree fr a s = Inr (0, give_block s p a)"
proof -
  note pg = heap_ok_kpage [OF ok p(1)] and pok = heap_ok_page [OF ok p(1)]
  note off = block_offset [OF pg p(2)]
  have "p \<noteq> 0"
    using ok p(1) path_nonnull [of _ "allbase s" prs] by (auto simp: heap_ok_def)
  then have w: "walk (Suc TOTAL_PAGEREFS)
       (\<lambda>pr. kassert (PR_BLOCKTYPE (prefs s pr) < of_nat NSIZES)
          (Inr (a \<ge> PR_PAGEADDR (prefs s pr) \<and> a < PR_PAGEADDR (prefs s pr) + PAGE_SIZE)))
       (\<lambda>pr. next_all (prefs s pr)) (allbase s) = Inr p"
    using subpage_kfree_search [OF ok, of a] find_page [OF ok p(1) block_in_page0(1) [OF pg p(2)]] by simp
  have n: "unat (nfree (prefs s p)) = length (free p)"
    using pok by (simp add: page_ok_def)
  then have "unat (nfree (prefs s p) + 1) = Suc (length (free p))"
    using keep bcount_le [OF pg(2)] by (subst u32_of_u16_Suc) simp_all
  then have cnt: "(ucast (nfree (prefs s p) + 1) :: u32) < of_nat (bcount (blk s p))"
    using keep bcount_le [OF pg(2)] by (simp add: word_less_nat_alt unat_ucast_up)
  consider (nil) "freelist_offset (prefs s p) = INVALID_OFFSET" "free_head (prefs s p) = NULL"
    | (cons) "freelist_offset (prefs s p) \<noteq> INVALID_OFFSET"
        "free_head (prefs s p) = pr_page s p + ucast (freelist_offset (prefs s p))"
        "a \<noteq> pr_page s p + ucast (freelist_offset (prefs s p))"
  proof (cases "free p")
    case Nil
    then show ?thesis
      using pok free_head_nil [of s p] nil by (simp add: free_head_def)
  next
    case (Cons f fs)
    then have "f = pr_page s p + ucast (freelist_offset (prefs s p))" "f \<noteq> a" "freelist_offset (prefs s p) \<noteq> INVALID_OFFSET"
      using pok p(3) free_head_offset(2) [of s p f fs] free_head_cons [of s p f fs] by auto
    then show ?thesis
      using cons by (auto simp: free_head_def pr_page_def)
  qed
  then show ?thesis
  proof cases
    case nil
    then show ?thesis
      unfolding subpage_kfree_def w rbind_Inr Let_def
      using \<open>p \<noteq> 0\<close> pg off cnt less_imp_le [OF cnt] less_imp_neq [OF cnt]
      by (simp add: page_div_sizes give_block_def not_le flip: pr_page_def blk_def)
  next
    case cons
    then show ?thesis
      unfolding subpage_kfree_def w rbind_Inr Let_def
      using \<open>p \<noteq> 0\<close> pg off cnt less_imp_le [OF cnt] less_imp_neq [OF cnt]
      by (simp add: page_div_sizes give_block_def not_le flip: pr_page_def blk_def)
  qed
qed

lemma give_block_ok:
  assumes ok: "heap_ok s prs free" and p: "p \<in> set prs" "a \<in> blocks s p" "a \<notin> set (free p)"
    and keep: "Suc (length (free p)) < bcount (blk s p)"
  shows "page_ok (give_block s p a) p (a # free p)"
proof -
  let ?s = "give_block s p a"
  note pg = heap_ok_kpage [OF ok p(1)] and pok = heap_ok_page [OF ok p(1)]
  note off = block_offset [OF pg p(2)]
  have P: "prefs ?s p = (prefs s p)\<lparr>freelist_offset := ucast (a - pr_page s p), nfree := nfree (prefs s p) + 1\<rparr>"
    by (simp add: give_block_def)
  have same: "pr_page ?s p = pr_page s p" "blk ?s p = blk s p" "blocks ?s p = blocks s p"
    using P by (simp_all add: pr_page_def blk_def cong: blocks_cong)
  have "mem ?s x = mem s x" if "x \<in> set (free p)" for x
  proof -
    have "x \<in> blocks s p" "x \<noteq> a"
      using that pok p(3) by (auto simp: page_ok_def)
    from give_block_other [OF ok p(1,2) p(1) this, of 0] show ?thesis
      using bsize_pos [of "blk s p"] by simp
  qed
  then have "path (mem ?s) h (free p) = path (mem s) h (free p)" for h
    by (rule path_cong)
  moreover have "mem ?s a = free_head (prefs s p)"
    by (simp add: give_block_def)
  moreover have "free_head (prefs ?s p) = a"
    using off same(1) by (simp add: free_head_def P flip: pr_page_def)
  moreover have "unat (nfree (prefs ?s p)) = Suc (length (free p))"
    using pok keep bcount_le [OF pg(2)] by (simp add: P page_ok_def u32_of_u16_Suc)
  ultimately show ?thesis
    using pok p(2) pg same block_in_page0(5) [OF pg p(2)] by (simp add: page_ok_def)
qed

lemma give_block_heap_ok:
  assumes ok: "heap_ok s prs free" and p: "p \<in> set prs" "a \<in> blocks s p" "a \<notin> set (free p)"
    and keep: "Suc (length (free p)) < bcount (blk s p)"
  shows "heap_ok (give_block s p a) prs (free(p := a # free p))"
proof (rule heap_ok_update [OF ok p(1), where P = "prefs (give_block s p a) p"])
  show "page_ok (give_block s p a) p (a # free p)"
    by (rule give_block_ok [OF assms])
  show "mem (give_block s p a) x = mem s x" if q: "q \<in> set prs" "q \<noteq> p" "x \<in> set (free q)" for q x
  proof -
    have x: "x \<in> blocks s q"
      using heap_ok_page [OF ok q(1)] q(3) by (auto simp: page_ok_def)
    have "pr_page s q \<noteq> pr_page s p"
      using ok q(1,2) p(1) by (auto simp: heap_ok_def inj_on_def)
    then have "x \<noteq> a"
      using block_in_page0(1) [OF heap_ok_kpage [OF ok q(1)] x] block_in_page0(1) [OF heap_ok_kpage [OF ok p(1)] p(2)] by auto
    from give_block_other [OF ok p(1,2) q(1) x this, of 0] show ?thesis
      using bsize_pos [of "blk s q"] by simp
  qed
qed (simp_all add: give_block_def)

text \<open>The block layout is a matter of the pagerefs' page addresses alone.\<close>

lemma take_block_layout [simp]:
  "blocks (take_block s p fs) q = blocks s q" "blk (take_block s p fs) q = blk s q"
  "pr_page (take_block s p fs) q = pr_page s q" "mem (take_block s p fs) = mem s"
proof -
  have P: "PR_PAGEADDR (prefs (take_block s p fs) q) = PR_PAGEADDR (prefs s q)"
    "PR_BLOCKTYPE (prefs (take_block s p fs) q) = PR_BLOCKTYPE (prefs s q)"
    by (simp_all add: take_block_def)
  then show "blocks (take_block s p fs) q = blocks s q" "blk (take_block s p fs) q = blk s q"
    "pr_page (take_block s p fs) q = pr_page s q"
    by (simp_all add: blk_def pr_page_def cong: blocks_cong)
  show "mem (take_block s p fs) = mem s"
    by (simp add: take_block_def)
qed

lemma give_block_layout [simp]:
  "blocks (give_block s p a) q = blocks s q" "blk (give_block s p a) q = blk s q"
  "pr_page (give_block s p a) q = pr_page s q"
proof -
  have P: "PR_PAGEADDR (prefs (give_block s p a) q) = PR_PAGEADDR (prefs s q)"
    "PR_BLOCKTYPE (prefs (give_block s p a) q) = PR_BLOCKTYPE (prefs s q)"
    by (simp_all add: give_block_def)
  then show "blocks (give_block s p a) q = blocks s q" "blk (give_block s p a) q = blk s q"
    "pr_page (give_block s p a) q = pr_page s q"
    by (simp_all add: blk_def pr_page_def cong: blocks_cong)
qed

end
