(* ===== verification/Kpages_Correct.thy ===== *)
theory Kpages_Correct
  imports Kpages Kheap_Correct
begin

text \<open>
  Correctness of the page allocator in the steady state: the list of free frames is a stack
  of frame numbers, \<open>alloc_kpages\<close> pops it and \<open>free_kpages\<close> pushes onto it, while the heap
  that stores the list's nodes stays well-formed.
\<close>

section \<open>The invariant\<close>

text \<open>The frame of a kernel address.\<close>

definition frame_of :: "u32 \<Rightarrow> nat" where
  "frame_of a = unat ((a - MIPS_KSEG0) div PAGE_SIZE)"

text \<open>A node of the frame list is an allocated block of the smallest size class.\<close>

definition node_ok :: "'a kheap_state_scheme \<Rightarrow> u32 list \<Rightarrow> (u32 \<Rightarrow> u32 list) \<Rightarrow> u32 \<Rightarrow> bool" where
  "node_ok s prs free n \<longleftrightarrow> (\<exists>p\<in>set prs. blk s p = 0 \<and> n \<in> blocks s p \<and> n \<notin> set (free p))"

text \<open>A frame on the list is not in use and lies below the page table in memory.\<close>

definition frame_free :: "'a kheap_state_scheme \<Rightarrow> u32 \<Rightarrow> bool" where
  "frame_free s f \<longleftrightarrow> 0 < f \<and> f < PAGETABLE_ENTRY s \<and> \<not> Valid (main_PG s ! unat f) \<and>
     f * 4096 < main_PG_addr s - MIPS_KSEG0"

definition kp_ok :: "'a kheap_state_scheme \<Rightarrow> u32 list \<Rightarrow> (u32 \<Rightarrow> u32 list) \<Rightarrow> u32 list \<Rightarrow> bool" where
  "kp_ok s prs free nodes \<longleftrightarrow>
     heap_ok s prs free \<and> pt_wf s \<and> VM_Started s \<and>
     path (next_frame s) (frame_list s) nodes \<and>
     (\<forall>n\<in>set nodes. node_ok s prs free n \<and> frame_free s (frame_number s n)) \<and>
     distinct (map (frame_number s) nodes) \<and>
     (\<forall>p\<in>set prs. frame_of (pr_page s p) < length (main_PG s) \<and> Valid (main_PG s ! frame_of (pr_page s p)))"

text \<open>The free frames, first to be allocated first.\<close>

definition frames :: "'a kheap_state_scheme \<Rightarrow> u32 list \<Rightarrow> u32 list" where
  "frames s nodes = map (frame_number s) nodes"

section \<open>What the heap invariant depends on\<close>

lemma heap_ok_cong:
  assumes "prefs s' = prefs s" "allbase s' = allbase s" "sizebases s' = sizebases s"
    and "\<And>p a. p \<in> set prs \<Longrightarrow> a \<in> set (free p) \<Longrightarrow> mem s' a = mem s a"
  shows "heap_ok s' prs free = heap_ok s prs free"
proof -
  have same: "pr_page s' = pr_page s" "blk s' = blk s" "blocks s' = blocks s"
    by (simp_all add: fun_eq_iff pr_page_def blk_def blocks_def block_def assms(1))
  have "path (mem s') h (free p) = path (mem s) h (free p)" if "p \<in> set prs" for p h
    using assms(4) [OF that] by (rule path_cong)
  then show ?thesis
    by (simp add: heap_ok_def page_ok_def same assms(1-3))
qed

lemma layout_cong:
  "prefs s' = prefs s \<Longrightarrow> pr_page s' = pr_page s" "prefs s' = prefs s \<Longrightarrow> blk s' = blk s"
  "prefs s' = prefs s \<Longrightarrow> blocks s' = blocks s"
  by (simp_all add: fun_eq_iff pr_page_def blk_def blocks_def block_def)

text \<open>Blocks of class 0 have 16 bytes; both words of a node lie in its page.\<close>

lemma node_page:
  assumes ok: "heap_ok s prs free" and p: "p \<in> set prs" "n \<in> blocks s p" and k: "k < 16"
  shows "(n + of_nat k) AND PAGE_FRAME = pr_page s p"
proof -
  obtain i where i: "n = block s p i" "i < bcount (blk s p)"
    using p(2) by (auto simp: blocks_def)
  show ?thesis
    using block_in_page(2) [OF heap_ok_kpage [OF ok p(1)] i(2), of k] k bsize_pos [of "blk s p"] i(1) by simp
qed

lemma zero_page_apply: "kpage g \<Longrightarrow> zero_page g m a = (if a AND PAGE_FRAME = g then 0 else m a)"
proof -
  assume g: "kpage g"
  have "a - g < PAGE_SIZE \<longleftrightarrow> g \<le> a \<and> a < g + PAGE_SIZE"
  proof (cases "g \<le> a")
    case True
    then have "unat (a - g) = unat a - unat g"
      by (rule unat_sub)
    moreover have "unat (g + PAGE_SIZE) = unat g + 4096"
      using kpage_bounds [OF g] by (simp add: unat_word_ariths(1))
    ultimately show ?thesis
      using True by (auto simp: word_less_nat_alt word_le_nat_alt)
  next
    case False
    then have "unat (a - g) = unat a + 2 ^ 32 - unat g"
      using unat_u32_less [of g] by (simp add: unat_sub_if_size word_le_nat_alt word_size)
    then show ?thesis
      using False kpage_bounds [OF g] by (auto simp: word_less_nat_alt word_le_nat_alt)
  qed
  then show ?thesis
    by (simp add: zero_page_def in_kpage_iff [OF g])
qed

text \<open>The kernel address of a frame.\<close>

lemma frame_kpage:
  assumes "unat f < 2 ^ 17"
  shows "kpage (f * 4096 + MIPS_KSEG0)" "frame_of (f * 4096 + MIPS_KSEG0) = unat f"
proof -
  have u: "unat (f * 4096) = unat f * 4096"
    using frame_addr_unat [of "unat f"] assms by simp
  then have k: "unat (f * 4096 + MIPS_KSEG0) = unat f * 4096 + 0x80000000"
    using assms by (simp add: unat_word_ariths(1))
  have "(f * 4096 + MIPS_KSEG0) AND PAGE_FRAME = f * 4096 + MIPS_KSEG0"
  proof -
    have "f * 4096 + MIPS_KSEG0 = push_bit 12 (f + 0x80000)"
      by (simp add: push_bit_eq_mult algebra_simps)
    then show ?thesis
      unfolding page_frame_mask by (simp only:) (rule bit_word_eqI, auto simp: bit_simps)
  qed
  then show "kpage (f * 4096 + MIPS_KSEG0)"
    using k assms by (simp add: kpage_def word_le_nat_alt word_less_nat_alt)
  show "frame_of (f * 4096 + MIPS_KSEG0) = unat f"
    using u by (simp add: frame_of_def unat_div_page)
qed

section \<open>Taking a frame\<close>

text \<open>The state after \<open>alloc_kpages(1)\<close> took frame \<open>f\<close> with node \<open>n\<close>, a block of the page of \<open>p\<close>.\<close>

definition popped :: "'a kheap_state_scheme \<Rightarrow> u32 \<Rightarrow> u32 \<Rightarrow> u32 \<Rightarrow> 'a kheap_state_scheme" where
  "popped s p n f =
     (let s1 = s\<lparr>pt_counter := pt_counter s + 1,
                 main_PG := (main_PG s)[unat f := (main_PG s ! unat f)
                   \<lparr>Valid := True, pt_pid := 0, page_number := 0, victim_counter := ucast (pt_counter s + 1)\<rparr>],
                 frame_list := next_frame s n\<rparr>;
          s2 = give_block s1 p n
      in s2\<lparr>mem := zero_page (f * 4096 + MIPS_KSEG0) (mem s2)\<rparr>)"

lemma check_free_frame_1: "frame_list s \<noteq> 0 \<Longrightarrow> check_free_frame 1 s = 1"
  by (simp add: check_free_frame_def)

lemma kfree_with_block:
  assumes "heap_ok s prs free" "p \<in> set prs" "a \<in> blocks s p" "a \<notin> set (free p)"
    "Suc (length (free p)) < bcount (blk s p)"
  shows "kfree_with fr a s = Inr (give_block s p a)"
  using subpage_kfree_eq [OF assms] block_in_page0(5) [OF heap_ok_kpage [OF assms(1,2)] assms(3)]
  by (simp add: kfree_with_def)

lemma pt_less_u32: "pt_wf s \<Longrightarrow> f < PAGETABLE_ENTRY s \<Longrightarrow> unat f < length (main_PG s) \<and> unat f < 2 ^ 17"
  by (auto simp: pt_wf_def word_less_nat_alt)

lemma alloc_kpages_pop:
  assumes ok: "kp_ok s prs free (n # ns)" and p: "p \<in> set prs" "blk s p = 0" "n \<in> blocks s p" "n \<notin> set (free p)"
    and keep: "Suc (length (free p)) < 256"
  shows "alloc_kpages (Suc k) 1 s =
    Inr (PADDR_TO_KVADDR (frame_number s n * 4096), popped s p n (frame_number s n))"
proof -
  let ?f = "frame_number s n"
  have h: "heap_ok s prs free" and wf: "pt_wf s" and v: "VM_Started s" and fl: "frame_list s = n" "n \<noteq> 0"
    and ff: "frame_free s ?f"
    using ok by (auto simp: kp_ok_def)
  have f: "0 < ?f" "?f < PAGETABLE_ENTRY s" "\<not> Valid (main_PG s ! unat ?f)" "\<not> main_PG_addr s - MIPS_KSEG0 \<le> ?f * 4096"
    using ff by (auto simp: frame_free_def not_le)
  note lt = pt_less_u32 [OF wf f(2)]
  have nz: "?f * 4096 \<noteq> 0"
  proof
    assume "?f * 4096 = 0"
    then have "unat ?f * 4096 = 0"
      using frame_addr_unat [of "unat ?f"] lt by simp
    then show False
      using f(1) by (simp add: word_less_nat_alt)
  qed
  let ?s1 = "s\<lparr>pt_counter := pt_counter s + 1,
                 main_PG := (main_PG s)[unat ?f := (main_PG s ! unat ?f)
                   \<lparr>Valid := True, pt_pid := 0, page_number := 0, victim_counter := ucast (pt_counter s + 1)\<rparr>],
                 frame_list := next_frame s n\<rparr>"
  have "heap_ok ?s1 prs free"
    using h by (subst heap_ok_cong [of _ s]) simp_all
  moreover have "blk ?s1 p = blk s p" "blocks ?s1 p = blocks s p"
    using layout_cong [of ?s1 s] by simp_all
  ultimately have kf: "kfree_with (free_kpages k) n ?s1 = Inr (give_block ?s1 p n)"
    using p keep by (intro kfree_with_block) (simp_all add: bcount_def)
  have nx: "next_frame (s\<lparr>pt_counter := c, main_PG := g\<rparr>) n = next_frame s n" for c g
    by (simp add: next_frame_def)
  have "alloc_kpages_step (kfree_with (free_kpages k)) (0, s) = Inr (?f * 4096, give_block ?s1 p n)"
    using f lt nz fl kf by (simp add: alloc_kpages_step_def Let_def nx)
  then show ?thesis
    using v fl by (simp add: alloc_kpages_with_def check_free_frame_1 popped_def PADDR_TO_KVADDR_def Let_def)
qed

text \<open>Memory outside the freed node and the allocated frame is unchanged.\<close>

lemma popped_mem:
  assumes ok: "kp_ok s prs free (n # ns)" and p: "p \<in> set prs" "n \<in> blocks s p"
    and q: "q \<in> set prs" "x \<in> blocks s q" "x \<noteq> n" and k: "k < 16"
  shows "mem (popped s p n (frame_number s n)) (x + of_nat k) = mem s (x + of_nat k)"
proof -
  let ?f = "frame_number s n"
  have h: "heap_ok s prs free" and wf: "pt_wf s" and ff: "frame_free s ?f"
    and pv: "Valid (main_PG s ! frame_of (pr_page s q))"
    using ok q(1) by (auto simp: kp_ok_def)
  let ?s1 = "s\<lparr>pt_counter := pt_counter s + 1,
                 main_PG := (main_PG s)[unat ?f := (main_PG s ! unat ?f)
                   \<lparr>Valid := True, pt_pid := 0, page_number := 0, victim_counter := ucast (pt_counter s + 1)\<rparr>],
                 frame_list := next_frame s n\<rparr>"
  have h1: "heap_ok ?s1 prs free"
    using h by (subst heap_ok_cong [of _ s]) simp_all
  have lay: "blk ?s1 = blk s" "blocks ?s1 = blocks s"
    using layout_cong [of ?s1 s] by simp_all
  have "mem (give_block ?s1 p n) (x + of_nat k) = mem ?s1 (x + of_nat k)"
    using p q less_le_trans [OF k bsize_pos] by (intro give_block_other [OF h1]) (simp_all add: lay)
  moreover have "(x + of_nat k) AND PAGE_FRAME \<noteq> ?f * 4096 + MIPS_KSEG0"
  proof -
    have lt: "unat ?f < 2 ^ 17"
      using pt_less_u32 [OF wf] ff by (simp add: frame_free_def)
    have "frame_of (pr_page s q) \<noteq> unat ?f"
      using pv ff by (auto simp: frame_free_def)
    then have "pr_page s q \<noteq> ?f * 4096 + MIPS_KSEG0"
      using frame_kpage(2) [OF lt] by auto
    then show ?thesis
      using node_page [OF h q(1,2) k] by simp
  qed
  moreover have "kpage (?f * 4096 + MIPS_KSEG0)"
    using pt_less_u32 [OF wf, of ?f] ff by (intro frame_kpage) (simp add: frame_free_def)
  ultimately show ?thesis
    by (simp add: popped_def Let_def zero_page_apply)
qed

lemma popped_layout [simp]:
  "blk (popped s p n f) = blk s" "blocks (popped s p n f) = blocks s" "pr_page (popped s p n f) = pr_page s"
  "VM_Started (popped s p n f) = VM_Started s" "frame_list (popped s p n f) = next_frame s n"
  "PAGETABLE_ENTRY (popped s p n f) = PAGETABLE_ENTRY s" "main_PG_addr (popped s p n f) = main_PG_addr s"
  "length (main_PG (popped s p n f)) = length (main_PG s)"
proof -
  let ?s = "s\<lparr>pt_counter := pt_counter s + 1,
                 main_PG := (main_PG s)[unat f := (main_PG s ! unat f)
                   \<lparr>Valid := True, pt_pid := 0, page_number := 0, victim_counter := ucast (pt_counter s + 1)\<rparr>],
                 frame_list := next_frame s n\<rparr>"
  have P: "prefs (popped s p n f) = prefs (give_block ?s p n)" and Q: "prefs ?s = prefs s"
    by (simp_all add: popped_def Let_def)
  show "blk (popped s p n f) = blk s" "blocks (popped s p n f) = blocks s" "pr_page (popped s p n f) = pr_page s"
    unfolding layout_cong [OF P] by (simp_all add: fun_eq_iff layout_cong [OF Q])
qed (simp_all add: popped_def Let_def give_block_def)

lemma popped_main_PG:
  "unat f < length (main_PG s) \<Longrightarrow> main_PG (popped s p n f) ! i =
    (if i = unat f then (main_PG s ! unat f)
       \<lparr>Valid := True, pt_pid := 0, page_number := 0, victim_counter := ucast (pt_counter s + 1)\<rparr>
     else main_PG s ! i)"
  by (simp add: popped_def Let_def give_block_def nth_list_update)

lemma popped_heap_ok:
  assumes ok: "kp_ok s prs free (n # ns)" and p: "p \<in> set prs" "blk s p = 0" "n \<in> blocks s p" "n \<notin> set (free p)"
    and keep: "Suc (length (free p)) < 256"
  shows "heap_ok (popped s p n (frame_number s n)) prs (free(p := n # free p))"
proof -
  let ?f = "frame_number s n"
  let ?s1 = "s\<lparr>pt_counter := pt_counter s + 1,
                 main_PG := (main_PG s)[unat ?f := (main_PG s ! unat ?f)
                   \<lparr>Valid := True, pt_pid := 0, page_number := 0, victim_counter := ucast (pt_counter s + 1)\<rparr>],
                 frame_list := next_frame s n\<rparr>"
  have h: "heap_ok s prs free"
    using ok by (simp add: kp_ok_def)
  have "heap_ok ?s1 prs free"
    using h by (subst heap_ok_cong [of _ s]) simp_all
  then have g: "heap_ok (give_block ?s1 p n) prs (free(p := n # free p))"
    using p keep layout_cong [of ?s1 s] by (intro give_block_heap_ok) (simp_all add: bcount_def)
  show ?thesis
  proof (subst heap_ok_cong [of _ "give_block ?s1 p n"])
    fix q a
    assume q: "q \<in> set prs" "a \<in> set ((free(p := n # free p)) q)"
    have wf: "pt_wf s" and ff: "frame_free s ?f" and pv: "Valid (main_PG s ! frame_of (pr_page s q))"
      using ok q(1) by (auto simp: kp_ok_def)
    have lt: "unat ?f < 2 ^ 17"
      using pt_less_u32 [OF wf] ff by (simp add: frame_free_def)
    have "a \<in> blocks s q"
      using q p heap_ok_page [OF h q(1)] by (auto simp: page_ok_def split: if_split_asm)
    then have "a AND PAGE_FRAME = pr_page s q"
      using node_page [OF h q(1), of a 0] by simp
    moreover have "frame_of (pr_page s q) \<noteq> unat ?f"
      using pv ff by (auto simp: frame_free_def)
    ultimately have "a AND PAGE_FRAME \<noteq> ?f * 4096 + MIPS_KSEG0"
      using frame_kpage(2) [OF lt] by auto
    then show "mem (popped s p n ?f) a = mem (give_block ?s1 p n) a"
      by (simp add: popped_def Let_def zero_page_apply frame_kpage(1) [OF lt])
  qed (use g in \<open>simp_all add: popped_def Let_def\<close>)
qed

lemma popped_nodes:
  assumes ok: "kp_ok s prs free (n # ns)" and p: "p \<in> set prs" "n \<in> blocks s p" and m: "m \<in> set ns"
  shows "frame_number (popped s p n (frame_number s n)) m = frame_number s m"
    "next_frame (popped s p n (frame_number s n)) m = next_frame s m" "m \<noteq> n"
proof -
  have "path (next_frame s) (frame_list s) (n # ns)"
    using ok by (simp add: kp_ok_def)
  from path_distinct [OF this] show mn: "m \<noteq> n"
    using m by auto
  obtain q where q: "q \<in> set prs" "m \<in> blocks s q"
    using ok m by (auto simp: kp_ok_def node_ok_def)
  show "frame_number (popped s p n (frame_number s n)) m = frame_number s m"
    "next_frame (popped s p n (frame_number s n)) m = next_frame s m"
    using popped_mem [OF ok p q mn, of 0] popped_mem [OF ok p q mn, of 4]
    by (simp_all add: frame_number_def next_frame_def)
qed

lemma popped_ok:
  assumes ok: "kp_ok s prs free (n # ns)" and p: "p \<in> set prs" "blk s p = 0" "n \<in> blocks s p" "n \<notin> set (free p)"
    and keep: "Suc (length (free p)) < 256"
  defines "s' \<equiv> popped s p n (frame_number s n)"
  shows "kp_ok s' prs (free(p := n # free p)) ns" "frames s' ns = frames s ns"
proof -
  let ?f = "frame_number s n"
  have wf: "pt_wf s" and f: "?f < PAGETABLE_ENTRY s" and path: "path (next_frame s) (next_frame s n) ns"
    and dist: "distinct (map (frame_number s) (n # ns))"
    using ok by (auto simp: kp_ok_def frame_free_def)
  note lt = pt_less_u32 [OF wf f]
  note nd = popped_nodes [OF ok p(1,3), folded s'_def]
  have pg: "main_PG s' ! i = (if i = unat ?f then (main_PG s ! unat ?f)
       \<lparr>Valid := True, pt_pid := 0, page_number := 0, victim_counter := ucast (pt_counter s + 1)\<rparr>
     else main_PG s ! i)" for i
    unfolding s'_def using lt by (intro popped_main_PG) simp
  have mp: "map (frame_number s') ns = map (frame_number s) ns"
    using nd(1) by simp
  then show "frames s' ns = frames s ns"
    by (simp add: frames_def)
  have "distinct (map (frame_number s') ns)"
    unfolding mp using dist by simp
  moreover
  have "path (next_frame s') (next_frame s n) ns"
    using path_cong [of ns "next_frame s'" "next_frame s"] nd(2) path by simp
  moreover have "node_ok s' prs (free(p := n # free p)) m" "frame_free s' (frame_number s' m)" if m: "m \<in> set ns" for m
  proof -
    have m': "node_ok s prs free m" "frame_free s (frame_number s m)"
      using ok m by (auto simp: kp_ok_def)
    obtain q where "q \<in> set prs" "blk s q = 0" "m \<in> blocks s q" "m \<notin> set (free q)"
      using m'(1) by (auto simp: node_ok_def)
    then show "node_ok s' prs (free(p := n # free p)) m"
      using nd(3) [OF m] unfolding node_ok_def s'_def by (intro bexI [of _ q]) auto
    have "frame_number s n \<noteq> frame_number s m"
      using dist m by auto
    then have "unat ?f \<noteq> unat (frame_number s m)"
      by (simp add: word_unat_eq_iff)
    then show "frame_free s' (frame_number s' m)"
      using m'(2) unfolding nd(1) [OF m] frame_free_def pg by (simp add: s'_def)
  qed
  moreover have "frame_of (pr_page s q) < length (main_PG s') \<and> Valid (main_PG s' ! frame_of (pr_page s q))"
    if "q \<in> set prs" for q
    using ok that lt by (simp add: kp_ok_def pg) (auto simp: s'_def)
  moreover have "pt_wf s'"
    using wf by (simp add: pt_wf_def s'_def)
  ultimately show "kp_ok s' prs (free(p := n # free p)) ns"
    using popped_heap_ok [OF ok p keep] ok by (simp add: kp_ok_def s'_def)
qed

section \<open>Returning a frame\<close>

text \<open>The state after frame \<open>f\<close> was put on the list with the node \<open>b\<close>, a free block of the page of \<open>p\<close>.\<close>

definition pushed :: "'a kheap_state_scheme \<Rightarrow> u32 \<Rightarrow> u32 \<Rightarrow> u32 list \<Rightarrow> u32 \<Rightarrow> 'a kheap_state_scheme" where
  "pushed s p b fs f =
     (let s1 = take_block s p fs
      in s1\<lparr>mem := (mem s1)(b := f, b + 4 := frame_list s), frame_list := b\<rparr>)"

text \<open>The state \<open>free_kpages\<close> hands to \<open>addToFrameList\<close> for a frame of the kernel.\<close>

definition released :: "'a kheap_state_scheme \<Rightarrow> u32 \<Rightarrow> u32 \<Rightarrow> 'a kheap_state_scheme" where
  "released s f paddr = s\<lparr>main_PG := (main_PG s)[unat f := (main_PG s ! unat f)
       \<lparr>Valid := False, pt_pid := 0, page_number := 0\<rparr>], mem := zero_page paddr (mem s)\<rparr>"

lemma blocktype_8: "blocktype 8 = Inr 0"
  by (simp add: blocktype_def sizes_def eval_simps)

lemma kmalloc_8:
  assumes "heap_ok s prs free" "find (\<lambda>p. blk s p = 0 \<and> free p \<noteq> []) prs = Some p"
  shows "kmalloc_with al fr 8 s = Inr (hd (free p), take_block s p (tl (free p)))"
  using subpage_kmalloc_eq [OF assms(1) blocktype_8] assms(2) by (simp add: kmalloc_with_def)

text \<open>Putting a frame that is not in use on the list.\<close>

lemma addToFrameList_push:
  assumes h: "heap_ok s prs free" and p: "find (\<lambda>p. blk s p = 0 \<and> free p \<noteq> []) prs = Some p"
    and f: "f \<le> PAGETABLE_ENTRY s"
  shows "addToFrameList_with (kmalloc_with al fr) f addTOP s = Inr (0, pushed s p (hd (free p)) (tl (free p)) f)"
proof -
  let ?b = "hd (free p)"
  have pp: "p \<in> set prs" "free p \<noteq> []"
    using p by (auto simp: find_Some_iff)
  then have "?b \<in> blocks s p"
    using heap_ok_page [OF h pp(1)] by (cases "free p") (auto simp: page_ok_def)
  then have "0x80000000 \<le> unat ?b"
    by (rule block_in_page0(4) [OF heap_ok_kpage [OF h pp(1)]])
  then have "?b \<noteq> 0" "?b \<noteq> 0xdeadeef"
    by (auto simp: word_unat_eq_iff)
  then show ?thesis
    using kmalloc_8 [OF h p, of al fr] f
    by (simp add: addToFrameList_with_def addToFrameList_top_def new_frame_node_def set_next_frame_def
        pushed_def Let_def take_block_def)
qed

lemma pushed_layout [simp]:
  "blk (pushed s p b fs f) = blk s" "blocks (pushed s p b fs f) = blocks s" "pr_page (pushed s p b fs f) = pr_page s"
  "VM_Started (pushed s p b fs f) = VM_Started s" "frame_list (pushed s p b fs f) = b"
  "PAGETABLE_ENTRY (pushed s p b fs f) = PAGETABLE_ENTRY s" "main_PG_addr (pushed s p b fs f) = main_PG_addr s"
  "main_PG (pushed s p b fs f) = main_PG s" "mem (pushed s p b fs f) = (mem s)(b := f, b + 4 := frame_list s)"
proof -
  have P: "prefs (pushed s p b fs f) = prefs (take_block s p fs)"
    by (simp add: pushed_def Let_def)
  show "blk (pushed s p b fs f) = blk s" "blocks (pushed s p b fs f) = blocks s" "pr_page (pushed s p b fs f) = pr_page s"
    unfolding layout_cong [OF P] by (simp_all add: fun_eq_iff)
qed (simp_all add: pushed_def Let_def take_block_def)

text \<open>Two words of different blocks are different.\<close>

lemma block_words_neq:
  assumes h: "heap_ok s prs free" and p: "p \<in> set prs" "a \<in> blocks s p" and q: "q \<in> set prs" "x \<in> blocks s q"
    and ne: "x \<noteq> a" and k: "k < 16" "l < 16"
  shows "x + of_nat k \<noteq> a + of_nat l"
proof
  assume eq: "x + of_nat k = a + of_nat l"
  then have "pr_page s q = pr_page s p"
    using node_page [OF h q k(1)] node_page [OF h p k(2)] by simp
  then have qp: "q = p"
    using h p(1) q(1) by (auto simp: heap_ok_def inj_on_def)
  obtain i j where "a = block s p i" "i < bcount (blk s p)" "x = block s p j" "j < bcount (blk s p)"
    using p(2) q(2) qp by (auto simp: blocks_def)
  then show False
    using block_span_inj [OF heap_ok_kpage [OF h p(1)], of j k i l] eq ne k bsize_pos [of "blk s p"] by simp
qed

lemma pushed_heap_ok:
  assumes h: "heap_ok s prs free" and p: "p \<in> set prs" "free p = b # fs"
  shows "heap_ok (pushed s p b fs f) prs (free(p := fs))"
proof (subst heap_ok_cong [of _ "take_block s p fs"])
  show "heap_ok (take_block s p fs) prs (free(p := fs))"
    by (rule take_block_heap_ok [OF h p])
  fix q a
  assume q: "q \<in> set prs" "a \<in> set ((free(p := fs)) q)"
  have b: "b \<in> blocks s p" and "path (mem s) (free_head (prefs s p)) (b # fs)"
    using heap_ok_page [OF h p(1)] p(2) by (auto simp: page_ok_def)
  from path_distinct [OF this(2)] have d: "distinct (b # fs)" .
  have a: "a \<in> blocks s q" "a \<in> set (free q)"
    using q p heap_ok_page [OF h q(1)] by (auto simp: page_ok_def split: if_split_asm)
  have "a \<noteq> b"
  proof (cases "q = p")
    case True
    then show ?thesis
      using q(2) d by auto
  next
    case False
    then have "pr_page s q \<noteq> pr_page s p"
      using h p(1) q(1) by (auto simp: heap_ok_def inj_on_def)
    then show ?thesis
      using node_page [OF h p(1) b, of 0] node_page [OF h q(1) a(1), of 0] by auto
  qed
  from block_words_neq [OF h p(1) b q(1) a(1) this, of 0 4] this
  show "mem (pushed s p b fs f) a = mem (take_block s p fs) a"
    by simp
qed (simp_all add: pushed_def Let_def)

lemma pushed_nodes:
  assumes h: "heap_ok s prs free" and p: "p \<in> set prs" "b \<in> blocks s p" and m: "m \<in> blocks s q" "q \<in> set prs" "m \<noteq> b"
  shows "frame_number (pushed s p b fs f) m = frame_number s m" "next_frame (pushed s p b fs f) m = next_frame s m"
  using block_words_neq [OF h p m(2,1,3), of 0 4] block_words_neq [OF h p m(2,1,3), of 4 0]
    block_words_neq [OF h p m(2,1,3), of 4 4] m(3)
  by (simp_all add: frame_number_def next_frame_def)

lemma pushed_ok:
  assumes ok: "kp_ok s prs free nodes" and p: "p \<in> set prs" "blk s p = 0" "free p = b # fs"
    and f: "frame_free s f" "f \<notin> set (frames s nodes)"
  defines "s' \<equiv> pushed s p b fs f"
  shows "kp_ok s' prs (free(p := fs)) (b # nodes)" "frames s' (b # nodes) = f # frames s nodes"
proof -
  have h: "heap_ok s prs free"
    using ok by (simp add: kp_ok_def)
  have b: "b \<in> blocks s p" and "path (mem s) (free_head (prefs s p)) (b # fs)"
    using heap_ok_page [OF h p(1)] p(3) by (auto simp: page_ok_def)
  from path_distinct [OF this(2)] have bf: "b \<notin> set fs"
    by simp
  have bnz: "b \<noteq> 0"
    by (rule block_in_page0(5) [OF heap_ok_kpage [OF h p(1)] b])
  have node: "\<exists>q\<in>set prs. blk s q = 0 \<and> m \<in> blocks s q \<and> m \<notin> set ((free(p := fs)) q)" "m \<noteq> b"
    "frame_number s' m = frame_number s m" "next_frame s' m = next_frame s m" if m: "m \<in> set nodes" for m
  proof -
    obtain q where q: "q \<in> set prs" "blk s q = 0" "m \<in> blocks s q" "m \<notin> set (free q)"
      using ok m by (auto simp: kp_ok_def node_ok_def)
    then show "\<exists>q\<in>set prs. blk s q = 0 \<and> m \<in> blocks s q \<and> m \<notin> set ((free(p := fs)) q)"
      using p(3) by (intro bexI [of _ q]) auto
    show mb: "m \<noteq> b"
    proof
      assume "m = b"
      then have "pr_page s q = pr_page s p"
        using node_page [OF h q(1,3), of 0] node_page [OF h p(1) b, of 0] by simp
      then have "q = p"
        using h p(1) q(1) by (auto simp: heap_ok_def inj_on_def)
      then show False
        using q(4) p(3) \<open>m = b\<close> by simp
    qed
    show "frame_number s' m = frame_number s m" "next_frame s' m = next_frame s m"
      unfolding s'_def by (rule pushed_nodes [OF h p(1) b q(3,1) mb])+
  qed
  have new: "frame_number s' b = f" "next_frame s' b = frame_list s" "frame_list s' = b"
    by (simp_all add: s'_def frame_number_def next_frame_def)
  have mp: "map (frame_number s') nodes = map (frame_number s) nodes"
    using node(3) by simp
  then show "frames s' (b # nodes) = f # frames s nodes"
    by (simp add: frames_def new)
  have "path (next_frame s') (frame_list s') (b # nodes)"
    using ok bnz path_cong [of nodes "next_frame s'" "next_frame s"] node(4) by (simp add: kp_ok_def new)
  moreover have "node_ok s' prs (free(p := fs)) m \<and> frame_free s' (frame_number s' m)" if "m \<in> set (b # nodes)" for m
  proof (cases "m = b")
    case True
    then show ?thesis
      using p b bf f(1) by (auto simp: node_ok_def new frame_free_def s'_def [symmetric]) (auto simp: s'_def)
  next
    case False
    then have m: "m \<in> set nodes"
      using that by simp
    then show ?thesis
      using node(1,3) [OF m] ok by (auto simp: node_ok_def kp_ok_def frame_free_def) (auto simp: s'_def)
  qed
  moreover have "distinct (map (frame_number s') (b # nodes))"
    using ok f(2) by (simp add: new mp kp_ok_def frames_def)
  moreover have "heap_ok s' prs (free(p := fs))"
    unfolding s'_def by (rule pushed_heap_ok [OF h p(1,3)])
  ultimately show "kp_ok s' prs (free(p := fs)) (b # nodes)"
    using ok by (auto simp: kp_ok_def s'_def pt_wf_def)
qed

section \<open>Releasing a page\<close>

text \<open>A frame in use that is not one of the heap's own pages.\<close>

definition releasable :: "'a kheap_state_scheme \<Rightarrow> u32 list \<Rightarrow> u32 \<Rightarrow> bool" where
  "releasable s prs f \<longleftrightarrow> 0 < f \<and> f < PAGETABLE_ENTRY s \<and> Valid (main_PG s ! unat f) \<and>
     f * 4096 < main_PG_addr s - MIPS_KSEG0 \<and> (\<forall>q\<in>set prs. frame_of (pr_page s q) \<noteq> unat f)"

lemma released_layout [simp]:
  "blk (released s f a) = blk s" "blocks (released s f a) = blocks s" "pr_page (released s f a) = pr_page s"
  "VM_Started (released s f a) = VM_Started s" "frame_list (released s f a) = frame_list s"
  "PAGETABLE_ENTRY (released s f a) = PAGETABLE_ENTRY s" "main_PG_addr (released s f a) = main_PG_addr s"
  "length (main_PG (released s f a)) = length (main_PG s)" "mem (released s f a) = zero_page a (mem s)"
proof -
  have P: "prefs (released s f a) = prefs s"
    by (simp add: released_def)
  show "blk (released s f a) = blk s" "blocks (released s f a) = blocks s" "pr_page (released s f a) = pr_page s"
    unfolding layout_cong [OF P] by simp_all
qed (simp_all add: released_def)

lemma released_ok:
  assumes ok: "kp_ok s prs free nodes" and f: "releasable s prs f"
  defines "s' \<equiv> released s f (f * 4096 + MIPS_KSEG0)"
  shows "kp_ok s' prs free nodes" "frames s' nodes = frames s nodes" "frame_free s' f" "f \<notin> set (frames s nodes)"
proof -
  have h: "heap_ok s prs free" and wf: "pt_wf s"
    using ok by (simp_all add: kp_ok_def)
  have f': "0 < f" "f < PAGETABLE_ENTRY s" "Valid (main_PG s ! unat f)"
    and nq: "\<And>q. q \<in> set prs \<Longrightarrow> frame_of (pr_page s q) \<noteq> unat f"
    using f by (auto simp: releasable_def)
  note lt = pt_less_u32 [OF wf f'(2)]
  note fk = frame_kpage [of f, OF conjunct2 [OF lt]]
  have mem': "mem s' (x + of_nat k) = mem s (x + of_nat k)" if "q \<in> set prs" "x \<in> blocks s q" "k < 16" for q x k
    using node_page [OF h that] nq [OF that(1)] fk by (auto simp: s'_def zero_page_apply)
  have pg: "main_PG s' ! i = (if i = unat f then (main_PG s ! unat f)\<lparr>Valid := False, pt_pid := 0, page_number := 0\<rparr>
      else main_PG s ! i)" for i
    using lt by (simp add: s'_def released_def nth_list_update)
  have node: "frame_number s' m = frame_number s m" "next_frame s' m = next_frame s m" if m: "m \<in> set nodes" for m
  proof -
    obtain q where "q \<in> set prs" "m \<in> blocks s q"
      using ok m by (auto simp: kp_ok_def node_ok_def)
    then show "frame_number s' m = frame_number s m" "next_frame s' m = next_frame s m"
      using mem' [of q m 0] mem' [of q m 4] by (simp_all add: frame_number_def next_frame_def)
  qed
  show fr: "frames s' nodes = frames s nodes"
    using node(1) by (simp add: frames_def)
  show fn: "f \<notin> set (frames s nodes)"
    using ok f'(3) by (auto simp: frames_def kp_ok_def frame_free_def)
  show "frame_free s' f"
    using f by (simp add: frame_free_def releasable_def pg) (simp add: s'_def)
  have "heap_ok s' prs free"
  proof (subst heap_ok_cong [of _ s])
    show "mem s' a = mem s a" if "q \<in> set prs" "a \<in> set (free q)" for q a
      using mem' [OF that(1), of a 0] heap_ok_page [OF h that(1)] that(2) by (auto simp: page_ok_def)
  qed (use h in \<open>simp_all add: s'_def released_def\<close>)
  moreover have "path (next_frame s') (frame_list s') nodes"
    using ok path_cong [of nodes "next_frame s'" "next_frame s"] node(2) by (simp add: kp_ok_def s'_def)
  moreover have "node_ok s' prs free m \<and> frame_free s' (frame_number s' m)" if m: "m \<in> set nodes" for m
  proof -
    have "node_ok s prs free m" "frame_free s (frame_number s m)"
      using ok m by (auto simp: kp_ok_def)
    then show ?thesis
      unfolding node(1) [OF m] node_ok_def frame_free_def pg by (simp add: s'_def)
  qed
  moreover have "distinct (map (frame_number s') nodes)"
    using ok fr unfolding kp_ok_def frames_def by metis
  moreover have "Valid (main_PG s' ! frame_of (pr_page s q))" if "q \<in> set prs" for q
    using ok that nq [OF that] by (simp add: kp_ok_def pg)
  moreover have "frame_of (pr_page s q) < length (main_PG s)" if "q \<in> set prs" for q
    using ok that by (simp add: kp_ok_def)
  ultimately show "kp_ok s' prs free nodes"
    using ok by (auto simp: kp_ok_def pt_wf_def s'_def)
qed

text \<open>The frame list does not depend on the TLB.\<close>

lemma kp_ok_tlb [simp]: "kp_ok (tlb_clear_slot i s) prs free nodes = kp_ok s prs free nodes"
proof -
  let ?s = "tlb_clear_slot i s"
  have l: "pr_page ?s = pr_page s" "blk ?s = blk s" "blocks ?s = blocks s"
    using layout_cong [of ?s s] by (simp_all add: tlb_clear_slot_def)
  have "heap_ok ?s prs free = heap_ok s prs free"
    by (rule heap_ok_cong) (simp_all add: tlb_clear_slot_def)
  moreover have "next_frame ?s = next_frame s" "frame_number ?s = frame_number s"
    by (simp_all add: fun_eq_iff next_frame_def frame_number_def tlb_clear_slot_def)
  moreover have "node_ok ?s = node_ok s" "frame_free ?s = frame_free s"
    by (simp_all add: fun_eq_iff node_ok_def frame_free_def l) (simp add: tlb_clear_slot_def)
  ultimately show ?thesis
    by (simp add: kp_ok_def l) (simp add: tlb_clear_slot_def pt_wf_def)
qed

text \<open>
  What \<open>free_kpages\<close> does before it calls \<open>addToFrameList\<close>: for a user frame the
  translation of its page is evicted.
\<close>

lemma free_kpages_step:
  assumes ok: "kp_ok s prs free nodes" and f: "releasable s prs f"
    and s1: "(if pt_pid (main_PG s ! unat f) \<noteq> 0 then removeTLBv1 (page_number (main_PG s ! unat f) * 4096) s else Inr s) = Inr s1"
      "main_PG s1 = main_PG s"
  shows "free_kpages_with add (f * 4096 + MIPS_KSEG0) s =
    rbind (add f addTOP (released s1 f (f * 4096 + MIPS_KSEG0))) (\<lambda>(r, s). Inr s)"
proof -
  have wf: "pt_wf s" and v: "VM_Started s"
    using ok by (simp_all add: kp_ok_def)
  have f': "f < PAGETABLE_ENTRY s" "Valid (main_PG s ! unat f)"
    using f by (auto simp: releasable_def)
  note lt = pt_less_u32 [OF wf f'(1)]
  note fk = frame_kpage [of f, OF conjunct2 [OF lt]]
  have "(f * 4096 + MIPS_KSEG0) AND PAGE_FRAME = f * 4096 + MIPS_KSEG0"
    using fk(1) by (simp add: kpage_def)
  moreover have "f * 4096 div 4096 = f"
    using lt by (intro page_times_size) simp
  ultimately show ?thesis
    using v f' lt s1 by (simp add: free_kpages_with_def Let_def released_def)
qed

lemma free_kpages_push:
  assumes ok: "kp_ok s prs free nodes" and f: "releasable s prs f" and k: "pt_pid (main_PG s ! unat f) = 0"
    and p: "find (\<lambda>p. blk s p = 0 \<and> free p \<noteq> []) prs = Some p"
  shows "free_kpages (Suc n) (f * 4096 + MIPS_KSEG0) s =
    Inr (pushed (released s f (f * 4096 + MIPS_KSEG0)) p (hd (free p)) (tl (free p)) f)"
proof -
  let ?s = "released s f (f * 4096 + MIPS_KSEG0)"
  have h: "heap_ok ?s prs free"
    using released_ok(1) [OF ok f] by (simp add: kp_ok_def)
  have "addToFrameList_with (kmalloc_with (alloc_kpages n) (free_kpages n)) f addTOP ?s =
      Inr (0, pushed ?s p (hd (free p)) (tl (free p)) f)"
    using p f by (intro addToFrameList_push [OF h]) (auto simp: releasable_def less_imp_le)
  then show ?thesis
    using free_kpages_step [OF ok f, of s] k by simp
qed

section \<open>An example heap\<close>

text \<open>
  Eight frames. Frame 2 is a heap page of 16-byte blocks, described by a pageref in frame
  3: blocks 0 and 1 are the nodes of the free frames 4 and 5, block 3 is free. The page
  table starts at frame 7.
\<close>

definition example_entry :: "bool \<Rightarrow> invertedPT" where
  "example_entry v = \<lparr>Dirty = False, Valid = v, pt_pid = 0, page_number = 0, victim_counter = 0\<rparr>"

definition example_heap :: kheap_state where
  "example_heap = \<lparr>
     main_PG = map example_entry [True, True, True, True, False, False, True, True],
     PAGETABLE_ENTRY = 8, pt_counter = 3, curproc_pid = 2, curproc_as = None,
     tlb = invalid_slots, freeTLBEntries = 64, next_victim = 0, TLB_victim = 0, TLB_Invalidations = 1,
     firstpaddr = 0, lastpaddr = 0,
     mem = (\<lambda>_. 0)(0x80002000 := 4, 0x80002004 := 0x80002010, 0x80002010 := 5),
     prefs = (\<lambda>_. \<lparr>next_samesize = 0, next_all = 0, pageaddr_and_blocktype = 0x80002000,
                     freelist_offset = 0x30, nfree = 1\<rparr>),
     kheaproots = \<lparr>kr_page = 0x80003000, pagerefs_inuse = [1, 0, 0, 0, 0, 0, 0, 0], numinuse = 1\<rparr> #
       replicate 15 \<lparr>kr_page = 0, pagerefs_inuse = replicate 8 0, numinuse = 0\<rparr>,
     sizebases = [0x80003000, 0, 0, 0, 0, 0, 0, 0], allbase = 0x80003000,
     frame_list = 0x80002000, VM_Started = True, main_PG_addr = 0x80007000\<rparr>"

abbreviation example_prs :: "u32 list" where "example_prs \<equiv> [0x80003000]"

definition example_free :: "u32 \<Rightarrow> u32 list" where
  "example_free p = [0x80002030]"

lemma example_heap_sel:
  "main_PG example_heap = map example_entry [True, True, True, True, False, False, True, True]"
  "PAGETABLE_ENTRY example_heap = 8" "main_PG_addr example_heap = 0x80007000" "VM_Started example_heap"
  "mem example_heap = (\<lambda>_. 0)(0x80002000 := 4, 0x80002004 := 0x80002010, 0x80002010 := 5)"
  "prefs example_heap = (\<lambda>_. \<lparr>next_samesize = 0, next_all = 0, pageaddr_and_blocktype = 0x80002000,
                     freelist_offset = 0x30, nfree = 1\<rparr>)"
  "sizebases example_heap = [0x80003000, 0, 0, 0, 0, 0, 0, 0]" "allbase example_heap = 0x80003000"
  "frame_list example_heap = 0x80002000"
  by (simp_all add: example_heap_def)

lemma example_heap_layout: "blk example_heap p = 0" "pr_page example_heap p = 0x80002000"
  by (simp_all add: blk_def pr_page_def PR_BLOCKTYPE_def PR_PAGEADDR_def example_heap_sel)

lemma example_heap_blocks:
  "i < 256 \<Longrightarrow> a = 0x80002000 + of_nat (i * 16) \<Longrightarrow> a \<in> blocks example_heap p"
  unfolding blocks_def by (rule image_eqI [of _ _ i]) (simp_all add: block_def example_heap_layout bsize_def bcount_def)

lemma example_heap_ok: "heap_ok example_heap example_prs example_free"
proof -
  have "kpage 0x80002000"
    by (simp add: kpage_def)
  moreover have "0x80002030 \<in> blocks example_heap 0x80003000"
    by (rule example_heap_blocks [of 3]) simp_all
  ultimately have "page_ok example_heap 0x80003000 (example_free 0x80003000)"
    by (simp add: page_ok_def example_heap_layout example_free_def free_head_def PR_PAGEADDR_def example_heap_sel)
  moreover have "path (\<lambda>p. next_samesize (prefs example_heap p)) (sizebases example_heap ! b)
      (filter (\<lambda>p. blk example_heap p = b) example_prs)" if "b < 8" for b
    using less_8_cases [OF that] by (elim disjE) (simp_all add: example_heap_layout example_heap_sel)
  ultimately show ?thesis
    by (simp add: heap_ok_def example_heap_sel)
qed

lemma example_kp_ok: "kp_ok example_heap example_prs example_free [0x80002000, 0x80002010]"
proof -
  have "0x80002000 \<in> blocks example_heap 0x80003000" "0x80002010 \<in> blocks example_heap 0x80003000"
    by (rule example_heap_blocks [of 0], simp_all, rule example_heap_blocks [of 1], simp_all)
  then have "node_ok example_heap example_prs example_free 0x80002000"
      "node_ok example_heap example_prs example_free 0x80002010"
    by (simp_all add: node_ok_def example_heap_layout example_free_def)
  moreover have "frame_free example_heap 4" "frame_free example_heap 5" "frame_of 0x80002000 = 2"
    by (simp_all add: frame_free_def frame_of_def example_heap_sel example_entry_def)
  moreover have "frame_number example_heap 0x80002000 = 4" "frame_number example_heap 0x80002010 = 5"
      "next_frame example_heap 0x80002000 = 0x80002010" "next_frame example_heap 0x80002010 = 0"
      "Valid (main_PG example_heap ! 2)" "pt_wf example_heap" "length (main_PG example_heap) = 8"
    by (simp_all add: frame_number_def next_frame_def example_heap_sel example_entry_def pt_wf_def)
  ultimately show ?thesis
    using example_heap_ok by (simp add: kp_ok_def example_heap_layout example_heap_sel(4,9))
qed

lemma kmalloc_hit:
  assumes "heap_ok s prs free" "sz < LARGEST_SUBPAGE_SIZE" "blocktype sz = Inr b"
    and "find (\<lambda>p. blk s p = b \<and> free p \<noteq> []) prs = Some p" "free p = a # fs"
  shows "kmalloc n sz s = Inr (a, take_block s p fs)"
proof -
  have "b < NSIZES"
    using blocktype_spec [of sz] assms(2,3) by auto
  moreover have "\<not> LARGEST_SUBPAGE_SIZE \<le> sz"
    using assms(2) by (simp add: not_le)
  ultimately show ?thesis
    using subpage_kmalloc_eq [OF assms(1,3)] assms(4,5) by (simp add: kmalloc_def kmalloc_with_def)
qed

section \<open>Properties\<close>

text \<open>
  C17: In a well-formed heap, a request below 2048 bytes for which some page of the size
  class has a free block returns a block of at least the requested size that was on that
  page's free list; the block leaves the free list, every other free list and all of
  memory stay as they are, and the heap stays well-formed. No page is allocated.
\<close>

theorem kmalloc_takes_free_block:
  assumes "heap_ok s prs free" "sz < LARGEST_SUBPAGE_SIZE" "blocktype sz = Inr b"
    and "find (\<lambda>p. blk s p = b \<and> free p \<noteq> []) prs = Some p"
  shows "\<exists>a fs s'. free p = a # fs \<and> kmalloc n sz s = Inr (a, s') \<and> a \<in> blocks s p \<and> unat sz \<le> bsize (blk s p) \<and>
    heap_ok s' prs (free(p := fs)) \<and> mem s' = mem s"
proof -
  have b: "unat sz \<le> bsize b"
    using blocktype_spec [of sz] assms(2,3) by auto
  have p: "p \<in> set prs" "blk s p = b" "free p \<noteq> []"
    using assms(4) by (auto simp: find_Some_iff)
  then obtain a fs where fp: "free p = a # fs"
    by (cases "free p") auto
  have "a \<in> blocks s p"
    using heap_ok_page [OF assms(1) p(1)] fp by (simp add: page_ok_def)
  moreover have "kmalloc n sz s = Inr (a, take_block s p fs)"
    by (rule kmalloc_hit [OF assms(1-4) fp])
  ultimately show ?thesis
    using take_block_heap_ok [OF assms(1) p(1) fp] fp b p(2) by auto
qed

theorem kmalloc_takes_free_block_witness:
  "heap_ok example_heap example_prs example_free \<and> blocktype 12 = Inr 0 \<and>
   (\<exists>s'. kmalloc 1 12 example_heap = Inr (0x80002030, s'))"
proof -
  have b: "blocktype 12 = Inr 0"
    by (simp add: blocktype_def sizes_def eval_simps)
  have "find (\<lambda>p. blk example_heap p = 0 \<and> example_free p \<noteq> []) example_prs = Some 0x80003000"
    by (simp add: example_heap_layout example_free_def)
  from kmalloc_takes_free_block [OF example_heap_ok _ b this, of 1] show ?thesis
    using example_heap_ok b by (auto simp: example_free_def)
qed

text \<open>
  C3: Freeing the block that such a request returned succeeds and gives back the heap the
  request started from, free list by free list, provided the page was not wholly free.
\<close>

theorem kmalloc_kfree_roundtrip:
  assumes "heap_ok s prs free" "sz < LARGEST_SUBPAGE_SIZE" "blocktype sz = Inr b"
    and "find (\<lambda>p. blk s p = b \<and> free p \<noteq> []) prs = Some p" "length (free p) < bcount b"
    and "kmalloc n sz s = Inr (a, s')"
  shows "\<exists>s''. kfree m a s' = Inr s'' \<and> heap_ok s'' prs free"
proof -
  have p: "p \<in> set prs" "blk s p = b" "free p \<noteq> []"
    using assms(4) by (auto simp: find_Some_iff)
  then obtain c fs where fp: "free p = c # fs"
    by (cases "free p") auto
  have "kmalloc n sz s = Inr (c, take_block s p fs)"
    by (rule kmalloc_hit [OF assms(1-4) fp])
  then have s': "a = c" "s' = take_block s p fs"
    using assms(6) by simp_all
  have "path (mem s) (free_head (prefs s p)) (c # fs)" "c \<in> blocks s p"
    using heap_ok_page [OF assms(1) p(1)] fp by (auto simp: page_ok_def)
  from path_distinct [OF this(1)] have c: "c \<notin> set ((free(p := fs)) p)"
    by simp
  note h = take_block_heap_ok [OF assms(1) p(1) fp]
  have keep: "Suc (length ((free(p := fs)) p)) < bcount (blk s' p)"
    using assms(5) fp p(2) s'(2) by simp
  have "c \<in> blocks s' p"
    using s'(2) \<open>c \<in> blocks s p\<close> by simp
  note g = h [folded s'(2)] p(1) this c keep
  have "(free(p := fs))(p := c # (free(p := fs)) p) = free"
    using fp by (simp add: fun_eq_iff)
  with give_block_heap_ok [OF g] have "heap_ok (give_block s' p c) prs free"
    by (simp only:)
  then show ?thesis
    using kfree_with_block [OF g] s'(1) by (simp add: kfree_def)
qed

theorem kmalloc_kfree_roundtrip_witness:
  "\<exists>a s' s''. kmalloc 1 12 example_heap = Inr (a, s') \<and> kfree 1 a s' = Inr s'' \<and> heap_ok s'' example_prs example_free"
proof -
  have b: "blocktype 12 = Inr 0"
    by (simp add: blocktype_def sizes_def eval_simps)
  have f: "find (\<lambda>p. blk example_heap p = 0 \<and> example_free p \<noteq> []) example_prs = Some 0x80003000"
    by (simp add: example_heap_layout example_free_def)
  have "kmalloc 1 12 example_heap = Inr (0x80002030, take_block example_heap 0x80003000 [])"
    by (rule kmalloc_hit [OF example_heap_ok _ b f]) (simp_all add: example_free_def)
  moreover have "length (example_free 0x80003000) < bcount 0"
    by (simp add: example_free_def bcount_def)
  ultimately show ?thesis
    using kmalloc_kfree_roundtrip [OF example_heap_ok _ b f] by fastforce
qed

text \<open>
  C4: Allocating one page takes the first frame of the free list: the result is the kernel
  address of that frame, the frame becomes valid and its page reads as zero, the remaining
  free frames and their order are unchanged, and the invariant holds again. This needs
  one level of fuel and a page that keeps another block in use beside the frame's node.
\<close>

theorem alloc_kpages_pops_frame:
  assumes "kp_ok s prs free (n # ns)" "p \<in> set prs" "blk s p = 0" "n \<in> blocks s p" "n \<notin> set (free p)"
    and "Suc (length (free p)) < 256" "frames s (n # ns) = f # fs"
  shows "\<exists>s'. alloc_kpages (Suc k) 1 s = Inr (PADDR_TO_KVADDR (f * 4096), s') \<and>
    kp_ok s' prs (free(p := n # free p)) ns \<and> frames s' ns = fs \<and>
    Valid (main_PG s' ! unat f) \<and> (\<forall>a. a AND PAGE_FRAME = PADDR_TO_KVADDR (f * 4096) \<longrightarrow> mem s' a = 0)"
proof -
  let ?s = "popped s p n (frame_number s n)"
  have f: "f = frame_number s n" "fs = frames s ns"
    using assms(7) by (simp_all add: frames_def)
  have wf: "pt_wf s" and ff: "f < PAGETABLE_ENTRY s"
    using assms(1) f by (auto simp: kp_ok_def frame_free_def)
  note lt = pt_less_u32 [OF wf ff]
  have "Valid (main_PG ?s ! unat f)"
    using lt by (simp add: f(1) popped_main_PG)
  moreover have "mem ?s a = 0" if "a AND PAGE_FRAME = PADDR_TO_KVADDR (f * 4096)" for a
    using that lt f(1) by (simp add: popped_def Let_def PADDR_TO_KVADDR_def zero_page_apply frame_kpage(1))
  ultimately show ?thesis
    using alloc_kpages_pop [OF assms(1-6), of k] popped_ok [OF assms(1-6)] f by (intro exI [of _ ?s]) simp
qed

theorem alloc_kpages_pops_frame_witness:
  "\<exists>s'. alloc_kpages 1 1 example_heap = Inr (0x80004000, s') \<and> frames s' [0x80002010] = [5]"
proof -
  have b: "0x80002000 \<in> blocks example_heap 0x80003000"
    by (rule example_heap_blocks [of 0]) simp_all
  have "frames example_heap [0x80002000, 0x80002010] = [4, 5]"
    by (simp add: frames_def frame_number_def example_heap_sel)
  from alloc_kpages_pops_frame [OF example_kp_ok _ _ b _ _ this, of 0] show ?thesis
    by (auto simp: example_heap_layout example_free_def PADDR_TO_KVADDR_def)
qed

text \<open>
  C18: Freeing a kernel page puts its frame at the front of the free list: the node is a
  free block of the heap, the other free frames keep their order, the frame is no longer
  valid, and the invariant holds again. This needs one level of fuel and a heap page with a
  free block of the smallest size.
\<close>

theorem free_kpages_pushes_frame:
  assumes "kp_ok s prs free nodes" "releasable s prs f" "pt_pid (main_PG s ! unat f) = 0"
    and "find (\<lambda>p. blk s p = 0 \<and> free p \<noteq> []) prs = Some p"
  shows "\<exists>b fs s'. free p = b # fs \<and> free_kpages (Suc k) (PADDR_TO_KVADDR (f * 4096)) s = Inr s' \<and>
    kp_ok s' prs (free(p := fs)) (b # nodes) \<and> frames s' (b # nodes) = f # frames s nodes \<and>
    \<not> Valid (main_PG s' ! unat f)"
proof -
  have p: "p \<in> set prs" "blk s p = 0" "free p \<noteq> []"
    using assms(4) by (auto simp: find_Some_iff)
  then obtain b fs where fp: "free p = b # fs"
    by (cases "free p") auto
  let ?r = "released s f (f * 4096 + MIPS_KSEG0)"
  note r = released_ok [OF assms(1,2)]
  have lt: "unat f < length (main_PG s)"
    using pt_less_u32 [of s f] assms(1,2) by (simp add: kp_ok_def releasable_def)
  have "kp_ok (pushed ?r p b fs f) prs (free(p := fs)) (b # nodes)"
    "frames (pushed ?r p b fs f) (b # nodes) = f # frames ?r nodes"
    using pushed_ok [OF r(1) p(1) _ fp r(3)] r(2,4) p(2) by simp_all
  moreover have "\<not> Valid (main_PG (pushed ?r p b fs f) ! unat f)"
    using lt by (simp add: released_def)
  ultimately show ?thesis
    using free_kpages_push [OF assms, of k] fp r(2) by (auto simp: PADDR_TO_KVADDR_def)
qed

theorem free_kpages_pushes_frame_witness:
  "\<exists>s'. free_kpages 1 0x80006000 example_heap = Inr s' \<and>
     frames s' [0x80002030, 0x80002000, 0x80002010] = [6, 4, 5]"
proof -
  have r: "releasable example_heap example_prs 6" "pt_pid (main_PG example_heap ! unat (6 :: u32)) = 0"
    by (simp_all add: releasable_def example_heap_layout frame_of_def example_heap_sel example_entry_def)
  have f: "find (\<lambda>p. blk example_heap p = 0 \<and> example_free p \<noteq> []) example_prs = Some 0x80003000"
    by (simp add: example_heap_layout example_free_def)
  have "frames example_heap [0x80002000, 0x80002010] = [4, 5]"
    by (simp add: frames_def frame_number_def example_heap_sel)
  then show ?thesis
    using free_kpages_pushes_frame [OF example_kp_ok r f, of 0] by (auto simp: example_free_def PADDR_TO_KVADDR_def)
qed

end
