(* ===== verification/Swap_Correct.thy ===== *)
theory Swap_Correct
  imports Swapfile Kernel_Frame Kpages_Correct
begin

text \<open>
  Correctness of the swap file: the table of slots, and the transfer of a page to the file
  and back.
\<close>

section \<open>The table of slots\<close>

definition sf_free :: "list_param \<Rightarrow> bool" where
  "sf_free e \<longleftrightarrow> p_number e = 0 \<and> p_pid e = 0"

text \<open>Slot \<open>i\<close> owns page \<open>i\<close> of the file, and a free slot is not marked dirty.\<close>

definition sf_wf :: "'a vm_state_scheme \<Rightarrow> bool" where
  "sf_wf s \<longleftrightarrow> length (sf_list s) = SWAPFILE_SIZE \<and>
     (\<forall>i<SWAPFILE_SIZE. p_offset (sf_list s ! i) = of_nat i \<and>
        (sf_free (sf_list s ! i) \<longrightarrow> \<not> sf_Dirty (sf_list s ! i)))"

lemma sf_pageSearch_find:
  "length (sf_list s) = SWAPFILE_SIZE \<Longrightarrow> sf_pageSearch p pid s =
     Inr (case find (\<lambda>i. p_number (sf_list s ! i) = p \<and> p_pid (sf_list s ! i) = pid) [0..<SWAPFILE_SIZE] of
            None \<Rightarrow> noEntryFound | Some i \<Rightarrow> int i)"
  unfolding sf_pageSearch_def
  by (subst rfind_find [of _ _ "\<lambda>i. p_number (sf_list s ! i) = p \<and> p_pid (sf_list s ! i) = pid"])
    (auto split: option.splits)

lemma sf_freeSearch_find:
  "length (sf_list s) = SWAPFILE_SIZE \<Longrightarrow> sf_freeSearch s =
     Inr (case find (\<lambda>i. sf_free (sf_list s ! i)) [0..<SWAPFILE_SIZE] of None \<Rightarrow> noEntryFound | Some i \<Rightarrow> int i)"
  unfolding sf_freeSearch_def
  by (subst rfind_find [of _ _ "\<lambda>i. sf_free (sf_list s ! i)"]) (auto simp: sf_free_def split: option.splits)

section \<open>What the frame list depends on\<close>

lemma kp_ok_cong:
  assumes len: "length (main_PG s') = length (main_PG s)" and n: "PAGETABLE_ENTRY s' = PAGETABLE_ENTRY s"
    and val: "\<And>j. j < unat (PAGETABLE_ENTRY s) \<Longrightarrow> Valid (main_PG s' ! j) = Valid (main_PG s ! j)"
    and eqs: "main_PG_addr s' = main_PG_addr s" "prefs s' = prefs s" "allbase s' = allbase s" "sizebases s' = sizebases s"
      "mem s' = mem s" "frame_list s' = frame_list s" "VM_Started s' = VM_Started s"
  shows "kp_ok s' prs free nodes = kp_ok s prs free nodes"
proof -
  have l: "pr_page s' = pr_page s" "blk s' = blk s" "blocks s' = blocks s"
    using layout_cong [of s' s] eqs(2) by simp_all
  have h: "heap_ok s' prs free = heap_ok s prs free"
    by (rule heap_ok_cong) (simp_all add: eqs)
  have nf: "next_frame s' = next_frame s" "frame_number s' = frame_number s"
    by (simp_all add: fun_eq_iff next_frame_def frame_number_def eqs)
  have no: "node_ok s' = node_ok s"
    by (simp add: fun_eq_iff node_ok_def l)
  have ff: "frame_free s' = frame_free s"
    using val by (auto simp: fun_eq_iff frame_free_def n eqs word_less_nat_alt)
  have wf: "pt_wf s' = pt_wf s"
    by (simp add: pt_wf_def len n)
  have "(frame_of a < length (main_PG s') \<and> Valid (main_PG s' ! frame_of a)) =
      (frame_of a < length (main_PG s) \<and> Valid (main_PG s ! frame_of a))" if "pt_wf s" for a
    using that val [of "frame_of a"] by (auto simp: len pt_wf_def)
  then show ?thesis
    unfolding kp_ok_def l h nf no ff wf eqs by blast
qed

lemma tlb_keeps:
  "tlb s' = tlb s \<Longrightarrow> tlb_view s' = tlb_view s"
  by (simp add: fun_eq_iff tlb_view_def tlb_holds_def)

lemma user_page:
  assumes "(p :: u32) < 0x80000"
  shows "p * 4096 < MIPS_KSEG0" "p * 4096 div PAGE_SIZE = p"
proof -
  have "unat p < 0x80000"
    using assms by (simp add: word_less_nat_alt)
  then have "unat (p * 4096) = unat p * 4096"
    by (simp add: unat_word_ariths(2))
  then show "p * 4096 < MIPS_KSEG0"
    using \<open>unat p < 0x80000\<close> by (simp add: word_less_nat_alt)
  show "p * 4096 div PAGE_SIZE = p"
    using \<open>unat p < 0x80000\<close> by (intro page_times_size) simp
qed

text \<open>Freeing the frame of a user page: its translation is evicted first.\<close>

definition evicted :: "u32 \<Rightarrow> 'a kheap_state_scheme \<Rightarrow> 'a kheap_state_scheme" where
  "evicted p s = (case find (\<lambda>i. tlb_holds s i p) [0..<NUM_TLB] of None \<Rightarrow> s | Some i \<Rightarrow> tlb_clear_slot i s)"

lemma evicted_fields [simp]:
  "main_PG (evicted p s) = main_PG s" "mem (evicted p s) = mem s" "prefs (evicted p s) = prefs s"
  "PAGETABLE_ENTRY (evicted p s) = PAGETABLE_ENTRY s" "main_PG_addr (evicted p s) = main_PG_addr s"
  "allbase (evicted p s) = allbase s" "sizebases (evicted p s) = sizebases s"
  "frame_list (evicted p s) = frame_list s" "VM_Started (evicted p s) = VM_Started s"
  "kheap_state.more (evicted p s) = kheap_state.more s" "kp_ok (evicted p s) prs free nodes = kp_ok s prs free nodes"
  by (simp_all add: evicted_def split: option.split) (simp_all add: tlb_clear_slot_def)

lemma free_kpages_user:
  assumes ok: "kp_ok s prs free nodes" and f: "releasable s prs f" and u: "pt_pid (main_PG s ! unat f) \<noteq> 0"
    and v: "tlb_inv s" "page_number (main_PG s ! unat f) < 0x80000"
    and p: "find (\<lambda>p. blk s p = 0 \<and> free p \<noteq> []) prs = Some p"
  defines "t \<equiv> evicted (page_number (main_PG s ! unat f)) s"
  shows "free_kpages (Suc n) (f * 4096 + MIPS_KSEG0) s =
      Inr (pushed (released t f (f * 4096 + MIPS_KSEG0)) p (hd (free p)) (tl (free p)) f)"
    "tlb_inv t" "tlb_view t = (tlb_view s)(page_number (main_PG s ! unat f) := None)"
proof -
  let ?pn = "page_number (main_PG s ! unat f)"
  note pn = user_page [OF v(2)]
  have r: "removeTLBv1 (?pn * 4096) s = Inr t"
    unfolding removeTLBv1_eq [OF v(1) pn(1)] pn(2) t_def evicted_def ..
  then show "tlb_inv t" "tlb_view t = (tlb_view s)(?pn := None)"
    using removeTLBv1_spec [OF v(1) pn(1)] pn(2) by simp_all
  have okt: "kp_ok t prs free nodes"
    using ok by (simp add: t_def)
  have ft: "releasable t prs f"
    using f layout_cong(1) [of t s] by (simp add: releasable_def t_def)
  have h: "heap_ok (released t f (f * 4096 + MIPS_KSEG0)) prs free"
    using released_ok(1) [OF okt ft] by (simp add: kp_ok_def)
  have "find (\<lambda>p. blk (released t f (f * 4096 + MIPS_KSEG0)) p = 0 \<and> free p \<noteq> []) prs = Some p"
    using p layout_cong(2) [of t s] by (simp add: t_def)
  then have "addToFrameList_with (kmalloc_with (alloc_kpages n) (free_kpages n)) f addTOP
      (released t f (f * 4096 + MIPS_KSEG0)) =
      Inr (0, pushed (released t f (f * 4096 + MIPS_KSEG0)) p (hd (free p)) (tl (free p)) f)"
    using ft by (intro addToFrameList_push [OF h]) (auto simp: releasable_def less_imp_le)
  then show "free_kpages (Suc n) (f * 4096 + MIPS_KSEG0) s =
      Inr (pushed (released t f (f * 4096 + MIPS_KSEG0)) p (hd (free p)) (tl (free p)) f)"
    using free_kpages_step [OF ok f, of t] r u by (simp add: t_def)
qed

section \<open>A page goes out\<close>

text \<open>The environment when the swap file can be opened and its pages can be read and written.\<close>

definition swap_works :: "'s vfs_env \<Rightarrow> bool" where
  "swap_works env \<longleftrightarrow> env_open env swap_filename = 0 \<and>
     (\<forall>i<SWAPFILE_SIZE. env_swap_read env (of_nat i * PAGE_SIZE) = 0 \<and> env_swap_write env (of_nat i * PAGE_SIZE) = 0)"

text \<open>The swap file and its table once frame \<open>f\<close> is saved in slot \<open>i\<close>.\<close>

definition saved :: "u32 \<Rightarrow> nat \<Rightarrow> 'a vm_state_scheme \<Rightarrow> 'a vm_state_scheme" where
  "saved f i s = (let e = main_PG s ! unat f in
     s\<lparr>swap_file := page_to_file (f * 4096 + MIPS_KSEG0) (of_nat i * PAGE_SIZE) (mem s) (swap_file s),
       sf_list := (sf_list s)[i := (sf_list s ! i)
         \<lparr>p_number := page_number e, p_pid := ucast (pt_pid e), sf_Dirty := Dirty e\<rparr>]\<rparr>)"

lemma saved_fields [simp]:
  "main_PG (saved f i s) = main_PG s" "mem (saved f i s) = mem s" "prefs (saved f i s) = prefs s"
  "PAGETABLE_ENTRY (saved f i s) = PAGETABLE_ENTRY s" "main_PG_addr (saved f i s) = main_PG_addr s"
  "allbase (saved f i s) = allbase s" "sizebases (saved f i s) = sizebases s"
  "frame_list (saved f i s) = frame_list s" "VM_Started (saved f i s) = VM_Started s" "tlb (saved f i s) = tlb s"
  "tlb_inv (saved f i s) = tlb_inv s" "tlb_view (saved f i s) = tlb_view s"
  "kp_ok (saved f i s) prs free nodes = kp_ok s prs free nodes"
proof -
  show sel: "main_PG (saved f i s) = main_PG s" "mem (saved f i s) = mem s" "prefs (saved f i s) = prefs s"
    "PAGETABLE_ENTRY (saved f i s) = PAGETABLE_ENTRY s" "main_PG_addr (saved f i s) = main_PG_addr s"
    "allbase (saved f i s) = allbase s" "sizebases (saved f i s) = sizebases s"
    "frame_list (saved f i s) = frame_list s" "VM_Started (saved f i s) = VM_Started s" "tlb (saved f i s) = tlb s"
    by (simp_all add: saved_def Let_def)
  show "tlb_inv (saved f i s) = tlb_inv s"
    by (simp add: saved_def Let_def tlb_inv_def)
  show "tlb_view (saved f i s) = tlb_view s"
    by (rule tlb_keeps) (rule sel)
  show "kp_ok (saved f i s) prs free nodes = kp_ok s prs free nodes"
    by (rule kp_ok_cong) (simp_all add: sel)
qed

text \<open>A frame whose page can go to the swap file: it belongs to a process and holds a user page.\<close>

definition swappable :: "'a vm_state_scheme \<Rightarrow> u32 list \<Rightarrow> u32 \<Rightarrow> bool" where
  "swappable s prs f \<longleftrightarrow> releasable s prs f \<and> pt_pid (main_PG s ! unat f) \<noteq> 0 \<and>
     page_number (main_PG s ! unat f) \<noteq> 0 \<and> page_number (main_PG s ! unat f) < 0x80000"

lemma swapOut_eq:
  assumes ok: "kp_ok s prs free nodes" and f: "swappable s prs f" and t: "tlb_inv s"
    and q: "find (\<lambda>p. blk s p = 0 \<and> free p \<noteq> []) prs = Some q"
    and sf: "sf_wf s" "find (\<lambda>i. sf_free (sf_list s ! i)) [0..<SWAPFILE_SIZE] = Some i" and env: "swap_works env"
  defines "s1 \<equiv> evicted (page_number (main_PG s ! unat f)) (saved f i s)"
  shows "swapOut (Suc n) env (f * 4096 + MIPS_KSEG0) s =
      Inr (0, pushed (released s1 f (f * 4096 + MIPS_KSEG0)) q (hd (free q)) (tl (free q)) f)"
    "tlb_inv s1" "tlb_view s1 = (tlb_view s)(page_number (main_PG s ! unat f) := None)"
proof -
  have fr: "releasable s prs f" and u: "pt_pid (main_PG s ! unat f) \<noteq> 0" "page_number (main_PG s ! unat f) < 0x80000"
    using f by (simp_all add: swappable_def)
  have r: "releasable (saved f i s) prs f"
    using fr layout_cong(1) [of "saved f i s" s] by (simp add: releasable_def)
  have q': "find (\<lambda>p. blk (saved f i s) p = 0 \<and> free p \<noteq> []) prs = Some q"
    using q layout_cong(2) [of "saved f i s" s] by simp
  note fk = free_kpages_user [of "saved f i s" prs free nodes f q, unfolded saved_fields, OF ok r u(1) t u(2) q']
  show "tlb_inv s1" "tlb_view s1 = (tlb_view s)(page_number (main_PG s ! unat f) := None)"
    using fk(2,3) by (simp_all add: s1_def)
  have i: "i < SWAPFILE_SIZE" and len: "length (sf_list s) = SWAPFILE_SIZE" and off: "p_offset (sf_list s ! i) = of_nat i"
    using sf by (auto simp: sf_wf_def find_upt_Some_iff)
  have lt: "unat f < length (main_PG s)" "frame_of (f * 4096 + MIPS_KSEG0) = unat f"
    using ok fr pt_less_u32 [of s f] frame_kpage(2) [of f] by (auto simp: kp_ok_def releasable_def)
  have "sf_freeSearch s = Inr (int i)"
    using sf_freeSearch_find [OF len] sf(2) by simp
  then show "swapOut (Suc n) env (f * 4096 + MIPS_KSEG0) s =
      Inr (0, pushed (released s1 f (f * 4096 + MIPS_KSEG0)) q (hd (free q)) (tl (free q)) f)"
    using fk(1) [of n] i len off lt env
    by (simp add: swapOut_def swap_works_def Let_def frame_of_def saved_def s1_def)
qed

section \<open>A page comes in\<close>

lemma tlb_write_heap: "tlb_write h l i s = Inr s' \<Longrightarrow> mem s' = mem s" for s :: "'a kheap_state_scheme"
  by (auto simp: tlb_write_def arr_set_def elim!: rbindE split: if_splits)

lemma addTLB_heap: "addTLB v p s = Inr s' \<Longrightarrow> mem s' = mem s" for s :: "'a kheap_state_scheme"
  by (auto simp: addTLB_def addTLB_write_def tlb_get_rr_victim_def Let_def
        elim!: rbindE split: option.splits if_splits dest!: tlb_write_heap)

lemma still_swap:
  "still s' = still s \<Longrightarrow> sf_list s' = sf_list s \<and> swap_file s' = swap_file s" for s s' :: "'a vm_state_scheme"
  by (cases s; cases s') (simp add: still_def)

lemma popped_tlb [simp]: "tlb (popped s p n f) = tlb s" "tlb_inv (popped s p n f) = tlb_inv s"
    "tlb_view (popped s p n f) = tlb_view s"
proof -
  show t: "tlb (popped s p n f) = tlb s"
    by (simp add: popped_def give_block_def Let_def)
  show "tlb_inv (popped s p n f) = tlb_inv s"
    by (simp add: popped_def give_block_def Let_def tlb_inv_def)
  show "tlb_view (popped s p n f) = tlb_view s"
    by (rule tlb_keeps) (rule t)
qed

lemma addTLB_loads:
  assumes "pt_wf s" "tlb_inv s" "v < MIPS_KSEG0" "tlb_view s (v div PAGE_SIZE) = None"
    "addTLB_frame v pid s = Inr (Some f)"
  shows "\<exists>s' w. addTLB v pid s = Inr s' \<and> tlb_inv s' \<and> main_PG s' = main_PG s \<and>
    tlb_view s' (v div PAGE_SIZE) = Some (of_nat f * PAGE_SIZE, w)"
  using addTLB_spec [OF assms] by (cases "freeTLBEntries s \<noteq> 0") auto

text \<open>A page enters the page table at an available frame and is loaded in the TLB.\<close>

lemma enter_and_load:
  fixes s :: "'a vm_state_scheme"
  assumes wf: "pt_wf s" and t: "tlb_inv s" "tlb_view s pn = None" and absent: "\<And>j. \<not> pt_holds s j pn"
    and f: "pt_available s (unat f)" and pn: "pn < 0x80000"
  shows "\<exists>s1 s2. addPT f (pn * 4096) (ucast (pid :: u8)) d s = Inr s1 \<and> addTLB (pn * 4096) (ucast pid) s1 = Inr s2 \<and>
    main_PG s2 = (main_PG s)[unat f := (main_PG s ! unat f)\<lparr>page_number := pn, Valid := True, pt_pid := pid, Dirty := d\<rparr>] \<and>
    tlb_inv s2 \<and> (\<exists>w. tlb_view s2 pn = Some (f * 4096, w)) \<and> mem s2 = mem s \<and> still s2 = still s"
proof -
  note pg = user_page [OF pn]
  have flen: "unat f < length (main_PG s)"
    using f by (simp add: pt_available_def)
  let ?e = "(main_PG s ! unat f)\<lparr>page_number := pn, Valid := True, pt_pid := pid, Dirty := d\<rparr>"
  let ?s1 = "s\<lparr>main_PG := (main_PG s)[unat f := ?e]\<rparr>"
  have a: "addPT f (pn * 4096) (ucast pid) d s = Inr ?s1"
    using addPT_available [OF f, of "pn * 4096" "ucast pid" d] by (simp add: pg(2))
  have holds: "pt_holds ?s1 j pn \<longleftrightarrow> j = unat f" for j
    using absent [of j] pg(2) by (simp add: addPT_holds [OF a])
  have t1: "tlb_inv ?s1" "tlb_view ?s1 (pn * 4096 div PAGE_SIZE) = None" "pt_wf ?s1"
    using t wf tlb_keeps [of ?s1 s] by (simp_all add: tlb_inv_def pg(2) pt_wf_def)
  have "addTLB_frame (pn * 4096) (ucast pid) ?s1 = Inr (Some (unat f))"
    unfolding addTLB_frame_find [OF t1(3)] pg(2) holds using flen
    by (simp add: find_upt_unique cong: conj_cong)
  from addTLB_loads [OF t1(3,1) pg(1) t1(2) this] obtain s2 w
    where s2: "addTLB (pn * 4096) (ucast pid) ?s1 = Inr s2" "tlb_inv s2" "main_PG s2 = main_PG ?s1"
      "tlb_view s2 pn = Some (of_nat (unat f) * PAGE_SIZE, w)"
    unfolding pg(2) by blast
  show ?thesis
    using a s2 addTLB_heap [OF s2(1)] addTLB_still [OF s2(1)] by simp
qed

lemma swapIn_spec:
  assumes ok: "kp_ok s prs free (n # ns)" and p: "p \<in> set prs" "blk s p = 0" "n \<in> blocks s p" "n \<notin> set (free p)"
    and keep: "Suc (length (free p)) < 256"
    and t: "tlb_inv s" "tlb_view s pn = None" and absent: "\<And>j. \<not> pt_holds s j pn"
    and e: "i < length (sf_list s)" "p_number (sf_list s ! i) = pn" "p_pid (sf_list s ! i) = ucast (pid :: u8)"
      "p_offset (sf_list s ! i) = of_nat i" "pn \<noteq> 0" "pn < 0x80000" "i < SWAPFILE_SIZE"
    and env: "swap_works env"
  defines "f \<equiv> frame_number s n"
  shows "\<exists>s'. swapIn (Suc k) env (int i) s = Inr (0, s') \<and>
    mem s' = file_to_page (f * 4096 + MIPS_KSEG0) (of_nat i * PAGE_SIZE) (swap_file s) (mem (popped s p n f)) \<and>
    main_PG s' = (main_PG s)[unat f := \<lparr>Dirty = sf_Dirty (sf_list s ! i), Valid = True, pt_pid = pid,
      page_number = pn, victim_counter = ucast (pt_counter s + 1)\<rparr>] \<and>
    sf_list s' = (sf_list s)[i := (sf_list s ! i)\<lparr>p_number := 0, p_pid := 0, sf_Dirty := False\<rparr>] \<and>
    swap_file s' = swap_file s \<and> tlb_inv s' \<and> (\<exists>w. tlb_view s' pn = Some (f * 4096, w))"
proof -
  let ?s1 = "popped s p n f" and ?v = "pn * 4096"
  have f: "f < PAGETABLE_ENTRY s" "unat f < length (main_PG s)" "unat f < 2 ^ 17"
    using ok pt_less_u32 [of s f] by (auto simp: kp_ok_def frame_free_def f_def)
  have wf: "pt_wf s" using ok by (simp add: kp_ok_def)
  note pg = user_page [OF e(6)]
  have pt1: "main_PG ?s1 = (main_PG s)[unat f := (main_PG s ! unat f)
       \<lparr>Valid := True, pt_pid := 0, page_number := 0, victim_counter := ucast (pt_counter s + 1)\<rparr>]"
    by (simp add: popped_def give_block_def Let_def)
  have al: "alloc_kpages (Suc k) 1 s = Inr (f * 4096 + MIPS_KSEG0, ?s1)"
    using alloc_kpages_pop [OF ok p keep] by (simp add: f_def PADDR_TO_KVADDR_def)
  have av: "pt_available ?s1 (unat f)" "pt_wf ?s1" "\<not> pt_holds ?s1 j pn" for j
    using f(2) wf absent [of j] e(5) by (auto simp: pt_available_def pt_wf_def pt1 pt_holds_def nth_list_update)
  obtain s2 s3 where s23: "addPT f ?v (ucast pid) (sf_Dirty (sf_list s ! i)) ?s1 = Inr s2" "addTLB ?v (ucast pid) s2 = Inr s3"
      "main_PG s3 = (main_PG ?s1)[unat f := (main_PG ?s1 ! unat f)
         \<lparr>page_number := pn, Valid := True, pt_pid := pid, Dirty := sf_Dirty (sf_list s ! i)\<rparr>]"
      "tlb_inv s3" "\<exists>w. tlb_view s3 pn = Some (f * 4096, w)" "mem s3 = mem ?s1" "still s3 = still ?s1"
    using enter_and_load [of ?s1 pn f pid "sf_Dirty (sf_list s ! i)"] av t e(6) by auto
  have more: "sf_list s3 = sf_list s" "swap_file s3 = swap_file s" "sf_list ?s1 = sf_list s"
    using still_swap [OF s23(7)] still_swap [OF kp.al_still [OF al]] by simp_all
  have sh: "f * 4096 div PAGE_SIZE = f" "f * 4096 + MIPS_KSEG0 \<noteq> 0"
    using frame_kpage [OF f(3)] by (auto simp: frame_of_def kpage_def word_unat_eq_iff [of "_ div _"])
  let ?s4 = "s3\<lparr>mem := file_to_page (f * 4096 + MIPS_KSEG0) (of_nat i * PAGE_SIZE) (swap_file s) (mem ?s1),
    sf_list := (sf_list s)[i := (sf_list s ! i)\<lparr>p_number := 0, p_pid := 0, sf_Dirty := False\<rparr>]\<rparr>"
  have "swapIn (Suc k) env (int i) s = Inr (0, ?s4)"
    using al sh e env s23(1,2,6) more by (simp add: swapIn_def Let_def swap_works_def)
  moreover have "main_PG ?s4 = (main_PG s)[unat f := \<lparr>Dirty = sf_Dirty (sf_list s ! i), Valid = True, pt_pid = pid,
      page_number = pn, victim_counter = ucast (pt_counter s + 1)\<rparr>]"
    using f(2) by (cases "main_PG s ! unat f") (simp add: s23(3) pt1)
  moreover have "tlb_inv ?s4" "\<exists>w. tlb_view ?s4 pn = Some (f * 4096, w)"
    using s23(4,5) tlb_keeps [of ?s4 s3] by (simp_all add: tlb_inv_def)
  ultimately show ?thesis
    using more(2) by (intro exI [of _ ?s4]) simp
qed

section \<open>Out and in again\<close>

lemma file_page_roundtrip:
  "file_to_page a off (page_to_file a off m d) m' x = (if x - a < PAGE_SIZE then m x else m' x)"
  by (simp add: file_to_page_def page_to_file_def)

lemma pushed_tlb [simp]: "tlb (pushed s p b fs f) = tlb s" "tlb_inv (pushed s p b fs f) = tlb_inv s"
    "tlb_view (pushed s p b fs f) = tlb_view s"
proof -
  show t: "tlb (pushed s p b fs f) = tlb s"
    by (simp add: pushed_def take_block_def Let_def)
  show "tlb_inv (pushed s p b fs f) = tlb_inv s"
    by (simp add: pushed_def take_block_def Let_def tlb_inv_def)
  show "tlb_view (pushed s p b fs f) = tlb_view s"
    by (rule tlb_keeps) (rule t)
qed

lemma released_tlb [simp]: "tlb (released s f a) = tlb s" "tlb_inv (released s f a) = tlb_inv s"
    "tlb_view (released s f a) = tlb_view s"
proof -
  show t: "tlb (released s f a) = tlb s"
    by (simp add: released_def)
  show "tlb_inv (released s f a) = tlb_inv s"
    by (simp add: released_def tlb_inv_def)
  show "tlb_view (released s f a) = tlb_view s"
    by (rule tlb_keeps) (rule t)
qed

text \<open>The state \<open>swapOut\<close> leaves, ready for the next allocation to take the same frame.\<close>

lemma swapped_out:
  fixes s :: "'a vm_state_scheme"
  assumes ok: "kp_ok s prs free nodes" and f: "swappable s prs f" and un: "pt_unique s"
    and q: "q \<in> set prs" "blk s q = 0" "free q = b # fs" and i: "i < length (sf_list s)"
  defines "a \<equiv> f * 4096 + MIPS_KSEG0" and "e \<equiv> main_PG s ! unat f"
  defines "s1 \<equiv> pushed (released (evicted (page_number e) (saved f i s)) f a) q b fs f"
  shows "kp_ok s1 prs (free(q := fs)) (b # nodes)" "frame_number s1 b = f" "blk s1 q = 0" "b \<in> blocks s1 q"
    "b \<notin> set fs" "\<not> pt_holds s1 j (page_number e)" "pt_counter s1 = pt_counter s"
    "main_PG s1 = (main_PG s)[unat f := e\<lparr>Valid := False, pt_pid := 0, page_number := 0\<rparr>]"
    "sf_list s1 = sf_list (saved f i s)" "swap_file s1 = swap_file (saved f i s)"
proof -
  let ?t = "evicted (page_number e) (saved f i s)"
  have okt: "kp_ok ?t prs free nodes" and lay: "pr_page ?t = pr_page s" "blk ?t = blk s" "blocks ?t = blocks s"
    using ok layout_cong [of ?t s] by simp_all
  have rt: "releasable ?t prs f"
    using f lay by (simp add: swappable_def releasable_def)
  note r = released_ok [OF okt rt, folded a_def]
  have q': "blk (released ?t f a) q = 0"
    using q(2) lay by simp
  note p = pushed_ok [OF r(1) q(1) q' q(3) r(3), unfolded r(2), OF r(4), folded s1_def]
  show "kp_ok s1 prs (free(q := fs)) (b # nodes)" "frame_number s1 b = f"
    using p by (simp_all add: frames_def)
  have "page_ok s q (free q)"
    using ok q(1) by (auto simp: kp_ok_def intro: heap_ok_page)
  then show "b \<in> blocks s1 q" "b \<notin> set fs"
    using q(3) lay path_distinct [of "mem s" "free_head (prefs s q)" "b # fs"] by (simp_all add: page_ok_def s1_def)
  show "blk s1 q = 0"
    using q(2) lay by (simp add: s1_def)
  show pg: "main_PG s1 = (main_PG s)[unat f := e\<lparr>Valid := False, pt_pid := 0, page_number := 0\<rparr>]"
    by (simp add: s1_def released_def e_def)
  have "pt_holds s (unat f) (page_number e)" "page_number e \<noteq> 0"
    using f ok pt_less_u32 [of s f] by (auto simp: pt_holds_def swappable_def releasable_def e_def kp_ok_def)
  then show "\<not> pt_holds s1 j (page_number e)"
    using pt_uniqueD [OF un, of j "page_number e" "unat f"] by (auto simp: pt_holds_def pg nth_list_update)
  show "pt_counter s1 = pt_counter s"
    by (simp add: s1_def pushed_def take_block_def released_def evicted_def saved_def tlb_clear_slot_def Let_def
          split: option.split)
  have "still s1 = still (saved f i s)"
    by (simp add: still_def s1_def pushed_def take_block_def released_def evicted_def tlb_clear_slot_def Let_def
          split: option.split)
  then show "sf_list s1 = sf_list (saved f i s)" "swap_file s1 = swap_file (saved f i s)"
    using still_swap by blast+
qed

text \<open>
  C2: A page that is swapped out and swapped in again is the same page. For a frame of a
  process, \<open>swapOut\<close> returns 0 and afterwards neither the page table nor the TLB knows the page,
  and \<open>swapIn\<close> of the slot it was saved in returns 0 and restores it: every word of the page, its
  entry in the page table (but for the age) and the table of slots are as before, and
  the TLB translates the page to its frame. The hypotheses are the invariants of the
  frame list, the heap and the TLB, a free slot, a free heap block for the node of the freed
  frame, and a swap file that can be read and written.
\<close>

theorem swap_roundtrip:
  assumes "kp_ok s prs free nodes" "swappable s prs f" "pt_unique s" "tlb_inv s" "sf_wf s" "swap_works env"
    and "find (\<lambda>p. blk s p = 0 \<and> free p \<noteq> []) prs = Some q" "length (free q) < 256"
    and "find (\<lambda>i. sf_free (sf_list s ! i)) [0..<SWAPFILE_SIZE] = Some i"
  defines "a \<equiv> f * 4096 + MIPS_KSEG0" and "e \<equiv> main_PG s ! unat f"
  shows "\<exists>s1 s2. swapOut (Suc n) env a s = Inr (0, s1) \<and>
    pageSearch (page_number e * 4096) s1 = Inr noEntryFound \<and> tlb_view s1 (page_number e) = None \<and>
    swapIn (Suc m) env (int i) s1 = Inr (0, s2) \<and>
    (\<forall>x. x - a < PAGE_SIZE \<longrightarrow> mem s2 x = mem s x) \<and>
    main_PG s2 = (main_PG s)[unat f := e\<lparr>victim_counter := ucast (pt_counter s + 1)\<rparr>] \<and>
    sf_list s2 = sf_list s \<and> (\<exists>w. tlb_view s2 (page_number e) = Some (f * 4096, w))"
proof -
  have "free q \<noteq> []" and q: "q \<in> set prs" "blk s q = 0"
    using assms(7) by (auto simp: find_Some_iff)
  then obtain b fs where b: "free q = b # fs"
    by (cases "free q") auto
  have i: "i < SWAPFILE_SIZE" "sf_free (sf_list s ! i)" "length (sf_list s) = SWAPFILE_SIZE"
      "p_offset (sf_list s ! i) = of_nat i" "\<not> sf_Dirty (sf_list s ! i)"
    using assms(5,9) by (auto simp: sf_wf_def find_upt_Some_iff)
  define s1 where "s1 = pushed (released (evicted (page_number e) (saved f i s)) f a) q b fs f"
  note out = swapOut_eq [OF assms(1,2,4,7,5,9,6), folded a_def e_def, unfolded b list.sel, folded s1_def]
  note st = swapped_out [OF assms(1,2,3) q b, of i, folded a_def e_def, unfolded i(3), OF i(1), folded s1_def]
  have slot: "sf_list s1 ! i = (sf_list s ! i)\<lparr>p_number := page_number e, p_pid := ucast (pt_pid e), sf_Dirty := Dirty e\<rparr>"
      "length (sf_list s1) = SWAPFILE_SIZE"
    using i by (simp_all add: st(9) saved_def Let_def e_def)
  have pe: "page_number e \<noteq> 0" "page_number e < 0x80000"
    using assms(2) by (simp_all add: swappable_def e_def)
  have tl: "tlb_inv s1" "tlb_view s1 (page_number e) = None"
    using out(2,3) by (simp_all add: s1_def)
  have keep: "Suc (length ((free(q := fs)) q)) < 256"
    using assms(8) b by simp
  obtain s2 where s2: "swapIn (Suc m) env (int i) s1 = Inr (0, s2)"
      "mem s2 = file_to_page a (of_nat i * PAGE_SIZE) (swap_file s1) (mem (popped s1 q b f))"
      "main_PG s2 = (main_PG s1)[unat f := \<lparr>Dirty = Dirty e, Valid = True, pt_pid = pt_pid e,
        page_number = page_number e, victim_counter = ucast (pt_counter s + 1)\<rparr>]"
      "sf_list s2 = (sf_list s1)[i := (sf_list s1 ! i)\<lparr>p_number := 0, p_pid := 0, sf_Dirty := False\<rparr>]"
      "\<exists>w. tlb_view s2 (page_number e) = Some (f * 4096, w)"
    using swapIn_spec [OF st(1) q(1) st(3,4) _ keep tl st(6), of i "pt_pid e" env m] slot i pe st(2,5,7) assms(6)
    by (auto simp: a_def)
  have "\<forall>x. x - a < PAGE_SIZE \<longrightarrow> mem s2 x = mem s x"
    by (simp add: s2(2) st(10) saved_def Let_def file_page_roundtrip a_def)
  moreover have "main_PG s2 = (main_PG s)[unat f := e\<lparr>victim_counter := ucast (pt_counter s + 1)\<rparr>]"
    using assms(2) by (cases e) (simp add: s2(3) st(8) swappable_def releasable_def flip: e_def)
  moreover have "sf_list s2 = sf_list s"
    using i by (simp add: s2(4) slot st(9) saved_def Let_def sf_free_def list_update_same_conv)
  moreover have "pageSearch (page_number e * 4096) s1 = Inr noEntryFound"
    using st(1,6) user_page(2) [OF pe(2)] by (simp add: pageSearch_find kp_ok_def find_upt_None_iff split: option.split)
  ultimately show ?thesis
    using out(1) [of n] s2(1,5) tl(2) by (intro exI [of _ s1] exI [of _ s2]) simp
qed

section \<open>An example\<close>

text \<open>
  The machine of \<open>example_heap\<close> where frame 6 holds page 0x10000 of process 2, a page of its data
  segment, and the swap file is empty.
\<close>

definition example_as :: addrspace where
  "example_as = \<lparr>as_vbase_code = 0x400000, as_npages_code = 4, as_npages_code_loaded = 4,
     as_vbase_data = 0x10000000, as_npages_data = 2, as_npages_data_loaded = 2,
     as_vbase_bss = 0, as_vbase_stack = 0x10002000, as_npages_stack = 0\<rparr>"

definition example_page :: invertedPT where
  "example_page = \<lparr>Dirty = True, Valid = True, pt_pid = 2, page_number = 0x10000, victim_counter = 3\<rparr>"

definition example_vm :: vm_state where
  "example_vm = kheap_state.extend
     (example_heap\<lparr>main_PG := (main_PG example_heap)[6 := example_page], curproc_as := Some example_as\<rparr>)
     \<lparr>sf_list = map (\<lambda>i. \<lparr>p_number = 0, p_pid = 0, p_offset = of_nat i, sf_Dirty = False\<rparr>) [0..<SWAPFILE_SIZE],
      swap_file = (\<lambda>_. 0), curproc_as_ptr = 0x80002020, curproc_name = ''prog'', exit_status = 0, TLB_PID = False,
      TLB_Faults = 0, TLB_Faults_wFree = 0, TLB_Faults_wReplace = 0, TLB_Reloads = 0, PF_Zeroed = 0, PF_ELF = 0,
      PF_Disk = 0, PF_Swapfile = 0, SF_Writes = 0\<rparr>"

definition example_env :: "'s vfs_env" where
  "example_env = \<lparr>env_open = (\<lambda>_. 0), env_swap_read = (\<lambda>_. 0), env_swap_write = (\<lambda>_. 0),
     env_elf_read = (\<lambda>_ _. (EIO, [])), env_user_read = (\<lambda>_ _ _ _ _ s. Inr (0, 0, s))\<rparr>"

lemma example_vm_heap:
  "main_PG example_vm = (main_PG example_heap)[6 := example_page]" "PAGETABLE_ENTRY example_vm = 8"
  "main_PG_addr example_vm = 0x80007000" "VM_Started example_vm" "mem example_vm = mem example_heap"
  "prefs example_vm = prefs example_heap" "sizebases example_vm = sizebases example_heap"
  "allbase example_vm = allbase example_heap" "frame_list example_vm = frame_list example_heap"
  "tlb example_vm = invalid_slots" "freeTLBEntries example_vm = 64" "next_victim example_vm = 0"
  "curproc_pid example_vm = 2" "curproc_as example_vm = Some example_as" "pt_counter example_vm = 3"
  by (simp_all add: example_vm_def kheap_state.extend_def example_heap_def)

lemma example_vm_kp: "kp_ok example_vm example_prs example_free [0x80002000, 0x80002010]"
proof -
  have v: "Valid (main_PG example_vm ! j) = Valid (main_PG example_heap ! j)" if "j < 8" for j
    by (cases "j = 6") (simp_all add: example_vm_heap(1), simp add: example_heap_sel example_page_def example_entry_def)
  show ?thesis
    by (subst kp_ok_cong [of _ example_heap])
      (use v example_kp_ok in \<open>simp_all add: example_vm_heap example_heap_sel\<close>)
qed

lemma example_vm_tlb: "tlb_inv example_vm" "tlb_view example_vm p = None"
  using invalid_slots_inv [of example_vm] by (simp_all add: example_vm_heap)

lemma example_vm_swap: "sf_wf example_vm" "sf_free (sf_list example_vm ! 0)" "swap_works example_env"
  by (simp_all add: sf_wf_def sf_free_def swap_works_def example_env_def example_vm_def kheap_state.extend_def)

lemma example_vm_page: "j < 8 \<Longrightarrow> page_number (main_PG example_vm ! j) = (if j = 6 then 0x10000 else 0)"
proof (cases "j = 6")
  case False
  assume "j < 8"
  then have "page_number (main_PG example_heap ! j) = 0"
    unfolding example_heap_sel by (subst nth_map) (simp_all add: example_entry_def)
  then show ?thesis
    using False by (simp add: example_vm_heap(1))
qed (simp add: example_vm_heap(1) example_heap_sel example_page_def)

lemma example_vm_unique: "pt_unique example_vm"
proof -
  have "length (main_PG example_vm) = 8"
    by (simp add: example_vm_heap(1) example_heap_sel)
  then show ?thesis
    by (auto simp: pt_unique_def example_vm_page split: if_splits)
qed

theorem swap_roundtrip_witness:
  "\<exists>s1 s2. swapOut 1 example_env 0x80006000 example_vm = Inr (0, s1) \<and> swapIn 1 example_env 0 s1 = Inr (0, s2) \<and>
     (\<forall>x. x - 0x80006000 < PAGE_SIZE \<longrightarrow> mem s2 x = mem example_vm x) \<and> sf_list s2 = sf_list example_vm"
proof -
  have lay: "blk example_vm = blk example_heap" "pr_page example_vm = pr_page example_heap"
    using layout_cong [of example_vm example_heap] by (simp_all add: example_vm_heap)
  have e: "main_PG example_vm ! 6 = example_page"
    by (simp add: example_vm_heap(1) example_heap_sel)
  have r: "swappable example_vm example_prs 6"
    by (simp add: swappable_def releasable_def e lay example_heap_layout frame_of_def example_vm_heap(2,3) example_page_def)
  have q: "find (\<lambda>p. blk example_vm p = 0 \<and> example_free p \<noteq> []) example_prs = Some 0x80003000"
    by (simp add: lay example_heap_layout example_free_def)
  have i: "find (\<lambda>i. sf_free (sf_list example_vm ! i)) [0..<SWAPFILE_SIZE] = Some 0"
    using example_vm_swap(2) by (simp add: find_upt_Some_iff)
  show ?thesis
    using swap_roundtrip [OF example_vm_kp r example_vm_unique example_vm_tlb(1) example_vm_swap(1,3) q _ i, of 0 0]
    by (auto simp: example_free_def)
qed

end
