(* ===== verification/Vm_Correct.thy ===== *)
theory Vm_Correct
  imports Vm Swap_Correct
begin

text \<open>
  Correctness of the fault handler: the translations it installs, the pages it brings back from
  the swap file, and its error returns.
\<close>

section \<open>Counters\<close>

text \<open>The counters, as the part of the state that only the fault handler changes.\<close>

definition counters :: "'a vm_state_scheme \<Rightarrow> u32 \<times> u32 \<times> u32 \<times> u32 \<times> u32 \<times> u32 \<times> u32 \<times> u32" where
  "counters s = (TLB_Faults s, TLB_Faults_wFree s, TLB_Faults_wReplace s, TLB_Reloads s, PF_Zeroed s,
     PF_Disk s, PF_ELF s, PF_Swapfile s)"

lemma still_counters: "still s' = still s \<Longrightarrow> counters s' = counters s"
  for s s' :: "'a vm_state_scheme"
  by (cases s; cases s') (simp add: still_def counters_def)

section \<open>Faults on the example machine\<close>

lemma count_fault_fields [simp]:
  "main_PG (count_fault s) = main_PG s" "PAGETABLE_ENTRY (count_fault s) = PAGETABLE_ENTRY s"
  "curproc_pid (count_fault s) = curproc_pid s" "curproc_as (count_fault s) = curproc_as s"
  "tlb (count_fault s) = tlb s" "freeTLBEntries (count_fault s) = freeTLBEntries s"
  "next_victim (count_fault s) = next_victim s" "mem (count_fault s) = mem s" "sf_list (count_fault s) = sf_list s"
  "swap_file (count_fault s) = swap_file s" "TLB_Reloads (count_fault s) = TLB_Reloads s"
  "PF_Disk (count_fault s) = PF_Disk s" "PF_Zeroed (count_fault s) = PF_Zeroed s"
  "TLB_Faults (count_fault s) = TLB_Faults s + 1" "PF_Swapfile (count_fault s) = PF_Swapfile s"
  "main_PG_addr (count_fault s) = main_PG_addr s" "prefs (count_fault s) = prefs s" "allbase (count_fault s) = allbase s"
  "sizebases (count_fault s) = sizebases s" "frame_list (count_fault s) = frame_list s"
  "VM_Started (count_fault s) = VM_Started s" "pt_counter (count_fault s) = pt_counter s"
  by (simp_all add: count_fault_def Let_def)

lemma example_search: "va div PAGE_SIZE \<noteq> 0 \<Longrightarrow> va div PAGE_SIZE \<noteq> 0x10000 \<Longrightarrow>
    pageSearch va (count_fault example_vm) = Inr noEntryFound"
proof -
  assume v: "va div PAGE_SIZE \<noteq> 0" "va div PAGE_SIZE \<noteq> 0x10000"
  have len: "length (main_PG example_vm) = 8"
    by (simp add: example_vm_heap(1) example_heap_sel)
  have "\<not> pt_holds (count_fault example_vm) j (va div PAGE_SIZE)" for j
    using v example_vm_page [of j] len by (auto simp: pt_holds_def split: if_splits)
  moreover have "pt_wf (count_fault example_vm)"
    using len by (simp add: pt_wf_def example_vm_heap(2))
  ultimately show ?thesis
    using pageSearch_find [of "count_fault example_vm" va] by (simp add: find_upt_None_iff split: option.split)
qed

lemma example_vm_counters: "TLB_Faults example_vm = 0" "TLB_Faults_wFree example_vm = 0" "TLB_Faults_wReplace example_vm = 0"
    "TLB_Reloads example_vm = 0" "PF_Zeroed example_vm = 0" "PF_Disk example_vm = 0" "PF_ELF example_vm = 0"
    "PF_Swapfile example_vm = 0"
  by (simp_all add: example_vm_def kheap_state.extend_def)

text \<open>
  C35: The second check of \<open>print_vm_stat\<close>, (e) + (g) + (f) = (a), is not an invariant: a fault
  at an address outside the code and the data segment whose page is not in memory fails, with
  \<open>EINVAL\<close> for a read and with 1 for a write, and changes nothing but the counters: it counts as a TLB
  fault, with a free TLB entry or without one, and as none of the kinds (e), (f), (g), so that the
  check fails afterwards if it succeeded before.
\<close>

theorem vm_fault_outside_segments:
  assumes "curproc_as s = Some as" "\<not> is_codeSegment va as" "\<not> is_dataSegment va as"
    and "pageSearch va s = Inr noEntryFound" "print_vm_stat s ! 1"
  shows "\<exists>s'. vm_fault n env VM_FAULT_READ va s = Inr (Returned EINVAL s') \<and> vm_fault n env VM_FAULT_WRITE va s = Inr (Returned 1 s') \<and>
    s' = s\<lparr>TLB_Faults := TLB_Faults s + 1, TLB_Faults_wFree := TLB_Faults_wFree s + (if freeTLBEntries s \<noteq> 0 then 1 else 0),
           TLB_Faults_wReplace := TLB_Faults_wReplace s + (if freeTLBEntries s \<noteq> 0 then 0 else 1)\<rparr> \<and>
    \<not> print_vm_stat s' ! 1"
proof -
  have "pageSearch va (count_fault s) = Inr noEntryFound"
    using assms(4) by (simp add: pageSearch_def)
  then have "vm_fault n env VM_FAULT_READ va s = Inr (Returned EINVAL (count_fault s))"
      "vm_fault n env VM_FAULT_WRITE va s = Inr (Returned 1 (count_fault s))"
    using assms(1-3) by (simp_all add: vm_fault_def fault_read_def fault_write_def Let_def)
  moreover have "count_fault s = s\<lparr>TLB_Faults := TLB_Faults s + 1, TLB_Faults_wFree := TLB_Faults_wFree s + (if freeTLBEntries s \<noteq> 0 then 1 else 0),
      TLB_Faults_wReplace := TLB_Faults_wReplace s + (if freeTLBEntries s \<noteq> 0 then 0 else 1)\<rparr>"
    by (cases s) (simp add: count_fault_def Let_def)
  moreover have "\<not> print_vm_stat (count_fault s) ! 1"
    using assms(5) by (simp add: print_vm_stat_def)
  ultimately show ?thesis
    by metis
qed

theorem vm_fault_outside_segments_witness:
  "\<exists>s'. vm_fault 1 example_env VM_FAULT_READ 0x20000000 example_vm = Inr (Returned EINVAL s') \<and>
     vm_fault 1 example_env VM_FAULT_WRITE 0x20000000 example_vm = Inr (Returned 1 s') \<and> TLB_Faults s' = 1 \<and> \<not> print_vm_stat s' ! 1"
proof -
  have seg: "\<not> is_codeSegment 0x20000000 example_as" "\<not> is_dataSegment 0x20000000 example_as"
    by (simp_all add: example_as_def is_codeSegment_def is_dataSegment_def)
  have "pageSearch 0x20000000 example_vm = Inr noEntryFound" "print_vm_stat example_vm ! 1"
    using example_search [of "0x20000000"] by (simp_all add: pageSearch_def print_vm_stat_def example_vm_counters)
  from vm_fault_outside_segments [OF _ seg this, of 1 example_env] show ?thesis
    using example_vm_heap(14) by (auto simp: example_vm_counters)
qed

section \<open>A page that is in memory\<close>

lemma refill:
  assumes ok: "tlb_ok s" and un: "pt_unique s" and va: "va < MIPS_KSEG0" "va div PAGE_SIZE = p" "p \<noteq> 0"
    and none: "tlb_view s p = None" and f: "pt_holds s f p" "ucast (pt_pid (main_PG s ! f)) = pid"
  shows "\<exists>s' w. addTLB va pid s = Inr s' \<and> main_PG s' = main_PG s \<and> tlb_ok s' \<and>
    tlb_view s' p = Some (of_nat f * PAGE_SIZE, w)"
proof -
  have wf: "pt_wf s" and inv: "tlb_inv s"
    using ok by (simp_all add: tlb_ok_def)
  have "find (\<lambda>i. pt_holds s i p \<and> ucast (pt_pid (main_PG s ! i)) = pid) [0..<length (main_PG s)] = Some f"
    using f by (intro find_upt_unique) (auto simp: pt_holds_def intro: pt_uniqueD [OF un _ f(1) va(3)])
  then have "addTLB_frame va pid s = Inr (Some f)"
    by (simp only: addTLB_frame_find [OF wf] va(2))
  from addTLB_loads [OF wf inv va(1) _ this, unfolded va(2), OF none] obtain s' w where s': "addTLB va pid s = Inr s'"
      "main_PG s' = main_PG s" "tlb_view s' p = Some (of_nat f * PAGE_SIZE, w)"
    by blast
  moreover have "tlb_ok s'"
    by (rule tlb_ok_load [OF ok s'(1) va(1), unfolded va(2), OF va(3) none])
  ultimately show ?thesis
    by blast
qed

lemma tlb_ok_cong:
  assumes "tlb s' = tlb s" "freeTLBEntries s' = freeTLBEntries s" "next_victim s' = next_victim s"
    "main_PG s' = main_PG s" "PAGETABLE_ENTRY s' = PAGETABLE_ENTRY s"
  shows "tlb_ok s' = tlb_ok s"
proof -
  have "pt_wf s' = pt_wf s" "tlb_inv s' = tlb_inv s" "pt_holds s' = pt_holds s"
    using assms by (simp_all add: pt_wf_def tlb_inv_def fun_eq_iff pt_holds_def)
  then show ?thesis
    using tlb_keeps [OF assms(1)] by (simp add: tlb_ok_def tlb_coherent_def)
qed

lemma count_fault_tlb [simp]: "tlb_ok (count_fault s) = tlb_ok s" "pt_unique (count_fault s) = pt_unique s"
    "tlb_view (count_fault s) = tlb_view s" "pt_holds (count_fault s) = pt_holds s" "pageSearch va (count_fault s) = pageSearch va s"
    "tlb_inv (count_fault s) = tlb_inv s" "pt_wf (count_fault s) = pt_wf s"
proof -
  show "tlb_view (count_fault s) = tlb_view s"
    by (rule tlb_keeps) simp
  show "tlb_inv (count_fault s) = tlb_inv s" "pt_wf (count_fault s) = pt_wf s" "pt_holds (count_fault s) = pt_holds s"
    by (simp_all add: tlb_inv_def pt_wf_def fun_eq_iff pt_holds_def)
  show "tlb_ok (count_fault s) = tlb_ok s"
    by (rule tlb_ok_cong) simp_all
  show "pt_unique (count_fault s) = pt_unique s" "pageSearch va (count_fault s) = pageSearch va s"
    by (simp_all add: pt_unique_def pageSearch_def)
qed

text \<open>
  C19: The TLB refill. When the page of the faulting user address is in the page table for the
  current process (in a frame above frame 0) and the TLB has no translation for it, a read or a
  write fault returns 0, counts one reload, leaves the page table alone, keeps the
  invariant of the TLB and its coherence with the page table, and the TLB now
  translates the page to its frame.
\<close>

theorem vm_fault_reload:
  assumes "curproc_as s \<noteq> None" "ft = VM_FAULT_READ \<or> ft = VM_FAULT_WRITE" "tlb_ok s" "pt_unique s"
    and "va < MIPS_KSEG0" "va div PAGE_SIZE \<noteq> 0" "tlb_view s (va div PAGE_SIZE) = None"
    and "pt_holds s f (va div PAGE_SIZE)" "f \<noteq> 0" "ucast (pt_pid (main_PG s ! f)) = curproc_pid s"
  shows "\<exists>s' w. vm_fault n env ft va s = Inr (Returned 0 s') \<and> TLB_Reloads s' = TLB_Reloads s + 1 \<and>
    main_PG s' = main_PG s \<and> tlb_ok s' \<and> tlb_view s' (va div PAGE_SIZE) = Some (of_nat f * PAGE_SIZE, w)"
proof -
  let ?s = "count_fault s"
  have wf: "pt_wf s"
    using assms(3) by (simp add: tlb_ok_def)
  have "find (\<lambda>i. pt_holds s i (va div PAGE_SIZE)) [0..<length (main_PG s)] = Some f"
    using assms(8) by (intro find_upt_unique) (auto simp: pt_holds_def intro: pt_uniqueD [OF assms(4) _ assms(8,6)])
  then have ps: "pageSearch va s = Inr (int f)"
    by (simp add: pageSearch_find [OF wf])
  let ?v = "if ft = VM_FAULT_READ then va AND PAGE_FRAME else va"
  have v: "?v < MIPS_KSEG0" "?v div PAGE_SIZE = va div PAGE_SIZE"
    using user_page_frame [OF assms(5)] assms(5) by simp_all
  obtain s' w where s': "addTLB ?v (curproc_pid ?s) ?s = Inr s'" "main_PG s' = main_PG s" "tlb_ok s'"
      "tlb_view s' (va div PAGE_SIZE) = Some (of_nat f * PAGE_SIZE, w)"
    using refill [of ?s ?v "va div PAGE_SIZE" f "curproc_pid s"] assms v by auto
  let ?t = "s'\<lparr>TLB_Reloads := TLB_Reloads s' + 1\<rparr>"
  have "vm_fault n env ft va s = Inr (Returned 0 ?t)"
    using assms(1,2,9) ps s'(1) by (auto simp: vm_fault_def fault_read_def fault_write_def Let_def)
  moreover have "TLB_Reloads s' = TLB_Reloads s"
    using still_counters [OF addTLB_still [OF s'(1)]] by (simp add: counters_def)
  moreover have "tlb_view ?t = tlb_view s'" "tlb_ok ?t"
    using s'(3) tlb_keeps [of ?t s'] tlb_ok_cong [of ?t s'] by simp_all
  ultimately show ?thesis
    using s'(2,4) by (intro exI [of _ ?t] exI [of _ w]) simp
qed

theorem vm_fault_reload_witness:
  "\<exists>s' w. vm_fault 1 example_env VM_FAULT_WRITE 0x10000abc example_vm = Inr (Returned 0 s') \<and>
     tlb_view s' 0x10000 = Some (0x6000, w)"
proof -
  have len: "length (main_PG example_vm) = 8" and e: "main_PG example_vm ! 6 = example_page"
    by (simp_all add: example_vm_heap(1) example_heap_sel)
  have "tlb_ok example_vm"
    using example_vm_tlb len by (simp add: tlb_ok_def tlb_coherent_def pt_wf_def example_vm_heap(2))
  moreover have "pt_holds example_vm 6 (0x10000abc div PAGE_SIZE)" "ucast (pt_pid (main_PG example_vm ! 6)) = curproc_pid example_vm"
    using len by (simp_all add: pt_holds_def e example_page_def example_vm_heap(13))
  ultimately show ?thesis
    using vm_fault_reload [of example_vm VM_FAULT_WRITE "0x10000abc" 6 1 example_env]
      example_vm_unique example_vm_tlb(2) example_vm_heap(14) by auto
qed

section \<open>A page in the swap file\<close>

text \<open>Counters do not matter to the invariants.\<close>

lemma SF_Writes_inv [simp]:
  "kp_ok (s\<lparr>SF_Writes := x\<rparr>) prs free nodes = kp_ok s prs free nodes" "blk (s\<lparr>SF_Writes := x\<rparr>) = blk s"
  "blocks (s\<lparr>SF_Writes := x\<rparr>) = blocks s" "tlb_inv (s\<lparr>SF_Writes := x\<rparr>) = tlb_inv s"
  "tlb_view (s\<lparr>SF_Writes := x\<rparr>) = tlb_view s" "pt_holds (s\<lparr>SF_Writes := x\<rparr>) = pt_holds s"
  "frame_number (s\<lparr>SF_Writes := x\<rparr>) = frame_number s"
proof -
  let ?t = "s\<lparr>SF_Writes := x\<rparr>"
  show "kp_ok ?t prs free nodes = kp_ok s prs free nodes"
    by (rule kp_ok_cong) simp_all
  show "blk ?t = blk s" "blocks ?t = blocks s"
    using layout_cong [of ?t s] by simp_all
  show "tlb_inv ?t = tlb_inv s" "pt_holds ?t = pt_holds s" "frame_number ?t = frame_number s"
    by (simp_all add: tlb_inv_def fun_eq_iff pt_holds_def frame_number_def)
  show "tlb_view ?t = tlb_view s"
    by (rule tlb_keeps) simp
qed

lemma file_slot:
  assumes "(y :: u32) < PAGE_SIZE" "i < SWAPFILE_SIZE"
  shows "unat ((of_nat i * PAGE_SIZE + y) div PAGE_SIZE) = i"
proof -
  have y: "unat y < 4096"
    using assms(1) by (simp add: word_less_nat_alt)
  then have "unat (of_nat i * PAGE_SIZE + y) = i * 4096 + unat y"
    using assms(2) frame_addr_unat [of i] by (simp add: unat_word_ariths(1))
  then show ?thesis
    using y by (simp add: unat_div_page)
qed

lemma page_to_file_other:
  assumes "i < SWAPFILE_SIZE" "j < SWAPFILE_SIZE" "i \<noteq> j" "y < PAGE_SIZE"
  shows "page_to_file a (of_nat i * PAGE_SIZE) m d (of_nat j * PAGE_SIZE + y) = d (of_nat j * PAGE_SIZE + y)"
proof -
  let ?z = "of_nat j * PAGE_SIZE + y - of_nat i * PAGE_SIZE"
  have "\<not> ?z < PAGE_SIZE"
    using file_slot [of ?z i] file_slot [of y j] assms by auto
  then show ?thesis
    by (simp add: page_to_file_def)
qed

lemma read_swap_in_spec:
  fixes s :: "'a vm_state_scheme"
  assumes ok: "kp_ok s prs free nodes" and f: "swappable s prs f" and un: "pt_unique s" and tlb: "tlb_inv s"
    and sf: "sf_wf s" and env: "swap_works env"
    and q: "find (\<lambda>p. blk s p = 0 \<and> free p \<noteq> []) prs = Some q" "length (free q) < 256"
    and i: "find (\<lambda>i. sf_free (sf_list s ! i)) [0..<SWAPFILE_SIZE] = Some i"
    and j: "j < SWAPFILE_SIZE" "p_number (sf_list s ! j) = pn" "p_pid (sf_list s ! j) = ucast (pid :: u8)"
    and pn: "pn \<noteq> 0" "pn < 0x80000" "tlb_view s pn = None" and absent: "\<And>j. \<not> pt_holds s j pn"
    and v: "victim_pageSearch True s = Inr (int (unat f))"
  defines "a \<equiv> f * 4096 + MIPS_KSEG0"
  shows "\<exists>s'. read_swap_in (Suc n) env (int j) s = Inr (Returned 0 s') \<and>
    (\<forall>x. x - a < PAGE_SIZE \<longrightarrow> mem s' x = swap_file s (of_nat j * PAGE_SIZE + (x - a))) \<and>
    pt_holds s' (unat f) pn \<and> (\<exists>w. tlb_view s' pn = Some (f * 4096, w)) \<and> sf_free (sf_list s' ! j) \<and>
    p_number (sf_list s' ! i) = page_number (main_PG s ! unat f) \<and>
    (\<forall>k<PAGE_SIZE. swap_file s' (of_nat i * PAGE_SIZE + k) = mem s (a + k))"
proof -
  have "free q \<noteq> []" and q': "q \<in> set prs" "blk s q = 0"
    using q(1) by (auto simp: find_Some_iff)
  then obtain b fs where b: "free q = b # fs"
    by (cases "free q") auto
  have i': "i < SWAPFILE_SIZE" "sf_free (sf_list s ! i)" "length (sf_list s) = SWAPFILE_SIZE"
    using sf i by (auto simp: sf_wf_def find_upt_Some_iff)
  have ij: "i \<noteq> j" "p_offset (sf_list s ! j) = of_nat j"
    using i'(2) j pn(1) sf by (auto simp: sf_free_def sf_wf_def)
  define e where "e = main_PG s ! unat f"
  define s1 where "s1 = pushed (released (evicted (page_number e) (saved f i s)) f a) q b fs f"
  note out = swapOut_eq [OF ok f tlb q(1) sf i env, folded a_def e_def, unfolded b list.sel, folded s1_def]
  note st = swapped_out [OF ok f un q' b, of i, folded a_def e_def, unfolded i'(3), OF i'(1), folded s1_def]
  have flen: "unat f < length (main_PG s)"
    using f ok pt_less_u32 [of s f] by (auto simp: swappable_def releasable_def kp_ok_def)
  let ?s1 = "s1\<lparr>SF_Writes := SF_Writes s1 + 1\<rparr>"
  have slot: "sf_list s1 ! j = sf_list s ! j" "length (sf_list s1) = SWAPFILE_SIZE"
      "p_number (sf_list s1 ! i) = page_number e"
    using i' ij by (simp_all add: st(9) saved_def Let_def e_def)
  have keep: "Suc (length ((free(q := fs)) q)) < 256"
    using q(2) b by simp
  have tl: "tlb_inv s1" "tlb_view s1 pn = None"
    using out(2,3) pn(3) by (simp_all add: s1_def)
  have ab: "\<not> pt_holds s1 k pn" for k
    using absent [of k] pn(1) by (cases "k = unat f") (auto simp: pt_holds_def st(8))
  obtain s2 where s2: "swapIn (Suc n) env (int j) ?s1 = Inr (0, s2)"
      "mem s2 = file_to_page a (of_nat j * PAGE_SIZE) (swap_file s1) (mem (popped ?s1 q b f))"
      "main_PG s2 = (main_PG s1)[unat f := \<lparr>Dirty = sf_Dirty (sf_list s1 ! j), Valid = True, pt_pid = pid,
        page_number = pn, victim_counter = ucast (pt_counter s + 1)\<rparr>]"
      "sf_list s2 = (sf_list s1)[j := (sf_list s1 ! j)\<lparr>p_number := 0, p_pid := 0, sf_Dirty := False\<rparr>]"
      "swap_file s2 = swap_file s1" "\<exists>w. tlb_view s2 pn = Some (f * 4096, w)"
    using swapIn_spec [of ?s1 prs "free(q := fs)" b nodes q pn j pid env n] st(1-5,7) q'(1) keep tl ab slot ij j pn env
    by (auto simp: a_def)
  let ?s' = "s2\<lparr>PF_Swapfile := PF_Swapfile s2 + 1, PF_Disk := PF_Disk s2 + 1\<rparr>"
  have "read_swap_in (Suc n) env (int j) s = Inr (Returned 0 ?s')"
    using v out(1) [of n] s2(1) by (simp add: read_swap_in_def victim_paddress_def a_def Let_def)
  moreover have "mem ?s' x = swap_file s (of_nat j * PAGE_SIZE + (x - a))" if "x - a < PAGE_SIZE" for x
    using that page_to_file_other [OF i'(1) j(1) ij(1) that]
    by (simp add: s2(2) file_to_page_def st(10) saved_def Let_def)
  moreover have "pt_holds ?s' (unat f) pn"
    using flen by (simp add: pt_holds_def s2(3) st(8))
  moreover have "tlb_view ?s' = tlb_view s2"
    by (rule tlb_keeps) simp
  moreover have "sf_free (sf_list ?s' ! j)" "p_number (sf_list ?s' ! i) = page_number e"
    using slot ij j(1) by (simp_all add: s2(4) sf_free_def)
  moreover have "swap_file ?s' (of_nat i * PAGE_SIZE + k) = mem s (a + k)" if "k < PAGE_SIZE" for k
    using that by (simp add: s2(5) st(10) saved_def Let_def page_to_file_def a_def)
  ultimately show ?thesis
    using s2(6) e_def by (intro exI [of _ ?s']) simp
qed

lemma count_fault_inv [simp]:
  "kp_ok (count_fault s) prs free nodes = kp_ok s prs free nodes" "blk (count_fault s) = blk s"
  "swappable (count_fault s) prs f = swappable s prs f" "sf_wf (count_fault s) = sf_wf s"
  "victim_pageSearch b (count_fault s) = victim_pageSearch b s"
proof -
  show "kp_ok (count_fault s) prs free nodes = kp_ok s prs free nodes"
    by (rule kp_ok_cong) simp_all
  show "blk (count_fault s) = blk s"
    using layout_cong [of "count_fault s" s] by simp
  have "pr_page (count_fault s) = pr_page s"
    using layout_cong [of "count_fault s" s] by simp
  then show "swappable (count_fault s) prs f = swappable s prs f"
    by (simp add: swappable_def releasable_def)
  show "sf_wf (count_fault s) = sf_wf s"
    by (simp add: sf_wf_def)
  have "victim_step b (count_fault s) = victim_step b s"
    unfolding fun_eq_iff victim_step_def count_fault_fields by simp
  then show "victim_pageSearch b (count_fault s) = victim_pageSearch b s"
    by (simp add: victim_pageSearch_def)
qed

text \<open>
  C1: Demand paging from the swap file. A read fault on a page of the data segment that is
  in slot \<open>j\<close> of the swap file returns 0: the frame of the victim now holds the words of slot
  \<open>j\<close>, the page table and the TLB map the faulting page to that frame, slot \<open>j\<close> is free, and the
  page that was evicted is in the first slot that was free, with its words. The
  hypotheses are the invariants of the memory system, that the victim search finds a frame of
  the process, one free slot, one free heap block, and a working swap file.
\<close>

theorem vm_fault_swaps_in:
  assumes "curproc_as s = Some as" "is_dataSegment va as" "\<not> is_codeSegment va as" "va < MIPS_KSEG0" "va div PAGE_SIZE \<noteq> 0"
    and "\<And>k. \<not> pt_holds s k (va div PAGE_SIZE)" "tlb_view s (va div PAGE_SIZE) = None"
    and "kp_ok s prs free nodes" "pt_unique s" "tlb_inv s" "sf_wf s" "swap_works env"
    and "find (\<lambda>i. p_number (sf_list s ! i) = va div PAGE_SIZE \<and> p_pid (sf_list s ! i) = curproc_pid s)
      [0..<SWAPFILE_SIZE] = Some j" "curproc_pid s = ucast (pid :: u8)"
    and "victim_pageSearch True s = Inr (int (unat f))" "swappable s prs f"
    and "find (\<lambda>i. sf_free (sf_list s ! i)) [0..<SWAPFILE_SIZE] = Some i"
    and "find (\<lambda>p. blk s p = 0 \<and> free p \<noteq> []) prs = Some q" "length (free q) < 256"
  defines "a \<equiv> f * 4096 + MIPS_KSEG0"
  shows "\<exists>s'. vm_fault (Suc n) env VM_FAULT_READ va s = Inr (Returned 0 s') \<and>
    (\<forall>x. x - a < PAGE_SIZE \<longrightarrow> mem s' x = swap_file s (of_nat j * PAGE_SIZE + (x - a))) \<and>
    pt_holds s' (unat f) (va div PAGE_SIZE) \<and> (\<exists>w. tlb_view s' (va div PAGE_SIZE) = Some (f * 4096, w)) \<and>
    sf_free (sf_list s' ! j) \<and> p_number (sf_list s' ! i) = page_number (main_PG s ! unat f) \<and>
    (\<forall>k<PAGE_SIZE. swap_file s' (of_nat i * PAGE_SIZE + k) = mem s (a + k))"
proof -
  let ?s = "count_fault s"
  have wf: "pt_wf s" and len: "length (sf_list s) = SWAPFILE_SIZE"
    using assms(8,11) by (simp_all add: kp_ok_def sf_wf_def)
  have j: "j < SWAPFILE_SIZE" "p_number (sf_list s ! j) = va div PAGE_SIZE" "p_pid (sf_list s ! j) = ucast pid"
    using assms(13,14) by (simp_all add: find_upt_Some_iff)
  have "unat va < 0x80000000"
    using assms(4) by (simp add: word_less_nat_alt)
  then have pn: "va div PAGE_SIZE < 0x80000"
    by (simp add: word_less_nat_alt unat_div_page less_mult_imp_div_less)
  have "pageSearch va s = Inr noEntryFound"
    using pageSearch_find [OF wf, of va] assms(6) by (simp add: find_upt_None_iff split: option.split)
  moreover have "swapfile_checkv1 (va div PAGE_SIZE) (curproc_pid s) ?s = Inr (int j)"
    using sf_pageSearch_find [of ?s] assms(13) len by (simp add: swapfile_checkv1_def)
  ultimately have "vm_fault (Suc n) env VM_FAULT_READ va s = read_swap_in (Suc n) env (int j) ?s"
    using assms(1-3) by (simp add: vm_fault_def fault_read_def Let_def)
  moreover have un: "pt_unique ?s" "kp_ok ?s prs free nodes" "swappable ?s prs f" "tlb_inv ?s" "sf_wf ?s"
    using assms(8-11,16) by simp_all
  ultimately show ?thesis
    using read_swap_in_spec [OF un(2,3,1,4,5) assms(12), of q i j "va div PAGE_SIZE" pid n]
      assms(5-7,15,17-19) j pn by (simp add: a_def)
qed

text \<open>The example machine with page 0x10001 of the process in slot 0.\<close>

definition example_swapped :: vm_state where
  "example_swapped = example_vm\<lparr>sf_list := (sf_list example_vm)
     [0 := \<lparr>p_number = 0x10001, p_pid = 2, p_offset = 0, sf_Dirty = True\<rparr>]\<rparr>"

theorem vm_fault_swaps_in_witness:
  "\<exists>s'. vm_fault 1 example_env VM_FAULT_READ 0x10001abc example_swapped = Inr (Returned 0 s') \<and>
     pt_holds s' 6 0x10001 \<and> sf_free (sf_list s' ! 0) \<and> p_number (sf_list s' ! 1) = 0x10000"
proof -
  let ?s = example_swapped
  have sel: "main_PG ?s = main_PG example_vm" "PAGETABLE_ENTRY ?s = 8" "tlb ?s = tlb example_vm" "curproc_pid ?s = 2"
      "curproc_as ?s = Some example_as"
    by (simp_all add: example_swapped_def example_vm_heap(2,13,14))
  have lay: "blk ?s = blk example_heap" "pr_page ?s = pr_page example_heap"
    using layout_cong [of ?s example_heap] by (simp_all add: example_swapped_def example_vm_heap(6))
  have len: "length (main_PG example_vm) = 8" and e: "main_PG example_vm ! 6 = example_page"
    by (simp_all add: example_vm_heap(1) example_heap_sel)
  have wf: "pt_wf ?s"
    by (simp add: pt_wf_def sel len)
  have kp: "kp_ok ?s example_prs example_free [0x80002000, 0x80002010]"
    by (subst kp_ok_cong [of _ example_vm]) (use example_vm_kp in \<open>simp_all add: example_swapped_def\<close>)
  have tlb: "tlb_inv ?s" "tlb_view ?s p = None" for p
    using example_vm_tlb tlb_keeps [OF sel(3)] by (simp_all add: tlb_inv_def example_swapped_def)
  have un: "pt_unique ?s" and r: "swappable ?s example_prs 6"
    using example_vm_unique by (simp_all add: pt_unique_def sel(1) swappable_def releasable_def e lay example_heap_layout
        frame_of_def sel(2) example_page_def, simp add: example_swapped_def example_vm_heap(3))
  have sf: "sf_wf ?s" "sf_list ?s ! 0 = \<lparr>p_number = 0x10001, p_pid = 2, p_offset = 0, sf_Dirty = True\<rparr>" "sf_free (sf_list ?s ! 1)"
    by (simp_all add: sf_wf_def sf_free_def example_swapped_def example_vm_def kheap_state.extend_def nth_list_update)
  have abs: "\<not> pt_holds ?s k (0x10001abc div PAGE_SIZE)" for k
    using example_vm_page [of k] len by (auto simp: pt_holds_def sel(1) split: if_splits)
  have "main_PG ?s = map example_entry [True, True, True, True, False, False] @ [example_page, example_entry True]"
    by (simp add: sel(1) example_vm_heap(1) example_heap_sel)
  then have v: "victim_pageSearch True ?s = Inr (int (unat (6 :: u32)))"
    by (simp add: victim_pageSearch_def victim_step_def victim_segment_def is_dataSegment_def example_as_def sel(2,4,5)
          example_entry_def example_page_def eval_simps)
  have f: "find (\<lambda>i. p_number (sf_list ?s ! i) = 0x10001abc div PAGE_SIZE \<and> p_pid (sf_list ?s ! i) = curproc_pid ?s)
      [0..<SWAPFILE_SIZE] = Some 0" "find (\<lambda>i. sf_free (sf_list ?s ! i)) [0..<SWAPFILE_SIZE] = Some 1"
      "find (\<lambda>p. blk ?s p = 0 \<and> example_free p \<noteq> []) example_prs = Some 0x80003000"
    using sf by (simp_all add: find_upt_Some_iff sel(4) sf_free_def lay example_heap_layout example_free_def less_Suc_eq)
  have seg: "is_dataSegment 0x10001abc example_as" "\<not> is_codeSegment 0x10001abc example_as"
    by (simp_all add: is_dataSegment_def is_codeSegment_def example_as_def)
  show ?thesis
    using vm_fault_swaps_in [OF sel(5) seg _ _ abs tlb(2) kp un tlb(1) sf(1) example_vm_swap(3) f(1), of 2 6 1 "0x80003000" 0]
      v r f(2,3) by (auto simp: sel(1,4) e example_page_def example_free_def)
qed

end
