(* ===== verification/Coherence.thy ===== *)
theory Coherence
  imports Swap_Correct Addrspace
begin

text \<open>
  Coherence of the TLB with the page table under everything that changes either of them: pages
  entered and translations loaded, frames allocated, freed, swapped out and in, address spaces
  destroyed and the TLB flushed. The heart of it is \<open>free_kpages\<close>, which evicts the translation of a page
  before it takes the frame away; the kernel heap calls it too, so the argument follows
  the call graph, as in \<open>Kernel_Frame\<close>.
\<close>

lemma in_set_updateD: "x \<in> set (xs[i := y]) \<Longrightarrow> x = y \<or> x \<in> set xs"
  using set_update_subset_insert [of xs i y] by blast

section \<open>The invariant\<close>

text \<open>A page table entry with a page other than page 0 belongs to a process, and the page is a user page.\<close>

definition owned :: "'a pt_state_scheme \<Rightarrow> bool" where
  "owned s \<longleftrightarrow> (\<forall>e\<in>set (main_PG s). page_number e \<noteq> 0 \<longrightarrow> pt_pid e \<noteq> 0 \<and> page_number e < 0x80000)"

text \<open>The TLB is coherent and has no translation outside \<open>V\<close>.\<close>

definition covered :: "(u32 \<Rightarrow> (u32 \<times> bool) option) \<Rightarrow> 'a tlb_state_scheme \<Rightarrow> bool" where
  "covered V s \<longleftrightarrow> tlb_ok s \<and> owned s \<and> tlb_view s \<subseteq>\<^sub>m V"

lemma covered_self: "tlb_ok s \<Longrightarrow> owned s \<Longrightarrow> covered (tlb_view s) s"
  by (simp add: covered_def)

text \<open>It depends on the page table and the TLB only.\<close>

lemma covered_cong:
  assumes "main_PG s' = main_PG s" "PAGETABLE_ENTRY s' = PAGETABLE_ENTRY s" "tlb s' = tlb s"
    "next_victim s' = next_victim s" "freeTLBEntries s' = freeTLBEntries s"
  shows "covered V s' = covered V s"
proof -
  have h: "pt_holds s' = pt_holds s"
    by (simp add: fun_eq_iff pt_holds_def assms(1))
  have v: "tlb_view s' = tlb_view s"
    by (rule tlb_view_cong [OF assms(3)])
  show ?thesis
    by (simp add: covered_def tlb_ok_def tlb_inv_def tlb_coherent_def owned_def pt_wf_def h v assms)
qed

lemma covered_update [simp]:
  "covered V (s\<lparr>pt_counter := x2\<rparr>) = covered V s" "covered V (s\<lparr>firstpaddr := x4\<rparr>) = covered V s"
  "covered V (s\<lparr>lastpaddr := x4\<rparr>) = covered V s" "covered V (s\<lparr>mem := x5\<rparr>) = covered V s"
  "covered V (s\<lparr>prefs := x6\<rparr>) = covered V s" "covered V (s\<lparr>kheaproots := x7\<rparr>) = covered V s"
  "covered V (s\<lparr>sizebases := x8\<rparr>) = covered V s" "covered V (s\<lparr>allbase := x4\<rparr>) = covered V s"
  "covered V (s\<lparr>frame_list := x4\<rparr>) = covered V s"
  for s :: "'a kheap_state_scheme"
  by (rule covered_cong; simp)+

section \<open>Page table and TLB\<close>

text \<open>An entry that holds no translated page changes.\<close>

lemma covered_entry:
  assumes c: "covered V s" and i: "\<And>p. p \<noteq> 0 \<Longrightarrow> tlb_view s p \<noteq> None \<Longrightarrow> \<not> pt_holds s i p"
    and e: "page_number e \<noteq> 0 \<Longrightarrow> pt_pid e \<noteq> 0 \<and> page_number e < 0x80000"
  shows "covered V (s\<lparr>main_PG := (main_PG s)[i := e]\<rparr>)" (is "covered V ?s")
proof -
  have h: "pt_holds ?s j p \<longleftrightarrow> (if j = i then j < length (main_PG s) \<and> Valid e \<and> page_number e = p else pt_holds s j p)" for j p
    by (auto simp: pt_holds_def)
  have v: "tlb_view ?s = tlb_view s"
    by (rule tlb_view_cong) simp
  have "pt_wf ?s" "tlb_inv ?s"
    using c by (simp_all add: covered_def tlb_ok_def pt_wf_def tlb_inv_def)
  moreover have "tlb_coherent ?s"
    unfolding tlb_coherent_def v
  proof (intro allI impI)
    fix p pa w
    assume t: "tlb_view s p = Some (pa, w)"
    then have "p \<noteq> 0" "pt_holds s (unat (pa div PAGE_SIZE)) p"
      using c by (simp_all add: covered_def tlb_ok_def tlb_coherent_def)
    with i [of p] t show "p \<noteq> 0 \<and> pt_holds ?s (unat (pa div PAGE_SIZE)) p"
      by (auto simp: h)
  qed
  moreover have "owned ?s"
    using c e by (auto simp: owned_def covered_def dest!: in_set_updateD)
  ultimately show ?thesis
    using c by (simp add: covered_def tlb_ok_def v)
qed

lemma covered_shrink:
  assumes "covered V s" "tlb_inv s'" "tlb_view s' \<subseteq>\<^sub>m tlb_view s"
    and "main_PG s' = main_PG s" "PAGETABLE_ENTRY s' = PAGETABLE_ENTRY s"
  shows "covered V s'"
  using assms tlb_ok_shrink [of s s'] map_le_trans [of "tlb_view s'" "tlb_view s" V]
  by (simp add: covered_def owned_def)

lemma addPT_covered:
  assumes "addPT f v pid d s = Inr s'" "covered V s" "v < MIPS_KSEG0" "(ucast pid :: u8) \<noteq> 0"
  shows "covered V s'"
proof -
  have u: "v div PAGE_SIZE < 0x80000"
    using user_page_less [OF assms(3)] by (simp add: word_less_nat_alt)
  have av: "pt_available s (unat f)"
    using assms(1) addPT_occupied [of f s v pid d] by (cases "unat f < length (main_PG s)") (auto simp: addPT_def arr_get_def)
  have "\<not> pt_holds s (unat f) p" if "p \<noteq> 0" for p
    using addPT_available_holds [OF assms(1)] that by blast
  then have "covered V (s\<lparr>main_PG := (main_PG s)[unat f := (main_PG s ! unat f)
     \<lparr>page_number := v div PAGE_SIZE, Valid := True, pt_pid := ucast pid, Dirty := d\<rparr>]\<rparr>)"
    using u assms(4) by (intro covered_entry [OF assms(2)]) simp_all
  then show ?thesis
    using addPT_available [OF av, of v pid d] assms(1) by simp
qed

lemma removeTLBv1_covered:
  assumes "removeTLBv1 v s = Inr s'" "covered V s" "v < MIPS_KSEG0"
  shows "covered V s' \<and> tlb_view s' = (tlb_view s)(v div PAGE_SIZE := None) \<and> main_PG s' = main_PG s"
proof -
  have "tlb_inv s"
    using assms(2) by (simp add: covered_def tlb_ok_def)
  from removeTLBv1_spec [OF this assms(3)] assms(1) have
      "tlb_inv s'" "tlb_view s' = (tlb_view s)(v div PAGE_SIZE := None)" "main_PG s' = main_PG s" "PAGETABLE_ENTRY s' = PAGETABLE_ENTRY s"
    by auto
  then show ?thesis
    using covered_shrink [OF assms(2), of s'] by (simp add: map_le_def)
qed

lemma invalidate_TLB_covered:
  assumes "invalidate_TLB s = Inr s'" "covered V s"
  shows "covered V s'"
proof -
  have "length (tlb s) = NUM_TLB" "unat (next_victim s) < NUM_TLB"
    using assms(2) by (simp_all add: covered_def tlb_ok_def tlb_inv_def)
  from invalidate_TLB_spec [OF this] assms(1) have
      "tlb_inv s'" "tlb_view s' = Map.empty" "main_PG s' = main_PG s" "PAGETABLE_ENTRY s' = PAGETABLE_ENTRY s"
    by auto
  then show ?thesis
    using covered_shrink [OF assms(2), of s'] by simp
qed

text \<open>
  Loading a translation. The guard of \<open>addTLB\<close> refuses a page that is cached, except in slot 0.
\<close>

lemma addTLB_uncached:
  assumes "tlb_ok s" "addTLB v pid s = Inr s'" "v < MIPS_KSEG0" "\<not> tlb_holds s 0 (v div PAGE_SIZE)"
  shows "tlb_view s (v div PAGE_SIZE) = None"
proof (rule ccontr)
  assume "tlb_view s (v div PAGE_SIZE) \<noteq> None"
  then obtain i where i: "tlb_holds s i (v div PAGE_SIZE)"
    by (auto simp: tlb_view_None)
  have wf: "pt_wf s" and inv: "tlb_inv s"
    using assms(1) by (auto simp: tlb_ok_def)
  have probe: "tlb_probe (v AND PAGE_FRAME) elo s = int i" for elo
    using i by (intro tlb_probe_holds [OF inv user_page_frame [OF assms(3)]]) simp
  have "i \<noteq> 0"
    using i assms(4) by metis
  then have "addTLB_write v pa elo s = Inl (Panic ''TLB Error: duplicate TLB entries'')" for pa elo
    by (simp add: addTLB_write_def probe)
  then show False
    using assms(2) by (auto simp: addTLB_def Let_def elim!: rbindE split: option.splits if_splits)
qed

lemma addTLB_owned:
  assumes "tlb_ok s" "owned s" "addTLB v pid s = Inr s'" "v < MIPS_KSEG0" "v div PAGE_SIZE \<noteq> 0" "\<not> tlb_holds s 0 (v div PAGE_SIZE)"
  shows "tlb_ok s' \<and> owned s'"
proof -
  note none = addTLB_uncached [OF assms(1,3,4,6)]
  have wf: "pt_wf s" and inv: "tlb_inv s"
    using assms(1) by (auto simp: tlb_ok_def)
  obtain r where r: "addTLB_frame v pid s = Inr r"
    using addTLB_frame_find [OF wf] by blast
  then obtain f where "addTLB_frame v pid s = Inr (Some f)"
    using assms(3) addTLB_no_frame [OF wf] by (cases r) simp_all
  from addTLB_spec [OF wf inv assms(4) none this] have "main_PG s' = main_PG s"
    using assms(3) by auto
  then show ?thesis
    using tlb_ok_load [OF assms(1,3,4,5) none] assms(2) by (simp add: owned_def)
qed

section \<open>The kernel heap over any page allocator\<close>

locale covered_pages =
  fixes V :: "u32 \<Rightarrow> (u32 \<times> bool) option"
    and al :: "u32 \<Rightarrow> 'a kheap_state_scheme \<Rightarrow> (u32 \<times> 'a kheap_state_scheme) res"
    and fr :: "u32 \<Rightarrow> 'a kheap_state_scheme \<Rightarrow> 'a kheap_state_scheme res"
  assumes al_covered: "al n s = Inr (a, s') \<Longrightarrow> covered V s \<Longrightarrow> covered V s'"
    and fr_covered: "fr a s = Inr s' \<Longrightarrow> covered V s \<Longrightarrow> covered V s'"
begin

lemma allocpagerefpage_covered: "allocpagerefpage al fr r s = Inr s' \<Longrightarrow> covered V s \<Longrightarrow> covered V s'"
  by (auto simp: allocpagerefpage_def elim!: rbindE kassertE split: if_splits dest!: al_covered fr_covered)

lemma allocpageref_covered: "allocpageref al fr s = Inr (p, s') \<Longrightarrow> covered V s \<Longrightarrow> covered V s'"
  by (auto simp: allocpageref_def Let_def elim!: rbindE kassertE split: if_splits option.splits dest!: allocpagerefpage_covered)

lemma freepageref_covered: "freepageref p s = Inr s' \<Longrightarrow> covered V s \<Longrightarrow> covered V s'"
  by (auto simp: freepageref_def Let_def elim!: rbindE kassertE split: if_splits option.splits)

lemma remove_loop_covered:
  assumes "\<And>g p s. covered V (wr g p s) = covered V s" "remove_loop n rd wr pr guy s = Inr s'" "covered V s"
  shows "covered V s'"
  using assms(2,3) by (induction n arbitrary: guy) (auto simp: assms(1) elim!: rbindE kassertE split: if_splits)

lemma remove_lists_covered: "remove_lists pr b s = Inr s' \<Longrightarrow> covered V s \<Longrightarrow> covered V s'"
  by (auto simp: remove_lists_def samesize_wr_def all_wr_def elim!: rbindE kassertE split: option.splits dest!: remove_loop_covered [rotated])

lemma subpage_doalloc_covered: "subpage_doalloc pr s = Inr (a, s') \<Longrightarrow> covered V s \<Longrightarrow> covered V s'"
  by (auto simp: subpage_doalloc_def Let_def elim!: rbindE kassertE split: if_splits)

lemma subpage_newpage_covered: "subpage_newpage al fr b s = Inr (a, s') \<Longrightarrow> covered V s \<Longrightarrow> covered V s'"
  by (auto simp: subpage_newpage_def Let_def elim!: rbindE kassertE split: if_splits
        dest!: al_covered fr_covered allocpageref_covered subpage_doalloc_covered)

lemma kmalloc_with_covered: "kmalloc_with al fr z s = Inr (a, s') \<Longrightarrow> covered V s \<Longrightarrow> covered V s'"
  by (auto simp: kmalloc_with_def subpage_kmalloc_def Let_def elim!: rbindE kassertE split: if_splits
        dest!: al_covered subpage_doalloc_covered subpage_newpage_covered)

lemma subpage_kfree_covered: "subpage_kfree fr p s = Inr (r, s') \<Longrightarrow> covered V s \<Longrightarrow> covered V s'"
  by (auto simp: subpage_kfree_def Let_def elim!: rbindE kassertE split: if_splits
        dest!: remove_lists_covered freepageref_covered fr_covered)

lemma kfree_with_covered: "kfree_with fr p s = Inr s' \<Longrightarrow> covered V s \<Longrightarrow> covered V s'"
  by (auto simp: kfree_with_def elim!: rbindE kassertE split: if_splits dest!: subpage_kfree_covered fr_covered)

lemma addToFrameList_with_covered:
  "addToFrameList_with (kmalloc_with al fr) f p s = Inr (r, s') \<Longrightarrow> covered V s \<Longrightarrow> covered V s'"
  by (auto simp: addToFrameList_with_def addToFrameList_top_def new_frame_node_def set_next_frame_def Let_def
        elim!: rbindE kassertE split: if_splits dest!: kmalloc_with_covered)

text \<open>The frame that is given back held at most the page whose translation has just been evicted.\<close>

lemma free_kpages_with_covered:
  assumes "free_kpages_with (addToFrameList_with (kmalloc_with al fr)) paddr s = Inr s'" "covered V s"
  shows "covered V s'"
proof (cases "VM_Started s")
  case True
  define i where "i = unat (((paddr AND PAGE_FRAME) - MIPS_KSEG0) div PAGE_SIZE)"
  define e where "e = main_PG s ! i"
  obtain t r where i: "i < length (main_PG s)" "Valid e"
    and t: "(if pt_pid e \<noteq> 0 then removeTLBv1 (page_number e * 4096) s else Inr s) = Inr t"
    and r: "addToFrameList_with (kmalloc_with al fr) (((paddr AND PAGE_FRAME) - MIPS_KSEG0) div PAGE_SIZE) addTOP
      (t\<lparr>main_PG := (main_PG t)[i := e\<lparr>Valid := False, pt_pid := 0, page_number := 0\<rparr>], mem := zero_page paddr (mem t)\<rparr>) = Inr (r, s')"
    using assms(1) True by (auto simp: free_kpages_with_def i_def e_def Let_def arr_get_eq_Inr elim!: rbindE kassertE split: if_split_asm)
  have h: "pt_holds s i p \<longleftrightarrow> p = page_number e" for p
    using i by (auto simp: pt_holds_def e_def)
  have own: "owned s"
    using assms(2) by (simp add: covered_def)
  have pn: "page_number e \<noteq> 0 \<Longrightarrow> pt_pid e \<noteq> 0 \<and> page_number e < 0x80000"
    using own i by (simp add: owned_def e_def)
  then have user: "page_number e * 4096 < MIPS_KSEG0" "page_number e * 4096 div PAGE_SIZE = page_number e"
    using user_page [of "page_number e"] by (cases "page_number e = 0"; simp)+
  have "covered V t \<and> main_PG t = main_PG s \<and> (page_number e \<noteq> 0 \<longrightarrow> tlb_view t (page_number e) = None)"
  proof (cases "pt_pid e = 0")
    case True
    then show ?thesis
      using t assms(2) pn by auto
  next
    case False
    then show ?thesis
      using t removeTLBv1_covered [of "page_number e * 4096" s t V] assms(2) user by simp
  qed
  then have "covered V (t\<lparr>main_PG := (main_PG t)[i := e\<lparr>Valid := False, pt_pid := 0, page_number := 0\<rparr>]\<rparr>)"
    using h by (intro covered_entry) (auto simp: pt_holds_def)
  then show ?thesis
    using addToFrameList_with_covered [OF r] by simp
qed (use assms in \<open>simp add: free_kpages_with_def\<close>)

text \<open>A frame that is taken was not valid, so no translation leads to it.\<close>

lemma alloc_kpages_step_covered:
  assumes "alloc_kpages_step (kfree_with fr) (x, s) = Inr (y, s')" "covered V s"
  shows "covered V s'"
proof -
  obtain i e where i: "arr_get (main_PG s) i = Inr e" "\<not> Valid e"
    and t: "kfree_with fr (frame_list s) (s\<lparr>pt_counter := pt_counter s + 1, main_PG := (main_PG s)[i :=
        e\<lparr>Valid := True, pt_pid := 0, page_number := 0, victim_counter := ucast (pt_counter s + 1)\<rparr>],
        frame_list := next_frame s (frame_list s)\<rparr>) = Inr s'"
    using assms(1) by (auto simp: alloc_kpages_step_def Let_def next_frame_def elim!: rbindE kassertE split: if_split_asm)
  let ?s = "s\<lparr>pt_counter := pt_counter s + 1\<rparr>"
  have "covered V (?s\<lparr>main_PG := (main_PG ?s)[i :=
      e\<lparr>Valid := True, pt_pid := 0, page_number := 0, victim_counter := ucast (pt_counter s + 1)\<rparr>]\<rparr>)"
    using i assms(2) by (intro covered_entry) (auto simp: pt_holds_def arr_get_eq_Inr)
  then show ?thesis
    using kfree_with_covered [OF t] by simp
qed

lemma alloc_kpages_with_covered:
  assumes "alloc_kpages_with (kfree_with fr) k s = Inr (a, s')" "covered V s"
  shows "covered V s'"
proof -
  have loop: "covered V t'"
    if "rfold (\<lambda>_. alloc_kpages_step (kfree_with fr)) xs (x, t) = Inr (y, t')" "covered V t" for xs :: "nat list" and x t y t'
    using that by (induction xs arbitrary: x t) (auto elim!: rbindE dest: alloc_kpages_step_covered)
  show ?thesis
    using assms by (auto simp: alloc_kpages_with_def ram_stealmem_def Let_def elim!: rbindE kassertE split: if_splits dest!: loop)
qed

end

section \<open>Closing the recursion\<close>

lemma pages_covered:
  "(\<forall>k (s :: 'a kheap_state_scheme) a s'. alloc_kpages n k s = Inr (a, s') \<longrightarrow> covered V s \<longrightarrow> covered V s') \<and>
   (\<forall>p (s :: 'a kheap_state_scheme) s'. free_kpages n p s = Inr s' \<longrightarrow> covered V s \<longrightarrow> covered V s')"
proof (induction n)
  case (Suc n)
  then have l: "covered_pages V (alloc_kpages n) (free_kpages n :: u32 \<Rightarrow> 'a kheap_state_scheme \<Rightarrow> _)"
    by unfold_locales blast+
  show ?case
    using covered_pages.alloc_kpages_with_covered [OF l] covered_pages.free_kpages_with_covered [OF l] by simp
qed simp

interpretation cp: covered_pages V "alloc_kpages n" "free_kpages n" for V n
  by unfold_locales (use pages_covered in blast)+

section \<open>The operations of the virtual memory system\<close>

lemma covered_vm_update [simp]:
  "covered V (s\<lparr>sf_list := x1\<rparr>) = covered V s" "covered V (s\<lparr>swap_file := x2\<rparr>) = covered V s"
  "covered V (s\<lparr>TLB_PID := x3\<rparr>) = covered V s" "covered V (s\<lparr>mem := x4\<rparr>) = covered V s"
  "covered V (s\<lparr>curproc_pid := x5\<rparr>) = covered V s" "covered V (s\<lparr>curproc_as := x6\<rparr>) = covered V s"
  for s :: "'a vm_state_scheme"
  by (rule covered_cong; simp)+

text \<open>
  The invariant of the whole state: the TLB is coherent, and the swap table holds user pages of
  processes, so that what comes back from it may be entered in the page table.
\<close>

definition vm_coherent :: "'a vm_state_scheme \<Rightarrow> bool" where
  "vm_coherent s \<longleftrightarrow> tlb_ok s \<and> owned s \<and>
     (\<forall>e\<in>set (sf_list s). p_number e \<noteq> 0 \<longrightarrow> p_number e < 0x80000 \<and> (ucast (p_pid e) :: u8) \<noteq> 0)"

lemma vm_coherent_covered: "vm_coherent s \<Longrightarrow> covered (tlb_view s) s"
  by (simp add: vm_coherent_def covered_def)

lemma vm_coherentI:
  assumes "covered V s" "\<And>e. e \<in> set (sf_list s) \<Longrightarrow> p_number e \<noteq> 0 \<Longrightarrow> p_number e < 0x80000 \<and> (ucast (p_pid e) :: u8) \<noteq> 0"
  shows "vm_coherent s"
  using assms by (simp add: vm_coherent_def covered_def)

lemma vm_coherent_swap:
  "vm_coherent s \<Longrightarrow> e \<in> set (sf_list s) \<Longrightarrow> p_number e \<noteq> 0 \<Longrightarrow> p_number e < 0x80000 \<and> (ucast (p_pid e) :: u8) \<noteq> 0"
  by (simp add: vm_coherent_def)

text \<open>An operation that keeps the TLB coherent and leaves the swap table alone.\<close>

lemma vm_coherent_still:
  assumes "vm_coherent s" "covered V s'" "still s' = still s"
  shows "vm_coherent s'"
  using assms(1,2) still_swap [OF assms(3)] by (simp add: vm_coherent_def covered_def)

lemma rfold_preserves:
  assumes "rfold f xs t = Inr t'" "P t" "\<And>i t t'. f i t = Inr t' \<Longrightarrow> P t \<Longrightarrow> P t'"
  shows "P t'"
  using assms(1,2) by (induction xs arbitrary: t) (auto elim!: rbindE intro: assms(3))

lemma alloc_pages_coherent:
  fixes s :: "'a vm_state_scheme"
  assumes a: "alloc_pages n k v d s = Inr (r, s')" and c: "vm_coherent s"
    and v: "v < MIPS_KSEG0" "(ucast (curproc_pid s) :: u8) \<noteq> 0"
  shows "vm_coherent s'"
proof -
  let ?P = "\<lambda>t. covered (tlb_view s) t \<and> still t = still s"
  have loop: "rfold (\<lambda>_ t. rbind (alloc_kpages n 1 t) (\<lambda>(paddr, t). if paddr = 0 then Inl (Panic ''Error in alloc_pages() during kmalloc()'')
      else addPT ((paddr - MIPS_KSEG0) div PAGE_SIZE) v (curproc_pid s) d t)) [0..<unat k] s = Inr s'"
    using a unfolding alloc_pages_def Let_def by (auto elim!: rbindE kassertE)
  have "?P s'"
  proof (rule rfold_preserves [OF loop])
    fix t t'
    assume "rbind (alloc_kpages n 1 t) (\<lambda>(paddr, t). if paddr = 0 then Inl (Panic ''Error in alloc_pages() during kmalloc()'')
      else addPT ((paddr - MIPS_KSEG0) div PAGE_SIZE) v (curproc_pid s) d t) = Inr t'" and P: "?P t"
    then obtain pa u where u: "alloc_kpages n 1 t = Inr (pa, u)" "addPT ((pa - MIPS_KSEG0) div PAGE_SIZE) v (curproc_pid s) d u = Inr t'"
      by (auto elim!: rbindE split: if_splits)
    show "?P t'"
      using P addPT_covered [OF u(2) cp.al_covered [OF u(1)] v] addPT_still [OF u(2)] kp.al_still [OF u(1)] by simp
  qed (simp add: vm_coherent_covered [OF c])
  then show ?thesis
    using vm_coherent_still [OF c] by blast
qed

lemma as_destroy_coherent:
  fixes s :: "'a vm_state_scheme"
  assumes "as_destroy n a s = Inr s'" and c: "vm_coherent s"
  shows "vm_coherent s'"
proof -
  let ?P = "\<lambda>t. covered (tlb_view s) t \<and> still t = still s"
  obtain f t u where t: "kfree n a s = Inr t" and f: "rfold f (pt_indices t) t = Inr u" and fl: "invalidate_TLB u = Inr s'"
    and step: "\<And>i t. f i t = rbind (arr_get (main_PG t) i) (\<lambda>e. if ucast (pt_pid e) = curproc_pid t \<and> Valid e
       then free_kpages n (of_nat i * 4096 + MIPS_KSEG0) t else Inr t)"
    using assms(1) by (auto simp: as_destroy_def elim!: rbindE)
  have "?P u"
  proof (rule rfold_preserves [OF f])
    show "?P t"
      using cp.kfree_with_covered [OF t [unfolded kfree_def] vm_coherent_covered [OF c]] kfree_still [OF t] by simp
    fix i t t'
    assume "f i t = Inr t'" "?P t"
    then show "?P t'"
      unfolding step by (auto elim!: rbindE split: if_splits dest: cp.fr_covered) (simp add: kp.fr_still)
  qed
  then show ?thesis
    using vm_coherent_still [OF c invalidate_TLB_covered [OF fl, of "tlb_view s"]] invalidate_TLB_still [OF fl] by simp
qed

lemma swapOut_coherent:
  fixes s :: "'a vm_state_scheme"
  assumes "swapOut n env a s = Inr (r, s')" and c: "vm_coherent s"
  shows "vm_coherent s'"
proof (cases "s' = s")
  case False
  obtain i e w pte where e: "arr_get (main_PG s) (unat ((a - MIPS_KSEG0) div PAGE_SIZE)) = Inr pte"
    and fr: "free_kpages n a (s\<lparr>swap_file := w, sf_list := (sf_list s)[i :=
      e\<lparr>p_number := page_number pte, p_pid := ucast (pt_pid pte), sf_Dirty := Dirty pte\<rparr>]\<rparr>) = Inr s'"
    using assms(1) False by (auto simp: swapOut_def Let_def elim!: rbindE split: if_splits)
  let ?t = "s\<lparr>swap_file := w, sf_list := (sf_list s)[i :=
      e\<lparr>p_number := page_number pte, p_pid := ucast (pt_pid pte), sf_Dirty := Dirty pte\<rparr>]\<rparr>"
  have cov: "covered (tlb_view s) ?t"
    using vm_coherent_covered [OF c] by simp
  moreover have "page_number pte \<noteq> 0 \<Longrightarrow> page_number pte < 0x80000 \<and> pt_pid pte \<noteq> 0"
    using c e by (auto simp: vm_coherent_def owned_def arr_get_eq_Inr)
  then have "x \<in> set (sf_list ?t) \<Longrightarrow> p_number x \<noteq> 0 \<Longrightarrow> p_number x < 0x80000 \<and> (ucast (p_pid x) :: u8) \<noteq> 0" for x
    using c by (auto simp: vm_coherent_def dest!: in_set_updateD)
  ultimately have "vm_coherent ?t"
    by (intro vm_coherentI)
  then show ?thesis
    using vm_coherent_still [OF _ cp.fr_covered [OF fr cov] kp.fr_still [OF fr]] by blast
qed (use c in simp)

text \<open>A page comes back from a slot while no frame holds it, as the fault handler has found out before.\<close>

lemma swapIn_coherent:
  fixes s :: "'a vm_state_scheme"
  assumes "swapIn n env (int i) s = Inr (r, s')" and c: "vm_coherent s"
    and e: "p_number (sf_list s ! i) \<noteq> 0" "pt_view s (p_number (sf_list s ! i)) = None"
  shows "vm_coherent s'"
proof -
  let ?e = "sf_list s ! i"
  obtain pa t u w where al: "alloc_kpages n 1 s = Inr (pa, t)" and i: "i < length (sf_list t)"
    and pt: "addPT ((pa - MIPS_KSEG0) div PAGE_SIZE) (p_number (sf_list t ! i) * PAGE_SIZE) (p_pid (sf_list t ! i)) (sf_Dirty (sf_list t ! i)) t = Inr u"
    and tl: "addTLB (p_number (sf_list t ! i) * PAGE_SIZE) (p_pid (sf_list t ! i)) u = Inr w"
    and s': "s' \<in> {w, w\<lparr>mem := file_to_page pa (p_offset (sf_list t ! i) * PAGE_SIZE) (swap_file w) (mem w),
      sf_list := (sf_list w)[i := (sf_list w ! i)\<lparr>p_number := 0, p_pid := 0, sf_Dirty := False\<rparr>]\<rparr>}"
    using assms(1) by (auto simp: swapIn_def Let_def arr_get_eq_Inr elim!: rbindE split: if_splits)
  have sf: "sf_list t = sf_list s"
    using still_swap [OF kp.al_still [OF al]] by simp
  have p: "p_number ?e < 0x80000" "(ucast (p_pid ?e) :: u8) \<noteq> 0"
    using c e(1) i by (simp_all add: vm_coherent_def sf)
  note pg = user_page [OF p(1)]
  have "tlb_view s (p_number ?e) = None"
    using c e(2) pt_view_None [OF e(1), of s] by (cases "tlb_view s (p_number ?e)") (auto simp: vm_coherent_def tlb_ok_def tlb_coherent_def)
  moreover have u: "covered (tlb_view s) u"
    using addPT_covered [OF pt cp.al_covered [OF al vm_coherent_covered [OF c]]] pg(1) p(2) by (simp add: sf)
  ultimately have "tlb_view u (p_number ?e) = None"
    unfolding covered_def map_le_def by (metis domIff)
  then have "\<not> tlb_holds u 0 (p_number ?e * PAGE_SIZE div PAGE_SIZE)"
    by (simp add: tlb_view_None pg(2))
  then have w: "tlb_ok w \<and> owned w"
    using addTLB_owned [of u _ _ w] tl u pg e(1) by (simp add: covered_def sf)
  have "still w = still s"
    using addTLB_still [OF tl] addPT_still [OF pt] kp.al_still [OF al] by simp
  then have vw: "vm_coherent w"
    using vm_coherent_still [OF c covered_self] w by blast
  then have "vm_coherent (w\<lparr>mem := m, sf_list := (sf_list w)[i := (sf_list w ! i)\<lparr>p_number := 0, p_pid := 0, sf_Dirty := False\<rparr>]\<rparr>)" for m
    using vm_coherent_covered [OF vw] vm_coherent_swap [OF vw]
    by (intro vm_coherentI [of "tlb_view w"]) (auto dest!: in_set_updateD)
  then show ?thesis
    using s' vw by blast
qed

section \<open>Every way the state evolves\<close>

text \<open>
  A step of the system, as far as pages are concerned. The first four are the operations on the page
  table and the TLB that the fault handler and \<open>as_define_region\<close> are made of; a page they enter or load is
  a user page of a process, and a page they load is not in slot 0 of the TLB (in any other slot
  the guard of \<open>addTLB\<close> stops it). The next are the kernel's allocators, which give frames back,
  the swap file, and the life of an address space. The last two stand for whatever programs do to memory and
  for a change of the current process.
\<close>

inductive kernel_step :: "'a vm_state_scheme \<Rightarrow> 'a vm_state_scheme \<Rightarrow> bool" where
  enter: "addPT f v pid d s = Inr s' \<Longrightarrow> v < MIPS_KSEG0 \<Longrightarrow> (ucast pid :: u8) \<noteq> 0 \<Longrightarrow> kernel_step s s'"
| load: "addTLB v pid s = Inr s' \<Longrightarrow> v < MIPS_KSEG0 \<Longrightarrow> v div PAGE_SIZE \<noteq> 0 \<Longrightarrow>
    \<not> tlb_holds s 0 (v div PAGE_SIZE) \<Longrightarrow> kernel_step s s'"
| evict: "removeTLBv1 v s = Inr s' \<Longrightarrow> v < MIPS_KSEG0 \<Longrightarrow> kernel_step s s'"
| flush: "invalidate_TLB s = Inr s' \<Longrightarrow> kernel_step s s'"
| alloc: "alloc_kpages n k s = Inr (a, s') \<Longrightarrow> kernel_step s s'"
| free: "free_kpages n a s = Inr s' \<Longrightarrow> kernel_step s s'"
| heap_alloc: "kmalloc n z s = Inr (a, s') \<Longrightarrow> kernel_step s s'"
| heap_free: "kfree n a s = Inr s' \<Longrightarrow> kernel_step s s'"
| user_alloc: "alloc_pages n m v d s = Inr (r, s') \<Longrightarrow> v < MIPS_KSEG0 \<Longrightarrow> (ucast (curproc_pid s) :: u8) \<noteq> 0 \<Longrightarrow>
    kernel_step s s'"
| swap_out: "swapOut n env a s = Inr (r, s') \<Longrightarrow> kernel_step s s'"
| swap_in: "swapIn n env (int i) s = Inr (r, s') \<Longrightarrow> p_number (sf_list s ! i) \<noteq> 0 \<Longrightarrow>
    pt_view s (p_number (sf_list s ! i)) = None \<Longrightarrow> kernel_step s s'"
| destroy: "as_destroy n a s = Inr s' \<Longrightarrow> kernel_step s s'"
| activate: "as_activate s = Inr s' \<Longrightarrow> kernel_step s s'"
| memory: "kernel_step s (s\<lparr>mem := m\<rparr>)"
| switch: "kernel_step s (s\<lparr>curproc_pid := pid, curproc_as := as\<rparr>)"

lemma as_activate_coherent:
  assumes "as_activate s = Inr s'" "vm_coherent s"
  shows "vm_coherent s'"
proof (cases "s' = s")
  case False
  then obtain t b where t: "invalidate_TLB s = Inr t" and s': "s' = t\<lparr>TLB_PID := b\<rparr>"
    using assms(1) by (auto simp: as_activate_def elim!: rbindE split: option.splits if_splits)
  have "vm_coherent t"
    using vm_coherent_still [OF assms(2) invalidate_TLB_covered [OF t vm_coherent_covered [OF assms(2)]] invalidate_TLB_still [OF t]] .
  then show ?thesis
    using vm_coherent_covered [of t] vm_coherent_swap [of t] by (intro vm_coherentI [of "tlb_view t"]) (simp_all add: s')
qed (use assms in simp)

lemma kernel_step_coherent: "kernel_step s s' \<Longrightarrow> vm_coherent s \<Longrightarrow> vm_coherent s'"
proof (induction rule: kernel_step.induct)
  case (enter f v pid d s s')
  then show ?case
    using vm_coherent_still [OF enter.prems addPT_covered [OF enter(1) vm_coherent_covered [OF enter.prems]] addPT_still [OF enter(1)]] by simp
next
  case (load v pid s s')
  then have "tlb_ok s' \<and> owned s'"
    using addTLB_owned [of s v pid s'] by (simp add: vm_coherent_def)
  then show ?case
    using vm_coherent_still [OF load.prems covered_self addTLB_still [OF load(1)]] by simp
next
  case (evict v s s')
  then show ?case
    using removeTLBv1_covered [OF evict(1) vm_coherent_covered [OF evict.prems] evict(2)] vm_coherent_still [OF evict.prems]
      removeTLBv1_still [OF evict(1)] by blast
next
  case (flush s s')
  then show ?case
    using invalidate_TLB_covered [OF flush(1) vm_coherent_covered] vm_coherent_still invalidate_TLB_still by blast
next
  case (heap_alloc n z s a s')
  then show ?case
    using vm_coherent_still [OF _ cp.kmalloc_with_covered kmalloc_still] vm_coherent_covered unfolding kmalloc_def by blast
next
  case (heap_free n a s s')
  then show ?case
    using vm_coherent_still [OF _ cp.kfree_with_covered kfree_still] vm_coherent_covered unfolding kfree_def by blast
next
  case (memory s m)
  then show ?case
    using vm_coherent_covered [of s] vm_coherent_swap [of s] by (intro vm_coherentI [of "tlb_view s"]) simp_all
next
  case (switch s pid as)
  then show ?case
    using vm_coherent_covered [of s] vm_coherent_swap [of s] by (intro vm_coherentI [of "tlb_view s"]) simp_all
qed (blast intro: vm_coherent_still vm_coherent_covered cp.al_covered cp.fr_covered kp.al_still kp.fr_still alloc_pages_coherent
       swapOut_coherent swapIn_coherent as_destroy_coherent as_activate_coherent)+

lemma kernel_steps_coherent: "kernel_step\<^sup>*\<^sup>* s s' \<Longrightarrow> vm_coherent s \<Longrightarrow> vm_coherent s'"
  by (induction rule: rtranclp_induct) (blast intro: kernel_step_coherent)+

section \<open>Properties\<close>

text \<open>
  C14: The TLB never outlives the page table. Start from a state in which no user page is in memory or in the
  swap file and the TLB has been flushed. Whatever frames are then allocated, given pages, freed, swapped out and swapped in, whatever
  translations are loaded and evicted, whatever address spaces are destroyed and activated, in any order, the TLB invariant holds
  and every translation in the TLB leads to a frame whose page table entry is valid for that page.
\<close>

theorem tlb_reachable_coherent:
  assumes "pt_wf s0" "length (tlb s0) = NUM_TLB" "unat (next_victim s0) < NUM_TLB"
    and "\<forall>e\<in>set (main_PG s0). page_number e = 0" "\<forall>e\<in>set (sf_list s0). p_number e = 0"
    and "invalidate_TLB s0 = Inr s" "kernel_step\<^sup>*\<^sup>* s s'"
  shows "tlb_inv s' \<and> (\<forall>p pa w. tlb_view s' p = Some (pa, w) \<longrightarrow> pt_holds s' (unat (pa div PAGE_SIZE)) p)"
proof -
  have "sf_list s = sf_list s0"
    using still_swap [OF invalidate_TLB_still [OF assms(6)]] by simp
  then have "vm_coherent s"
    using invalidate_TLB_spec [OF assms(2,3)] assms(1,4-6)
    by (auto simp: vm_coherent_def tlb_ok_def tlb_coherent_def pt_wf_def owned_def)
  from kernel_steps_coherent [OF assms(7) this] show ?thesis
    by (auto simp: vm_coherent_def tlb_ok_def tlb_coherent_def)
qed

text \<open>
  The machine of \<open>example_vm\<close> before process 2 gets its page: the page is entered for frame 6, then its translation is
  loaded, and then the frame is freed.
\<close>

definition example_boot :: vm_state where
  "example_boot = example_vm\<lparr>main_PG := (main_PG example_heap)[6 := (example_entry True)\<lparr>victim_counter := 3\<rparr>], TLB_Invalidations := 0\<rparr>"

definition example_loaded :: vm_state where
  "example_loaded = tlb_load_free 0 0x10000000 (frame_elo 6 True) example_vm"

lemma example_boot_flush: "invalidate_TLB example_boot = Inr (example_boot\<lparr>TLB_Invalidations := 1\<rparr>)"
proof -
  have "tlb example_boot = invalid_slots" "freeTLBEntries example_boot = of_nat NUM_TLB" "TLB_Invalidations example_boot = 0"
    by (simp_all add: example_boot_def example_vm_heap)
  then show ?thesis
    using invalidate_TLB_eq [of example_boot] by simp
qed

lemma example_enter: "addPT 6 0x10000000 2 True (example_boot\<lparr>TLB_Invalidations := 1\<rparr>) = Inr example_vm"
  by (simp add: addPT_def example_boot_def example_heap_sel example_entry_def example_vm_def example_page_def kheap_state.extend_def
      example_heap_def)

lemma example_load: "addTLB 0x10000000 2 example_vm = Inr example_loaded" "tlb_inv example_loaded"
    "tlb_view example_loaded 0x10000 = Some (0x6000, True)"
proof -
  have wf: "pt_wf example_vm"
    using example_vm_kp by (simp add: kp_ok_def)
  have v: "0x10000000 AND PAGE_FRAME = (0x10000000 :: u32)" "0x10000000 div PAGE_SIZE = (0x10000 :: u32)" "(0x10000000 :: u32) < MIPS_KSEG0"
    by simp_all
  have f: "addTLB_frame 0x10000000 2 example_vm = Inr (Some 6)"
    unfolding addTLB_frame_find [OF wf] v
    by (simp add: find_upt_Some_iff pt_holds_def example_vm_page example_vm_heap(1) example_heap_sel example_page_def example_entry_def)
  have d: "Dirty (main_PG example_vm ! 6)"
    by (simp add: example_vm_heap(1) example_heap_sel example_page_def)
  have free: "find (\<lambda>i. \<not> slot_valid (tlb example_vm ! i)) [0..<NUM_TLB] = Some 0"
    by (simp add: example_vm_heap find_upt_Some_iff del: upt_Suc)
  have "tlb_probe 0x10000000 (frame_elo 6 True) example_vm = - 1"
    using tlb_probe_miss [OF example_vm_tlb(1), of "0x10000000"] example_vm_tlb(2) by (simp add: tlb_view_None)
  then show "addTLB 0x10000000 2 example_vm = Inr example_loaded"
    using addTLB_eq [OF wf f] addTLB_write_eq [OF example_vm_tlb(1), where v = "0x10000000" and f = 6 and d = True] d free
    by (simp add: example_loaded_def)
  have "\<not> slot_valid (tlb example_vm ! 0)"
    using free unfolding find_upt_Some_iff by blast
  then show "tlb_inv example_loaded" "tlb_view example_loaded 0x10000 = Some (0x6000, True)"
    using tlb_load_free_spec [OF example_vm_tlb(1) v(3), where k = 0 and f = 6 and d = True] example_vm_tlb(2)
    by (simp_all add: example_loaded_def)
qed

lemma example_freed: "\<exists>s'. free_kpages 1 0x80006000 example_loaded = Inr s' \<and> tlb_view s' 0x10000 = None"
proof -
  have sel: "main_PG example_loaded = main_PG example_vm" "PAGETABLE_ENTRY example_loaded = 8" "main_PG_addr example_loaded = 0x80007000"
      "prefs example_loaded = prefs example_heap"
    by (simp_all add: example_loaded_def tlb_load_free_def example_vm_heap)
  have ok: "kp_ok example_loaded example_prs example_free [0x80002000, 0x80002010]"
    by (subst kp_ok_cong [of _ example_vm]) (simp_all add: example_loaded_def tlb_load_free_def example_vm_kp)
  have lay: "blk example_loaded = blk example_heap" "pr_page example_loaded = pr_page example_heap"
    using layout_cong [of example_loaded example_heap] sel(4) by simp_all
  have e: "main_PG example_vm ! 6 = example_page"
    by (simp add: example_vm_heap(1) example_heap_sel)
  have r: "releasable example_loaded example_prs 6"
    by (simp add: releasable_def e lay example_heap_layout frame_of_def sel example_page_def)
  have q: "find (\<lambda>p. blk example_loaded p = 0 \<and> example_free p \<noteq> []) example_prs = Some 0x80003000"
    by (simp add: lay example_heap_layout example_free_def)
  show ?thesis
    using free_kpages_user(1) [OF ok r _ example_load(2) _ q, of 0] free_kpages_user(3) [OF ok r _ example_load(2) _ q] by (simp add: sel e example_page_def)
qed

theorem tlb_reachable_coherent_witness:
  "\<exists>s s'. invalidate_TLB example_boot = Inr s \<and> kernel_step\<^sup>*\<^sup>* s example_loaded \<and>
     tlb_view example_loaded 0x10000 = Some (0x6000, True) \<and> pt_holds example_loaded 6 0x10000 \<and>
     free_kpages 1 0x80006000 example_loaded = Inr s' \<and> tlb_inv s' \<and> tlb_view s' 0x10000 = None"
proof -
  let ?s = "example_boot\<lparr>TLB_Invalidations := 1\<rparr>"
  obtain s' where s': "free_kpages 1 0x80006000 example_loaded = Inr s'" "tlb_view s' 0x10000 = None"
    using example_freed by blast
  have "kernel_step ?s example_vm"
    by (rule kernel_step.enter [OF example_enter]) simp_all
  moreover have "kernel_step example_vm example_loaded"
    using example_vm_tlb(2) by (intro kernel_step.load [OF example_load(1)]) (simp_all add: tlb_view_None)
  ultimately have l: "kernel_step\<^sup>*\<^sup>* ?s example_loaded"
    by (meson rtranclp.simps)
  then have f: "kernel_step\<^sup>*\<^sup>* ?s s'"
    using kernel_step.free [OF s'(1)] by (rule rtranclp.rtrancl_into_rtrancl)
  have b: "pt_wf example_boot" "length (tlb example_boot) = NUM_TLB" "unat (next_victim example_boot) < NUM_TLB"
      "\<forall>e\<in>set (main_PG example_boot). page_number e = 0" "\<forall>e\<in>set (sf_list example_boot). p_number e = 0"
    by (auto simp: example_boot_def example_vm_heap pt_wf_def example_heap_sel example_entry_def example_vm_def kheap_state.extend_def dest!: in_set_updateD)
      (simp_all add: example_heap_def)
  have "pt_holds example_loaded (unat (0x6000 div PAGE_SIZE :: u32)) 0x10000"
    using tlb_reachable_coherent [OF b example_boot_flush l] example_load(3) by blast
  moreover have "tlb_inv s'"
    using tlb_reachable_coherent [OF b example_boot_flush f] by blast
  ultimately show ?thesis
    using example_boot_flush l s' example_load(3) by (intro exI [of _ ?s] exI [of _ s']) simp
qed

end
