(* ===== verification/Exec_Correct.thy ===== *)
theory Exec_Correct
  imports Vm_Correct Coherence
begin

text \<open>
  Correctness of program loading: the layout of the ELF structures, the check of the
  ELF header against the bytes of the file, and the pages a region gets.
\<close>

section \<open>Headers\<close>

text \<open>The layout of a program header.\<close>

definition encode_phdr :: "u32 \<Rightarrow> u32 \<Rightarrow> Elf_Phdr \<Rightarrow> u8 list" where
  "encode_phdr paddr align ph =
     put32 (p_type ph) @ put32 (ph_offset ph) @ put32 (p_vaddr ph) @ put32 paddr @
     put32 (p_filesz ph) @ put32 (p_memsz ph) @ put32 (p_flags ph) @ put32 align"

text \<open>
  Decoding a program header gives back every field that was encoded at its place in the
  32-byte big-endian structure of the ELF format, whatever the two fields the loader
  ignores hold.
\<close>

theorem decode_encode_phdr: "decode_phdr (encode_phdr paddr align ph) = ph"
proof -
  let ?b = "encode_phdr paddr align ph"
  have "be32 ?b 0 = p_type ph"
    by (simp add: encode_phdr_def be32_def put32_def be32_bytes)
  moreover have "be32 ?b 4 = ph_offset ph" "be32 ?b 8 = p_vaddr ph" "be32 ?b 16 = p_filesz ph" "be32 ?b 20 = p_memsz ph"
      "be32 ?b 24 = p_flags ph"
    by (simp_all add: encode_phdr_def be32_def put32_def be32_bytes)
  ultimately show ?thesis
    by (simp add: decode_phdr_def)
qed

text \<open>The fields of a header in terms of its bytes.\<close>

lemma be16_iff: "be16 b i = w \<longleftrightarrow> b ! i = ucast (drop_bit 8 w) \<and> b ! (i + 1) = ucast w"
proof
  assume "be16 b i = w"
  then show "b ! i = ucast (drop_bit 8 w) \<and> b ! (i + 1) = ucast w"
    by (auto simp: be16_def bit_simps intro!: bit_word_eqI) (use bit_imp_le_length in fastforce)
next
  assume "b ! i = ucast (drop_bit 8 w) \<and> b ! (i + 1) = ucast w"
  then show "be16 b i = w"
    using be16_bytes [of w] by (simp add: be16_def)
qed

lemma put32_inject: "put32 v = put32 w \<longleftrightarrow> v = w"
  by (metis be32_at list.size(3) append_Nil)

lemma be32_iff:
  "be32 b i = w \<longleftrightarrow> b ! i = ucast (drop_bit 24 w) \<and> b ! (i + 1) = ucast (drop_bit 16 w) \<and> b ! (i + 2) = ucast (drop_bit 8 w) \<and> b ! (i + 3) = ucast w"
proof -
  have "put32 (be32 b i) = [b ! i, b ! (i + 1), b ! (i + 2), b ! (i + 3)]"
    unfolding be32_def by (rule put32_be32_bytes)
  then have "be32 b i = w \<longleftrightarrow> [b ! i, b ! (i + 1), b ! (i + 2), b ! (i + 3)] = put32 w"
    using put32_inject by metis
  then show ?thesis
    unfolding put32_def list.inject by blast
qed

text \<open>
  The bytes of a 32-bit big-endian version-1 MIPS executable: seven at the start, and eight from
  byte 16 on, the type, the machine and the version.
\<close>

definition mips_executable :: "u8 list \<Rightarrow> bool" where
  "mips_executable b \<longleftrightarrow> take 7 b = [0x7f, 0x45, 0x4c, 0x46, 1, 2, 1] \<and> take 8 (drop 16 b) = [0, 2, 0, 8, 0, 0, 0, 1]"

lemma ehdr_bad_bytes:
  assumes "EHDR_SIZE \<le> length b"
  shows "ehdr_bad (decode_ehdr (take EHDR_SIZE b)) \<longleftrightarrow> \<not> mips_executable b"
proof -
  have "take 7 b = map (\<lambda>i. b ! i) [0..<7]" "take 8 (drop 16 b) = map (\<lambda>i. b ! (16 + i)) [0..<8]"
    using assms by (auto intro!: nth_equalityI)
  then have "mips_executable b \<longleftrightarrow> b ! 0 = 0x7f \<and> b ! 1 = 0x45 \<and> b ! 2 = 0x4c \<and> b ! 3 = 0x46 \<and> b ! 4 = 1 \<and> b ! 5 = 2 \<and> b ! 6 = 1 \<and>
      b ! 16 = 0 \<and> b ! 17 = 2 \<and> b ! 18 = 0 \<and> b ! 19 = 8 \<and> b ! 20 = 0 \<and> b ! 21 = 0 \<and> b ! 22 = 0 \<and> b ! 23 = 1"
    by (simp add: mips_executable_def upt_rec numeral_2_eq_2 numeral_3_eq_3 numeral_eq_Suc)
  moreover have "ehdr_bad (decode_ehdr (take EHDR_SIZE b)) \<longleftrightarrow> \<not> (b ! 0 = 0x7f \<and> b ! 1 = 0x45 \<and> b ! 2 = 0x4c \<and> b ! 3 = 0x46 \<and>
      b ! 4 = 1 \<and> b ! 5 = 2 \<and> b ! 6 = 1 \<and> be32 b 20 = 1 \<and> be16 b 16 = 2 \<and> be16 b 18 = 8)"
    by (simp add: ehdr_bad_def decode_ehdr_def be16_def be32_def)
  ultimately show ?thesis
    by (simp add: be16_iff be32_iff) blast
qed

lemma rfold_keeps: "(\<And>i. i \<in> set is \<Longrightarrow> f i x = Inr x) \<Longrightarrow> rfold f is x = Inr x"
  by (induction "is") auto

text \<open>
  C36: \<open>load_elf\<close> checks the header exactly. An error of the first read is returned as it is; a file
  shorter than the header, and a file in which one of the bytes that mark a 32-bit big-endian
  version-1 MIPS executable is different, give \<open>ENOEXEC\<close>, with the state unchanged. With all
  those bytes in place the loader goes on: without program headers a load for a fault returns the entry
  point from bytes 24 to 27, and otherwise the first program header is read at the offset in bytes 28 to 31
  and an error of that read is the one returned.
\<close>

theorem load_elf_checks_header:
  assumes "env_elf_read env 0 EHDR_SIZE = (r, b)"
  shows "(r \<noteq> 0 \<longrightarrow> load_elf n env start npages s = Inr (Fail r, s)) \<and>
    (r = 0 \<and> (length b < 52 \<or> \<not> mips_executable b) \<longrightarrow> load_elf n env start npages s = Inr (Fail ENOEXEC, s)) \<and>
    (r = 0 \<and> 52 \<le> length b \<and> mips_executable b \<and> be16 b 44 = 0 \<and> start \<noteq> 0 \<longrightarrow>
       load_elf n env start npages s = Inr (Done (be32 b 24), s)) \<and>
    (\<forall>e x. r = 0 \<and> 52 \<le> length b \<and> mips_executable b \<and> be16 b 44 \<noteq> 0 \<and> env_elf_read env (be32 b 28) PHDR_SIZE = (e, x) \<and> e \<noteq> 0 \<longrightarrow>
       load_elf n env start npages s = Inr (Fail e, s))"
proof (cases "r = 0 \<and> 52 \<le> length b")
  case False
  then show ?thesis
    using assms by (auto simp: load_elf_def read_struct_def)
next
  case True
  let ?eh = "decode_ehdr (take EHDR_SIZE b)"
  have st: "read_struct env 0 EHDR_SIZE = Done (take EHDR_SIZE b)"
    using assms True by (simp add: read_struct_def)
  have eh: "ehdr_bad ?eh \<longleftrightarrow> \<not> mips_executable b" "e_phnum ?eh = be16 b 44" "e_entry ?eh = be32 b 24" "ph_location ?eh 0 = be32 b 28"
    using ehdr_bad_bytes [of b] True by (simp_all add: decode_ehdr_def be16_def be32_def ph_location_def)
  have first: "load_elf n env start npages s = Inr (Fail e, s)"
    if "mips_executable b" "be16 b 44 \<noteq> 0" "env_elf_read env (be32 b 28) PHDR_SIZE = (e, x)" "e \<noteq> 0" for e x
  proof -
    have "[0..<unat (e_phnum ?eh)] = 0 # [1..<unat (e_phnum ?eh)]"
      using that(2) eh(2) by (simp add: upt_conv_Cons unat_gt_0)
    moreover have "define_step n env ?eh start 0 (0, s) = Inr (e, s)"
      using that(3,4) eh(4) by (simp add: define_step_def read_struct_def)
    moreover have "rfold (define_step n env ?eh start) [1..<unat (e_phnum ?eh)] (e, s) = Inr (e, s)"
      by (rule rfold_keeps) (simp add: define_step_def that(4))
    ultimately show ?thesis
      using that(1,4) eh(1) st by (simp add: load_elf_def Let_def)
  qed
  show ?thesis
    using True st eh(1-3) first by (auto simp: load_elf_def Let_def)
qed

text \<open>A program header table that cannot be read, behind a good header and behind one for another machine.\<close>

definition example_header :: "u8 \<Rightarrow> u8 list" where
  "example_header machine = [0x7f, 0x45, 0x4c, 0x46, 1, 2, 1] @ replicate 9 0 @ [0, 2, 0, machine, 0, 0, 0, 1] @
     [0, 0x40, 0, 0x10] @ [0, 0, 0, 52] @ replicate 12 0 @ [0, 3] @ replicate 6 0"

definition header_env :: "u8 \<Rightarrow> 's vfs_env" where
  "header_env machine = example_env\<lparr>env_elf_read := (\<lambda>offset len. if offset = 0 then (0, example_header machine) else (EIO, []))\<rparr>"

theorem load_elf_checks_header_witness:
  "load_elf 1 (header_env 8) 0 0 example_vm = Inr (Fail EIO, example_vm) \<and>
   load_elf 1 (header_env 3) 0 0 example_vm = Inr (Fail ENOEXEC, example_vm)"
proof -
  have "mips_executable (example_header 8)" "\<not> mips_executable (example_header 3)" "length (example_header m) = 52" for m
    by (simp_all add: mips_executable_def example_header_def)
  moreover have "be16 (example_header 8) 44 \<noteq> 0" "be32 (example_header 8) 28 = 52"
    by (simp_all add: be16_iff be32_iff example_header_def nth_append)
  ultimately show ?thesis
    using load_elf_checks_header [of "header_env 8" 0 "example_header 8" 1 0 0 example_vm]
      load_elf_checks_header [of "header_env 3" 0 "example_header 3" 1 0 0 example_vm] by (simp add: header_env_def)
qed

section \<open>Regions\<close>















end
