(* ===== verification/Kernel_Monad.thy ===== *)
theory Kernel_Monad
  imports Kernel_Prelude
begin

text \<open>
  Sequencing for the parts of the kernel whose functions return an error code: a function
  works on a state and gives \<open>Done x\<close> or \<open>Fail e\<close> with the state it leaves, or it stops
  the machine. \<open>kbind\<close> is the idiom \<open>result = f(); if (result) return result;\<close>.
\<close>

type_synonym ('a, 's) kop = "'s \<Rightarrow> ('a ret \<times> 's) res"

definition kret :: "'a \<Rightarrow> ('a, 's) kop" where
  "kret x s = Inr (Done x, s)"

definition kfail :: "int \<Rightarrow> ('a, 's) kop" where
  "kfail e s = Inr (Fail e, s)"

definition kstop :: "kerr \<Rightarrow> ('a, 's) kop" where
  "kstop e s = Inl e"

definition kbind :: "('a, 's) kop \<Rightarrow> ('a \<Rightarrow> ('b, 's) kop) \<Rightarrow> ('b, 's) kop" where
  "kbind m f s = rbind (m s) (\<lambda>(r, s). case r of Fail e \<Rightarrow> Inr (Fail e, s) | Done x \<Rightarrow> f x s)"

text \<open>A call whose result code the caller looks at itself.\<close>

definition kcall :: "('a, 's) kop \<Rightarrow> ('a ret \<Rightarrow> ('b, 's) kop) \<Rightarrow> ('b, 's) kop" where
  "kcall m f s = rbind (m s) (\<lambda>(r, s). f r s)"

definition kget :: "('s \<Rightarrow> 'a) \<Rightarrow> ('a, 's) kop" where
  "kget f s = Inr (Done (f s), s)"

definition kmodify :: "('s \<Rightarrow> 's) \<Rightarrow> (unit, 's) kop" where
  "kmodify f s = Inr (Done (), f s)"

definition kcheck :: "('s \<Rightarrow> bool) \<Rightarrow> (unit, 's) kop" where
  "kcheck P s = (if P s then Inr (Done (), s) else Inl KAssertFail)"

text \<open>A result computed without touching the state.\<close>

definition klift :: "('s \<Rightarrow> 'a res) \<Rightarrow> ('a, 's) kop" where
  "klift f s = rbind (f s) (\<lambda>x. Inr (Done x, s))"

text \<open>\<open>for (i = ...) { result = body(i); if (result) return result; }\<close> with a loop variable.\<close>

primrec kfold :: "('i \<Rightarrow> 'a \<Rightarrow> ('a, 's) kop) \<Rightarrow> 'i list \<Rightarrow> 'a \<Rightarrow> ('a, 's) kop" where
  "kfold f [] x = kret x"
| "kfold f (i # is) x = kbind (f i x) (kfold f is)"

section \<open>Evaluation\<close>

named_theorems kop_simps \<open>evaluation of kernel operations\<close>

lemma kop_eval [kop_simps]:
  "kret x s = Inr (Done x, s)" "kfail e s = Inr (Fail e, s)" "kstop k s = Inl k"
  "kget f s = Inr (Done (f s), s)" "kmodify g s = Inr (Done (), g s)"
  by (simp_all add: kret_def kfail_def kstop_def kget_def kmodify_def)

lemma kbind_eval [kop_simps]:
  "m s = Inr (Done x, s') \<Longrightarrow> kbind m f s = f x s'"
  "m s = Inr (Fail e, s') \<Longrightarrow> kbind m f s = Inr (Fail e, s')"
  "m s = Inl k \<Longrightarrow> kbind m f s = Inl k"
  by (simp_all add: kbind_def)

lemma kcall_eval [kop_simps]:
  "m s = Inr (r, s') \<Longrightarrow> kcall m f s = f r s'"
  "m s = Inl k \<Longrightarrow> kcall m f s = Inl k"
  by (simp_all add: kcall_def)

lemma kbind_simps [simp]:
  "kbind (kret x) f s = f x s" "kbind (kget g) f s = f (g s) s" "kbind (kmodify h) f' s = f' () (h s)"
  "kbind (kfail e) f s = Inr (Fail e, s)" "kbind (kstop k) f s = Inl k"
  by (simp_all add: kop_simps)

lemma kcheck_eval [simp]: "P s \<Longrightarrow> kbind (kcheck P) f s = f () s"
  by (simp add: kbind_def kcheck_def)

lemma klift_eval [simp]: "g s = Inr x \<Longrightarrow> kbind (klift g) f s = f x s"
  by (simp add: kbind_def klift_def)

section \<open>Elimination\<close>

text \<open>Code that returned, taken apart step by step.\<close>

lemma kbindE:
  assumes "kbind m f s = Inr (r, s')"
  obtains x t where "m s = Inr (Done x, t)" "f x t = Inr (r, s')"
    | e where "m s = Inr (Fail e, s')" "r = Fail e"
proof -
  obtain q t where m: "m s = Inr (q, t)" and q: "(case q of Fail e \<Rightarrow> Inr (Fail e, t) | Done x \<Rightarrow> f x t) = Inr (r, s')"
    using assms by (auto simp: kbind_def rbind_eq_Inr)
  show thesis
    by (cases q) (use m q that in auto)
qed

lemma kcallE:
  assumes "kcall m f s = Inr (r, s')"
  obtains q t where "m s = Inr (q, t)" "f q t = Inr (r, s')"
  using assms by (auto simp: kcall_def rbind_eq_Inr)

lemma kcheckE:
  assumes "kcheck P s = Inr (r, s')"
  obtains "P s" "r = Done ()" "s' = s"
  using assms by (auto simp: kcheck_def split: if_splits)

lemma kliftE:
  assumes "klift g s = Inr (r, s')"
  obtains x where "g s = Inr x" "r = Done x" "s' = s"
  using assms by (auto simp: klift_def rbind_eq_Inr)

lemma kop_Inr_simps [simp]:
  "kret x s = Inr (r, s') \<longleftrightarrow> r = Done x \<and> s' = s" "kfail e s = Inr (r, s') \<longleftrightarrow> r = Fail e \<and> s' = s"
  "kstop k s = Inr (r, s') \<longleftrightarrow> False" "kget f s = Inr (r, s') \<longleftrightarrow> r = Done (f s) \<and> s' = s"
  "kmodify g s = Inr (q, s') \<longleftrightarrow> q = Done () \<and> s' = g s"
  by (auto simp: kop_simps)

lemma kbind_assoc: "kbind (kbind m f) g = kbind m (\<lambda>x. kbind (f x) g)"
  by (rule ext) (auto simp: kbind_def rbind_def split: sum.splits ret.splits)

lemma kbind_kret: "kbind m kret = m"
  by (rule ext) (auto simp: kbind_def rbind_def kret_def split: sum.splits ret.splits)

lemma kfold_append: "kfold f (xs @ ys) x = kbind (kfold f xs x) (kfold f ys)"
proof (induction xs arbitrary: x)
  case Nil
  show ?case
    by (rule ext) simp
next
  case (Cons i xs)
  have "kfold f (xs @ ys) = (\<lambda>x. kbind (kfold f xs x) (kfold f ys))"
    using Cons.IH by (rule ext)
  then show ?case
    by (simp add: kbind_assoc)
qed

lemma kfold_snoc: "kfold f (xs @ [i]) x = kbind (kfold f xs x) (f i)"
proof -
  have "kfold f [] = kret"
    by (rule ext) simp
  then have "kfold f [i] = f i"
    by (intro ext) (simp add: kbind_kret)
  then show ?thesis
    by (simp only: kfold_append)
qed

text \<open>An invariant of a loop, whether it ends or stops at an error.\<close>

lemma kfold_inv:
  assumes "kfold f xs x s = Inr (r, s')" "I s"
    and "\<And>i x s r s'. i \<in> set xs \<Longrightarrow> f i x s = Inr (r, s') \<Longrightarrow> I s \<Longrightarrow> I s'"
  shows "I s'"
  using assms
proof (induction xs arbitrary: x s)
  case (Cons i xs)
  from Cons.prems(1) show ?case
    unfolding kfold.simps
  proof (cases rule: kbindE)
    case (1 y t)
    then have "I t"
      using Cons.prems(2,3) by (meson list.set_intros(1))
    then show ?thesis
      using Cons.IH [OF 1(2)] Cons.prems(3) by (meson list.set_intros(2))
  next
    case 2
    then show ?thesis
      using Cons.prems(2,3) by (meson list.set_intros(1))
  qed
qed auto

end
