(* ===== verification/Bitmap.thy ===== *)
theory Bitmap
  imports Kernel_Prelude
begin

text \<open>
  The fixed-size bit array of \<open>lib/bitmap.c\<close>, which the SFS file system uses as its free
  block map. The C structure is kept as it is (a bit count and an array of bytes); the
  abstraction \<open>bitmap_bits\<close> is the set of marked indices, and every operation is shown to
  act on that set. \<open>kmalloc\<close> succeeding or not is an argument of \<open>bitmap_create\<close>.
\<close>

section \<open>The structure and its operations\<close>

record bitmap =
  bm_nbits :: u32
  bm_v :: "u8 list"

abbreviation BITS_PER_WORD :: u32 where "BITS_PER_WORD \<equiv> 8"
abbreviation WORD_ALLBITS :: u8 where "WORD_ALLBITS \<equiv> 255"

definition DIVROUNDUP :: "u32 \<Rightarrow> u32 \<Rightarrow> u32" where
  "DIVROUNDUP a b = (a + b - 1) div b"

definition bitmap_create :: "bool \<Rightarrow> bool \<Rightarrow> u32 \<Rightarrow> bitmap option res" where
  "bitmap_create mem_b mem_v nbits =
     (let words = DIVROUNDUP nbits BITS_PER_WORD in
      if \<not> mem_b then Inr None
      else if \<not> mem_v then Inr None
      else let v = replicate (unat words) 0 in
        if words > nbits div BITS_PER_WORD then
          (let ix = words - 1; overbits = nbits - ix * BITS_PER_WORD in
           kassert (nbits div BITS_PER_WORD = words - 1)
             (kassert (overbits > 0 \<and> overbits < BITS_PER_WORD)
                (rbind
                  (rfold (\<lambda>j v. rbind (arr_get v (unat ix))
                      (\<lambda>w. arr_set v (unat ix) (w OR push_bit j 1)))
                    [unat overbits..<8] v)
                  (\<lambda>v. Inr (Some \<lparr>bm_nbits = nbits, bm_v = v\<rparr>)))))
        else Inr (Some \<lparr>bm_nbits = nbits, bm_v = v\<rparr>))"

definition bitmap_getdata :: "bitmap \<Rightarrow> u8 list" where
  "bitmap_getdata b = bm_v b"

definition bitmap_alloc :: "bitmap \<Rightarrow> (u32 ret \<times> bitmap) res" where
  "bitmap_alloc b =
     (let maxix = DIVROUNDUP (bm_nbits b) BITS_PER_WORD in
      rbind (rfind (\<lambda>ix. rbind (arr_get (bm_v b) ix) (\<lambda>w. Inr (w \<noteq> WORD_ALLBITS)))
               [0..<unat maxix])
        (\<lambda>r. case r of
             None \<Rightarrow> Inr (Fail ENOSPC, b)
           | Some ix \<Rightarrow>
               rbind (arr_get (bm_v b) ix) (\<lambda>w.
                 (case find (\<lambda>offset. w AND push_bit offset 1 = 0) [0..<8] of
                    None \<Rightarrow> Inl KAssertFail
                  | Some offset \<Rightarrow>
                      rbind (arr_set (bm_v b) ix (w OR push_bit offset 1)) (\<lambda>v'.
                        (let index = of_nat ix * BITS_PER_WORD + of_nat offset in
                         kassert (index < bm_nbits b)
                           (Inr (Done index, b\<lparr>bm_v := v'\<rparr>))))))))"

definition bitmap_translate :: "u32 \<Rightarrow> nat \<times> u8" where
  "bitmap_translate bitno =
     (unat (bitno div BITS_PER_WORD), push_bit (unat (bitno mod BITS_PER_WORD)) 1)"

definition bitmap_mark :: "bitmap \<Rightarrow> u32 \<Rightarrow> bitmap res" where
  "bitmap_mark b index =
     kassert (index < bm_nbits b)
       (let (ix, mask) = bitmap_translate index in
        rbind (arr_get (bm_v b) ix) (\<lambda>w.
          kassert (w AND mask = 0)
            (rbind (arr_set (bm_v b) ix (w OR mask)) (\<lambda>v'. Inr (b\<lparr>bm_v := v'\<rparr>)))))"

definition bitmap_unmark :: "bitmap \<Rightarrow> u32 \<Rightarrow> bitmap res" where
  "bitmap_unmark b index =
     kassert (index < bm_nbits b)
       (let (ix, mask) = bitmap_translate index in
        rbind (arr_get (bm_v b) ix) (\<lambda>w.
          kassert (w AND mask \<noteq> 0)
            (rbind (arr_set (bm_v b) ix (w AND NOT mask)) (\<lambda>v'. Inr (b\<lparr>bm_v := v'\<rparr>)))))"

definition bitmap_isset :: "bitmap \<Rightarrow> u32 \<Rightarrow> int res" where
  "bitmap_isset b index =
     (let (ix, mask) = bitmap_translate index in
      rbind (arr_get (bm_v b) ix) (\<lambda>w. Inr (uint (w AND mask))))"

section \<open>Well-formed bitmaps and the set they stand for\<close>

text \<open>
  The bit count leaves room for the rounding in \<open>DIVROUNDUP\<close>, the array has exactly the
  rounded-up number of bytes, and the bits past the end are marked in use.
\<close>

definition bitmap_wf :: "bitmap \<Rightarrow> bool" where
  "bitmap_wf b \<longleftrightarrow>
     unat (bm_nbits b) + 7 < 2 ^ 32 \<and>
     length (bm_v b) = (unat (bm_nbits b) + 7) div 8 \<and>
     (\<forall>i\<in>{unat (bm_nbits b)..<8 * length (bm_v b)}. bit (bm_v b ! (i div 8)) (i mod 8))"

definition bitmap_bits :: "bitmap \<Rightarrow> nat set" where
  "bitmap_bits b = {i. i < unat (bm_nbits b) \<and> bit (bm_v b ! (i div 8)) (i mod 8)}"

abbreviation bitmap_size :: "bitmap \<Rightarrow> nat" where
  "bitmap_size b \<equiv> unat (bm_nbits b)"

lemma unat_DIVROUNDUP8:
  assumes "unat n + 7 < 2 ^ 32"
  shows "unat (DIVROUNDUP n 8) = (unat n + 7) div 8"
proof -
  have "unat (n + 7) = unat n + 7"
    using assms by (simp add: unat_word_ariths)
  then show ?thesis
    by (simp add: DIVROUNDUP_def unat_div add.commute [of 7])
qed

lemma unat_div8 [simp]: "unat ((n :: u32) div 8) = unat n div 8"
  by (simp add: unat_div)

lemma unat_mod8 [simp]: "unat ((n :: u32) mod 8) = unat n mod 8"
  by (simp add: unat_mod)

lemma bitmap_wf_index:
  assumes "bitmap_wf b" and "i < bitmap_size b"
  shows "i div 8 < length (bm_v b)"
  using assms by (auto simp: bitmap_wf_def)

lemma bitmap_wf_byte:
  "bitmap_wf b \<Longrightarrow> ix < length (bm_v b) \<Longrightarrow>
     bm_v b ! ix \<noteq> WORD_ALLBITS \<longleftrightarrow> (\<exists>offset<8. 8 * ix + offset < bitmap_size b \<and> 8 * ix + offset \<notin> bitmap_bits b)"
proof -
  assume wf: "bitmap_wf b" and ix: "ix < length (bm_v b)"
  have all: "bm_v b ! ix = 255 \<longleftrightarrow> (\<forall>k<8. bit (bm_v b ! ix) k)"
  proof -
    have "(- 1 :: u8) = 255" by simp
    then show ?thesis using all_ones_iff [of "bm_v b ! ix"] by (simp only:) simp
  qed
  have past: "bit (bm_v b ! ix) k" if "k < 8" "\<not> 8 * ix + k < bitmap_size b" for k
  proof -
    have "8 * ix + k < 8 * length (bm_v b)" using ix that(1) by linarith
    with wf that(2) have "bit (bm_v b ! ((8 * ix + k) div 8)) ((8 * ix + k) mod 8)"
      unfolding bitmap_wf_def by (meson atLeastLessThan_iff not_le)
    with that(1) show ?thesis by simp
  qed
  show ?thesis
    unfolding all by (auto simp: bitmap_bits_def dest: past)
qed

lemma bitmap_set_byte:
  assumes wf: "bitmap_wf b" and i: "i < bitmap_size b"
    and w: "\<And>k. k < 8 \<Longrightarrow> bit w k \<longleftrightarrow> (if k = i mod 8 then x else bit (bm_v b ! (i div 8)) k)"
  shows "bitmap_wf (b\<lparr>bm_v := (bm_v b)[i div 8 := w]\<rparr>)"
    and "bitmap_bits (b\<lparr>bm_v := (bm_v b)[i div 8 := w]\<rparr>) =
          (if x then insert i (bitmap_bits b) else bitmap_bits b - {i})"
proof -
  have len: "i div 8 < length (bm_v b)" using wf i by (rule bitmap_wf_index)
  have nth: "bit ((bm_v b)[i div 8 := w] ! (j div 8)) (j mod 8) \<longleftrightarrow>
       (if j = i then x else bit (bm_v b ! (j div 8)) (j mod 8))" for j
  proof (cases "j div 8 = i div 8")
    case True
    with len w [of "j mod 8"] show ?thesis
      by (auto simp: nth_list_update) (metis div_mult_mod_eq)+
  next
    case False
    then show ?thesis by (auto simp: nth_list_update)
  qed
  show "bitmap_wf (b\<lparr>bm_v := (bm_v b)[i div 8 := w]\<rparr>)"
    using wf i by (auto simp: bitmap_wf_def nth)
  show "bitmap_bits (b\<lparr>bm_v := (bm_v b)[i div 8 := w]\<rparr>) =
          (if x then insert i (bitmap_bits b) else bitmap_bits b - {i})"
    using i by (auto simp: bitmap_bits_def nth)
qed

section \<open>What each operation does to the set\<close>

lemma bitmap_mark_spec:
  assumes "bitmap_wf b" and "index < bm_nbits b" and "unat index \<notin> bitmap_bits b"
  shows "\<exists>b'. bitmap_mark b index = Inr b' \<and> bitmap_wf b' \<and> bm_nbits b' = bm_nbits b \<and>
           bitmap_bits b' = insert (unat index) (bitmap_bits b)"
proof -
  let ?i = "unat index"
  let ?b = "b\<lparr>bm_v := (bm_v b)[?i div 8 := bm_v b ! (?i div 8) OR 2 ^ (?i mod 8)]\<rparr>"
  have i: "?i < bitmap_size b" using assms(2) by (simp add: word_less_nat_alt)
  have "\<not> bit (bm_v b ! (?i div 8)) (?i mod 8)"
    using assms(3) i by (simp add: bitmap_bits_def)
  then have "bitmap_mark b index = Inr ?b"
    using assms(1,2) bitmap_wf_index [OF assms(1) i]
    by (simp add: bitmap_mark_def bitmap_translate_def)
  moreover have "bitmap_wf ?b" and "bitmap_bits ?b = insert ?i (bitmap_bits b)"
    using bitmap_set_byte [OF assms(1) i, of _ True] by auto
  ultimately show ?thesis by auto
qed

lemma bitmap_unmark_spec:
  assumes "bitmap_wf b" and "unat index \<in> bitmap_bits b"
  shows "\<exists>b'. bitmap_unmark b index = Inr b' \<and> bitmap_wf b' \<and> bm_nbits b' = bm_nbits b \<and>
           bitmap_bits b' = bitmap_bits b - {unat index}"
proof -
  let ?i = "unat index"
  let ?b = "b\<lparr>bm_v := (bm_v b)[?i div 8 := bm_v b ! (?i div 8) AND NOT (2 ^ (?i mod 8))]\<rparr>"
  have i: "?i < bitmap_size b" and set: "bit (bm_v b ! (?i div 8)) (?i mod 8)"
    using assms(2) by (simp_all add: bitmap_bits_def)
  then have "bitmap_unmark b index = Inr ?b"
    using bitmap_wf_index [OF assms(1) i]
    by (simp add: bitmap_unmark_def bitmap_translate_def word_less_nat_alt)
  moreover have "bitmap_wf ?b" and "bitmap_bits ?b = bitmap_bits b - {?i}"
    using bitmap_set_byte [OF assms(1) i, of _ False] by auto
  ultimately show ?thesis by auto
qed

lemma bitmap_isset_spec:
  assumes "bitmap_wf b" and "index < bm_nbits b"
  shows "\<exists>x. bitmap_isset b index = Inr x \<and> (x \<noteq> 0 \<longleftrightarrow> unat index \<in> bitmap_bits b)"
proof -
  let ?i = "unat index"
  have i: "?i < bitmap_size b" using assms(2) by (simp add: word_less_nat_alt)
  then show ?thesis
    using bitmap_wf_index [OF assms(1) i]
    by (auto simp: bitmap_isset_def bitmap_translate_def bitmap_bits_def uint_0_iff)
qed

lemma bitmap_alloc_full:
  assumes "bitmap_wf b" and "bitmap_bits b = {..<bitmap_size b}"
  shows "bitmap_alloc b = Inr (Fail ENOSPC, b)"
proof -
  let ?m = "unat (DIVROUNDUP (bm_nbits b) 8)"
  have m: "?m = length (bm_v b)"
    using assms(1) by (simp add: bitmap_wf_def unat_DIVROUNDUP8)
  have "rfind (\<lambda>ix. rbind (arr_get (bm_v b) ix) (\<lambda>w. Inr (w \<noteq> WORD_ALLBITS))) [0..<?m] =
      Inr (find (\<lambda>ix. bm_v b ! ix \<noteq> WORD_ALLBITS) [0..<?m])"
    by (rule rfind_find) (simp add: m)
  moreover have "find (\<lambda>ix. bm_v b ! ix \<noteq> WORD_ALLBITS) [0..<?m] = None"
    using assms(2) by (auto simp: find_upt_None_iff m bitmap_wf_byte [OF assms(1)])
  ultimately show ?thesis
    by (simp add: bitmap_alloc_def Let_def)
qed

lemma bitmap_alloc_first:
  assumes wf: "bitmap_wf b" and i: "i < bitmap_size b" "i \<notin> bitmap_bits b"
    and least: "\<And>j. j < i \<Longrightarrow> j \<in> bitmap_bits b"
  shows "\<exists>b'. bitmap_alloc b = Inr (Done (of_nat i), b') \<and> bitmap_wf b' \<and>
           bm_nbits b' = bm_nbits b \<and> bitmap_bits b' = insert i (bitmap_bits b)"
proof -
  let ?m = "unat (DIVROUNDUP (bm_nbits b) 8)" and ?w = "bm_v b ! (i div 8)"
  let ?b = "b\<lparr>bm_v := (bm_v b)[i div 8 := ?w OR 2 ^ (i mod 8)]\<rparr>"
  have m: "?m = length (bm_v b)"
    using wf by (simp add: bitmap_wf_def unat_DIVROUNDUP8)
  have ix: "i div 8 < length (bm_v b)" using wf i(1) by (rule bitmap_wf_index)
  have "rfind (\<lambda>ix. rbind (arr_get (bm_v b) ix) (\<lambda>w. Inr (w \<noteq> WORD_ALLBITS))) [0..<?m] =
      Inr (find (\<lambda>ix. bm_v b ! ix \<noteq> WORD_ALLBITS) [0..<?m])"
    by (rule rfind_find) (simp add: m)
  moreover have "find (\<lambda>ix. bm_v b ! ix \<noteq> WORD_ALLBITS) [0..<?m] = Some (i div 8)"
  proof -
    have "\<exists>offset<8. 8 * (i div 8) + offset < bitmap_size b \<and> 8 * (i div 8) + offset \<notin> bitmap_bits b"
      using i by (intro exI [of _ "i mod 8"]) simp
    moreover have "8 * j + offset \<in> bitmap_bits b" if "j < i div 8" "offset < 8" for j offset
      using that by (intro least) linarith
    ultimately show ?thesis
      using ix by (auto simp: find_upt_Some_iff m bitmap_wf_byte [OF wf])
  qed
  moreover have "find (\<lambda>offset. ?w AND 2 ^ offset = 0) [0..<8] = Some (i mod 8)"
  proof -
    have "\<not> bit ?w (i mod 8)" using i by (simp add: bitmap_bits_def)
    moreover have "bit ?w k" if "k < i mod 8" for k
    proof -
      have "8 * (i div 8) + k < i" using that by (metis mult_div_mod_eq nat_add_left_cancel_less)
      moreover have "k < 8" using that by simp
      ultimately show ?thesis using least [of "8 * (i div 8) + k"] by (simp add: bitmap_bits_def)
    qed
    ultimately show ?thesis by (auto simp: find_upt_Some_iff)
  qed
  moreover have idx: "of_nat (i div 8) * 8 + of_nat (i mod 8) = (of_nat i :: u32)"
    by (metis div_mult_mod_eq of_nat_add of_nat_mult of_nat_numeral)
  moreover have "(of_nat i :: u32) < bm_nbits b"
    using i(1) by (rule of_nat_less_u32)
  ultimately have "bitmap_alloc b = Inr (Done (of_nat i), ?b)"
    using ix by (simp add: bitmap_alloc_def Let_def idx)
  moreover have "bitmap_wf ?b" and "bitmap_bits ?b = insert i (bitmap_bits b)"
    using bitmap_set_byte [OF wf i(1), of _ True] by auto
  ultimately show ?thesis by auto
qed

lemma fill_overbits:
  assumes "ix < length v" and "k \<le> 8"
  shows "rfold (\<lambda>j v. rbind (arr_get v ix) (\<lambda>w. arr_set v ix (w OR 2 ^ j))) [n..<k] v =
     Inr (v[ix := fold (\<lambda>j w. w OR 2 ^ j) [n..<k] (v ! ix)])"
  using assms
proof (induction k)
  case 0
  then show ?case by simp
next
  case (Suc k)
  then show ?case by (cases "n \<le> k") (simp_all add: rfold_append)
qed

lemma bit_fill_overbits:
  "k \<le> 8 \<Longrightarrow> bit (fold (\<lambda>j w. w OR 2 ^ j) [n..<k] (0 :: u8)) i \<longleftrightarrow> n \<le> i \<and> i < k"
proof (induction k)
  case 0
  then show ?case by simp
next
  case (Suc k)
  then show ?case by (cases "n \<le> k") auto
qed

lemma round_up8: "(n + 7) div 8 = (if n mod 8 = 0 then n div 8 else Suc (n div 8))" for n :: nat
proof -
  have "n + 7 = (n mod 8 + 7) + n div 8 * 8" by simp
  then have "(n + 7) div 8 = (n mod 8 + 7) div 8 + n div 8"
    by (simp only: div_mult_self1)
  moreover have "(n mod 8 + 7) div 8 = (if n mod 8 = 0 then 0 else 1)"
    by (auto intro: div_nat_eqI)
  ultimately show ?thesis by simp
qed

text \<open>
  \<open>bitmap_create\<close> as a value: the array of zero bytes, with the bits past the end of a
  partial last byte set.
\<close>

lemma bitmap_create_eq:
  assumes "unat n + 7 < 2 ^ 32"
  shows "bitmap_create True True n =
     Inr (Some \<lparr>bm_nbits = n, bm_v =
       (if unat n mod 8 = 0 then replicate (unat n div 8) 0
        else replicate (unat n div 8) 0 @ [fold (\<lambda>j w. w OR 2 ^ j) [unat n mod 8..<8] 0])\<rparr>)"
proof -
  let ?w = "DIVROUNDUP n 8"
  have w: "unat ?w = (unat n + 7) div 8" using assms by (rule unat_DIVROUNDUP8)
  show ?thesis
  proof (cases "unat n mod 8 = 0")
    case True
    then have "unat ?w = unat n div 8" using w by (simp add: round_up8)
    moreover from this have "\<not> ?w > n div 8" by (simp add: word_less_nat_alt)
    ultimately show ?thesis using True by (simp add: bitmap_create_def Let_def)
  next
    case False
    then have uw: "unat ?w = Suc (unat n div 8)" using w by (simp add: round_up8)
    then have eq: "n div 8 = ?w - 1"
      by (intro word_unat_eq_iff [THEN iffD2]) (simp add: unat_sub word_le_nat_alt)
    have rep: "replicate (unat ?w) (0 :: u8) = replicate (unat n div 8) 0 @ [0]"
      by (simp add: uw replicate_append_same)
    have over: "n - n div 8 * 8 = n mod 8"
      by (rule minus_div_mult_eq_mod)
    have "?w > n div 8" using uw by (simp add: word_less_nat_alt)
    moreover have "n mod 8 > 0 \<and> n mod 8 < 8"
      using False by (simp add: word_less_nat_alt unat_eq_0)
    moreover have "unat (?w - 1) = unat n div 8" by (simp flip: eq)
    ultimately show ?thesis
      using False
      by (simp add: bitmap_create_def Let_def over rep fill_overbits list_update_append nth_append
            flip: eq)
  qed
qed

lemma last_byte:
  assumes "(i :: nat) < 8 * ((n + 7) div 8)" and "\<not> i div 8 < n div 8"
  shows "n mod 8 \<noteq> 0" and "i div 8 = n div 8" and "n mod 8 \<le> i mod 8 \<longleftrightarrow> n \<le> i"
proof -
  show nz: "n mod 8 \<noteq> 0"
  proof
    assume "n mod 8 = 0"
    then obtain k where "n = 8 * k" by auto
    with assms show False by simp
  qed
  show eq: "i div 8 = n div 8"
    using assms nz by (simp add: round_up8 less_mult_imp_div_less mult.commute)
  show "n mod 8 \<le> i mod 8 \<longleftrightarrow> n \<le> i"
    by (metis eq div_mult_mod_eq nat_add_left_cancel_le)
qed

lemma bitmap_create_spec:
  assumes n: "unat n + 7 < 2 ^ 32"
  shows "\<exists>b. bitmap_create True True n = Inr (Some b) \<and> bitmap_wf b \<and> bm_nbits b = n \<and>
           bitmap_bits b = {}"
proof -
  obtain b where b: "bitmap_create True True n = Inr (Some b)" "bm_nbits b = n"
    and v: "bm_v b = (if unat n mod 8 = 0 then replicate (unat n div 8) 0
        else replicate (unat n div 8) 0 @ [fold (\<lambda>j w. w OR 2 ^ j) [unat n mod 8..<8] 0])"
    by (rule that [OF bitmap_create_eq [OF n]]) simp_all
  have len: "length (bm_v b) = (unat n + 7) div 8"
    by (auto simp: v round_up8)
  have bits: "bit (bm_v b ! (i div 8)) (i mod 8) \<longleftrightarrow> unat n \<le> i" if "i < 8 * length (bm_v b)" for i
  proof (cases "i div 8 < unat n div 8")
    case True
    then have "\<not> unat n \<le> i" by (meson div_le_mono not_le)
    with True show ?thesis by (simp add: v nth_append)
  next
    case False
    note last = last_byte [OF that [unfolded len] False]
    then have "bm_v b ! (i div 8) = fold (\<lambda>j w. w OR 2 ^ j) [unat n mod 8..<8] 0"
      by (simp add: v nth_append)
    with last show ?thesis by (simp add: bit_fill_overbits)
  qed
  have "bitmap_wf b"
    using n len bits by (auto simp: bitmap_wf_def b(2))
  moreover have "bitmap_bits b = {}"
  proof -
    have "\<not> bit (bm_v b ! (i div 8)) (i mod 8)" if "i < unat n" for i
      using bits [of i] that unfolding len by linarith
    then show ?thesis by (auto simp: bitmap_bits_def b(2))
  qed
  ultimately show ?thesis using b by blast
qed

section \<open>The free-map interface\<close>

text \<open>
  What the file system relies on: allocation hands out the least free index or reports
  that there is none, unmarking frees exactly one index, and the test reads the set.
\<close>

locale free_map =
  fixes fm_alloc :: "'b \<Rightarrow> (u32 ret \<times> 'b) res"
    and fm_unmark :: "'b \<Rightarrow> u32 \<Rightarrow> 'b res"
    and fm_isset :: "'b \<Rightarrow> u32 \<Rightarrow> int res"
    and fm_bits :: "'b \<Rightarrow> nat set"
    and fm_size :: "'b \<Rightarrow> nat"
    and fm_invar :: "'b \<Rightarrow> bool"
  assumes fm_size_less: "fm_size b < 2 ^ 32"
    and fm_bits_subset: "fm_bits b \<subseteq> {..<fm_size b}"
    and fm_alloc_full: "fm_invar b \<Longrightarrow> fm_bits b = {..<fm_size b} \<Longrightarrow> fm_alloc b = Inr (Fail ENOSPC, b)"
    and fm_alloc_first: "fm_invar b \<Longrightarrow> i < fm_size b \<Longrightarrow> i \<notin> fm_bits b \<Longrightarrow> (\<And>j. j < i \<Longrightarrow> j \<in> fm_bits b) \<Longrightarrow>
       \<exists>b'. fm_alloc b = Inr (Done (of_nat i), b') \<and> fm_invar b' \<and> fm_size b' = fm_size b \<and>
            fm_bits b' = insert i (fm_bits b)"
    and fm_unmark: "fm_invar b \<Longrightarrow> unat k \<in> fm_bits b \<Longrightarrow>
       \<exists>b'. fm_unmark b k = Inr b' \<and> fm_invar b' \<and> fm_size b' = fm_size b \<and> fm_bits b' = fm_bits b - {unat k}"
    and fm_isset: "fm_invar b \<Longrightarrow> unat k < fm_size b \<Longrightarrow>
       \<exists>x. fm_isset b k = Inr x \<and> (x \<noteq> 0 \<longleftrightarrow> unat k \<in> fm_bits b)"
begin

lemma alloc_cases:
  assumes "fm_invar b"
  obtains (full) "fm_alloc b = Inr (Fail ENOSPC, b)" "fm_bits b = {..<fm_size b}"
  | (got) k b' where "fm_alloc b = Inr (Done k, b')" "unat k < fm_size b" "unat k \<notin> fm_bits b"
      "\<forall>j<unat k. j \<in> fm_bits b" "fm_invar b'" "fm_size b' = fm_size b"
      "fm_bits b' = insert (unat k) (fm_bits b)"
proof (cases "fm_bits b = {..<fm_size b}")
  case True
  with assms show thesis by (intro full fm_alloc_full)
next
  case False
  then obtain i0 where "i0 < fm_size b" "i0 \<notin> fm_bits b"
    using fm_bits_subset [of b] by blast
  define i where "i = (LEAST i. i \<notin> fm_bits b)"
  have i: "i \<notin> fm_bits b" "i \<le> i0" and least: "\<And>j. j < i \<Longrightarrow> j \<in> fm_bits b"
    unfolding i_def using \<open>i0 \<notin> fm_bits b\<close> LeastI [of "\<lambda>i. i \<notin> fm_bits b" i0]
    by (auto intro: Least_le dest: not_less_Least)
  have "i < fm_size b" using i(2) \<open>i0 < fm_size b\<close> by simp
  moreover from this have "unat (of_nat i :: u32) = i"
    using fm_size_less [of b] by simp
  moreover obtain b' where "fm_alloc b = Inr (Done (of_nat i), b')" "fm_invar b'"
      "fm_size b' = fm_size b" "fm_bits b' = insert i (fm_bits b)"
    using fm_alloc_first [OF assms \<open>i < fm_size b\<close> i(1) least] by blast
  ultimately show thesis
    using i(1) least by (intro got [of "of_nat i" b']) simp_all
qed

lemma alloc_preserves:
  assumes "fm_invar b" and "fm_alloc b = Inr (r, b')"
  shows "fm_invar b' \<and> fm_size b' = fm_size b"
  using assms(1) by (cases rule: alloc_cases) (use assms in simp_all)

lemma alloc_unmark:
  assumes "fm_invar b" and "fm_alloc b = Inr (Done k, b')"
  shows "\<exists>b''. fm_unmark b' k = Inr b'' \<and> fm_invar b'' \<and> fm_size b'' = fm_size b \<and> fm_bits b'' = fm_bits b"
  using assms(1)
proof (cases rule: alloc_cases)
  case full
  with assms(2) show ?thesis by simp
next
  case (got k' c)
  with assms(2) have [simp]: "k' = k" "c = b'" by simp_all
  from got fm_unmark [of b' k] show ?thesis by auto
qed

end

interpretation bm: free_map bitmap_alloc bitmap_unmark bitmap_isset bitmap_bits bitmap_size bitmap_wf
proof unfold_locales
  show "bitmap_size b < 2 ^ 32" for b
    by (rule unat_u32_less)
  show "bitmap_bits b \<subseteq> {..<bitmap_size b}" for b
    by (auto simp: bitmap_bits_def)
  show "bitmap_alloc b = Inr (Fail ENOSPC, b)" if "bitmap_wf b" "bitmap_bits b = {..<bitmap_size b}" for b
    using that by (rule bitmap_alloc_full)
  show "\<exists>b'. bitmap_alloc b = Inr (Done (of_nat i), b') \<and> bitmap_wf b' \<and>
      bitmap_size b' = bitmap_size b \<and> bitmap_bits b' = insert i (bitmap_bits b)"
    if "bitmap_wf b" "i < bitmap_size b" "i \<notin> bitmap_bits b" "\<And>j. j < i \<Longrightarrow> j \<in> bitmap_bits b" for b i
    using bitmap_alloc_first [OF that] by auto
  show "\<exists>b'. bitmap_unmark b k = Inr b' \<and> bitmap_wf b' \<and> bitmap_size b' = bitmap_size b \<and>
      bitmap_bits b' = bitmap_bits b - {unat k}"
    if "bitmap_wf b" "unat k \<in> bitmap_bits b" for b k
    using bitmap_unmark_spec [OF that] by auto
  show "\<exists>x. bitmap_isset b k = Inr x \<and> (x \<noteq> 0 \<longleftrightarrow> unat k \<in> bitmap_bits b)"
    if "bitmap_wf b" "unat k < bitmap_size b" for b k
    using that by (intro bitmap_isset_spec) (simp_all add: word_less_nat_alt)
qed

section \<open>Properties\<close>

text \<open>
  C31: \<open>bitmap_alloc\<close> on a well-formed bitmap either finds no clear bit and returns
  \<open>ENOSPC\<close> leaving the bitmap as it was, or returns the least clear index, which is below
  \<open>nbits\<close>, marks exactly that index and keeps the bitmap well-formed; no \<open>KASSERT\<close> of it
  can fail.
\<close>

theorem bitmap_alloc_correct:
  assumes "bitmap_wf b"
  shows "(bitmap_bits b = {..<unat (bm_nbits b)} \<and> bitmap_alloc b = Inr (Fail ENOSPC, b)) \<or>
    (\<exists>k b'. bitmap_alloc b = Inr (Done k, b') \<and> k < bm_nbits b \<and> unat k \<notin> bitmap_bits b \<and>
       {..<unat k} \<subseteq> bitmap_bits b \<and> bitmap_wf b' \<and> bm_nbits b' = bm_nbits b \<and>
       bitmap_bits b' = insert (unat k) (bitmap_bits b))"
proof (cases rule: bm.alloc_cases [OF assms])
  case 1
  then show ?thesis by simp
next
  case (2 k b')
  then show ?thesis
    by (intro disjI2 exI [of _ k] exI [of _ b']) (auto simp: word_less_nat_alt word_unat_eq_iff)
qed

theorem bitmap_alloc_correct_witness:
  "bitmap_wf \<lparr>bm_nbits = 10, bm_v = [255, 253]\<rparr> \<and>
   (\<exists>k b'. bitmap_alloc \<lparr>bm_nbits = 10, bm_v = [255, 253]\<rparr> = Inr (Done k, b') \<and> k < 10 \<and>
      bitmap_bits b' = insert (unat k) (bitmap_bits \<lparr>bm_nbits = 10, bm_v = [255, 253]\<rparr>))"
proof -
  let ?b = "\<lparr>bm_nbits = 10, bm_v = [255, 253]\<rparr>"
  have wf: "bitmap_wf ?b"
    by (simp add: bitmap_wf_def atLeastLessThan_upt del: set_upt atLeastLessThan_iff)
  have "9 \<notin> bitmap_bits ?b" by (simp add: bitmap_bits_def)
  moreover have "9 \<in> {..<unat (bm_nbits ?b)}" by simp
  ultimately have "bitmap_bits ?b \<noteq> {..<unat (bm_nbits ?b)}" by blast
  with bitmap_alloc_correct [OF wf] have "\<exists>k b'. bitmap_alloc ?b = Inr (Done k, b') \<and>
      k < bm_nbits ?b \<and> bitmap_bits b' = insert (unat k) (bitmap_bits ?b)"
    by blast
  with wf show ?thesis by simp
qed

text \<open>
  \<open>bitmap_create\<close>, when its two allocations succeed and \<open>nbits\<close> is small enough for
  the rounding to byte size not to wrap around, passes its own assertions and returns a
  well-formed bitmap of \<open>nbits\<close> bits, all of them clear, with the spare bits of the last
  byte marked.
\<close>

theorem bitmap_create_correct:
  assumes "nbits \<le> 0xfffffff8"
  shows "\<exists>b. bitmap_create True True nbits = Inr (Some b) \<and> bitmap_wf b \<and>
           bm_nbits b = nbits \<and> bitmap_bits b = {}"
proof (rule bitmap_create_spec)
  show "unat nbits + 7 < 2 ^ 32"
    using assms by (simp add: word_le_nat_alt)
qed

theorem bitmap_create_correct_witness:
  "(100 :: u32) \<le> 0xfffffff8 \<and>
   (\<exists>b. bitmap_create True True 100 = Inr (Some b) \<and> bitmap_wf b \<and> bitmap_bits b = {})"
  using bitmap_create_correct [of 100] by auto

text \<open>
  C32: freeing what was just allocated restores the bitmap's set: if \<open>bitmap_alloc\<close> returned
  index \<open>k\<close>, then \<open>bitmap_unmark\<close> of \<open>k\<close> succeeds and the marked indices are again those
  before the allocation.
\<close>

theorem bitmap_alloc_unmark:
  assumes "bitmap_wf b" and "bitmap_alloc b = Inr (Done k, b')"
  shows "\<exists>b''. bitmap_unmark b' k = Inr b'' \<and> bitmap_wf b'' \<and> bitmap_bits b'' = bitmap_bits b"
  using bm.alloc_unmark [OF assms] by blast

theorem bitmap_alloc_unmark_witness:
  "\<exists>b''. bitmap_unmark \<lparr>bm_nbits = 10, bm_v = [255, 255]\<rparr> 9 = Inr b'' \<and>
     bitmap_bits b'' = bitmap_bits \<lparr>bm_nbits = 10, bm_v = [255, 253]\<rparr>"
proof -
  let ?b = "\<lparr>bm_nbits = 10, bm_v = [255, 253]\<rparr>"
  have "bitmap_wf ?b"
    by (simp add: bitmap_wf_def atLeastLessThan_upt del: set_upt atLeastLessThan_iff)
  moreover have "bitmap_alloc ?b = Inr (Done 9, \<lparr>bm_nbits = 10, bm_v = [255, 255]\<rparr>)"
    by (simp add: bitmap_alloc_def DIVROUNDUP_def eval_simps)
  ultimately have "\<exists>b''. bitmap_unmark \<lparr>bm_nbits = 10, bm_v = [255, 255]\<rparr> 9 = Inr b'' \<and>
      bitmap_wf b'' \<and> bitmap_bits b'' = bitmap_bits ?b"
    by (rule bitmap_alloc_unmark)
  then show ?thesis by blast
qed

end
