(* ===== verification/Copyinout.thy ===== *)
theory Copyinout
  imports Kernel_Monad Mips_Vm
begin

text \<open>
  Copying between kernel and user memory, vm/copyinout.c. Memory is a map from addresses to
  bytes. Whether an access to user memory faults, and what a copy that faults half-way has
  already written, depends on the trap code and on \<open>memcpy\<close>; both are arguments, the record
  \<open>user_access\<close>.
\<close>

type_synonym bytes = "u32 \<Rightarrow> u8"

definition peek :: "bytes \<Rightarrow> u32 \<Rightarrow> nat \<Rightarrow> u8 list" where
  "peek m a n = map (\<lambda>i. m (a + of_nat i)) [0..<n]"

definition poke :: "bytes \<Rightarrow> u32 \<Rightarrow> u8 list \<Rightarrow> bytes" where
  "poke m a xs = (\<lambda>x. if unat (x - a) < length xs then xs ! unat (x - a) else m x)"

record user_access =
  ua_faults :: "u32 \<Rightarrow> nat \<Rightarrow> bool"
  ua_partial :: "u32 \<Rightarrow> u8 list \<Rightarrow> bytes \<Rightarrow> bytes"

section \<open>Operations\<close>

text \<open>\<open>copycheck\<close> returns the error code and \<open>stoplen\<close>.\<close>

definition copycheck :: "u32 \<Rightarrow> u32 \<Rightarrow> int \<times> u32" where
  "copycheck userptr len =
     (let stoplen = len; bot = userptr; top = bot + len - 1 in
      if top < bot then (EFAULT, stoplen)
      else if bot \<ge> USERSPACETOP then (EFAULT, stoplen)
      else
        let stoplen = (if top \<ge> USERSPACETOP then USERSPACETOP - bot else stoplen) in (0, stoplen))"

text \<open>\<open>copyin\<close> hands back the bytes that were copied to \<open>dest\<close>.\<close>

definition copyin :: "user_access \<Rightarrow> u32 \<Rightarrow> u32 \<Rightarrow> bytes \<Rightarrow> u8 list ret" where
  "copyin ua usersrc len m =
     (let (result, stoplen) = copycheck usersrc len in
      if result \<noteq> 0 then Fail result
      else if stoplen \<noteq> len then Fail EFAULT
      else if ua_faults ua usersrc (unat len) then Fail EFAULT
      else Done (peek m usersrc (unat len)))"

definition copyout :: "user_access \<Rightarrow> u8 list \<Rightarrow> u32 \<Rightarrow> u32 \<Rightarrow> bytes \<Rightarrow> int \<times> bytes" where
  "copyout ua src userdest len m =
     (let (result, stoplen) = copycheck userdest len in
      if result \<noteq> 0 then (result, m)
      else if stoplen \<noteq> len then (EFAULT, m)
      else if ua_faults ua userdest (unat len) then (EFAULT, ua_partial ua userdest (take (unat len) src) m)
      else (0, poke m userdest (take (unat len) src)))"

text \<open>
  The loop of \<open>copystr\<close> at index \<open>i\<close>; \<open>src\<close> is the source string as a function of the
  index. The result is the error code with the bytes stored so far, 0 for success.
\<close>

function copystr_loop :: "(nat \<Rightarrow> u8) \<Rightarrow> nat \<Rightarrow> nat \<Rightarrow> nat \<Rightarrow> u8 list \<Rightarrow> int \<times> u8 list" where
  "copystr_loop src maxlen stoplen i dest =
     (if i < maxlen \<and> i < stoplen then
        let dest = dest @ [src i]
        in if src i = 0 then (0, dest) else copystr_loop src maxlen stoplen (i + 1) dest
      else if stoplen < maxlen then (EFAULT, dest)
      else (ENAMETOOLONG, dest))"
  by pat_completeness auto
termination
  by (relation "measure (\<lambda>(src, maxlen, stoplen, i, dest). maxlen - i)") auto

declare copystr_loop.simps [simp del]

definition copystr :: "(nat \<Rightarrow> u8) \<Rightarrow> nat \<Rightarrow> nat \<Rightarrow> int \<times> u8 list" where
  "copystr src maxlen stoplen = copystr_loop src maxlen stoplen 0 []"

text \<open>
  \<open>copyinstr\<close> and \<open>copyoutstr\<close>: the copy touches the user bytes up to the one where \<open>copystr\<close>
  stops; on success the number of bytes stored is \<open>actual\<close>.
\<close>

definition copyinstr :: "user_access \<Rightarrow> u32 \<Rightarrow> u32 \<Rightarrow> bytes \<Rightarrow> u8 list ret" where
  "copyinstr ua usersrc len m =
     (let (result, stoplen) = copycheck usersrc len in
      if result \<noteq> 0 then Fail result
      else
        let (result, dest) = copystr (\<lambda>i. m (usersrc + of_nat i)) (unat len) (unat stoplen)
        in if ua_faults ua usersrc (length dest) then Fail EFAULT
           else if result \<noteq> 0 then Fail result
           else Done dest)"

definition copyoutstr :: "user_access \<Rightarrow> (nat \<Rightarrow> u8) \<Rightarrow> u32 \<Rightarrow> u32 \<Rightarrow> bytes \<Rightarrow> nat ret \<times> bytes" where
  "copyoutstr ua src userdest len m =
     (let (result, stoplen) = copycheck userdest len in
      if result \<noteq> 0 then (Fail result, m)
      else
        let (result, dest) = copystr src (unat len) (unat stoplen)
        in if ua_faults ua userdest (length dest) then (Fail EFAULT, ua_partial ua userdest dest m)
           else if result \<noteq> 0 then (Fail result, poke m userdest dest)
           else (Done (length dest), poke m userdest dest))"

section \<open>The check of user regions\<close>

lemma copycheck_cases:
  assumes "len \<noteq> 0"
  shows "copycheck p len =
    (if unat p + unat len > 2 ^ 32 \<or> USERSPACETOP \<le> p then (EFAULT, len)
     else (0, min len (USERSPACETOP - p)))"
proof -
  have pos: "0 < unat len"
    using assms by (simp add: unat_gt_0)
  have lt: "unat p < 2 ^ 32" "unat len < 2 ^ 32"
    using unat_u32_less by blast+
  have "unat (p + len - 1) = (unat p + (unat len - 1)) mod 2 ^ 32"
    using unat_word_ariths(1) [of p "len - 1"] unat_minus_one [OF assms] by (simp add: add_diff_eq)
  then have top: "unat (p + len - 1) = (if unat p + unat len > 2 ^ 32 then unat p + unat len - 1 - 2 ^ 32 else unat p + unat len - 1)"
    using lt pos by (auto simp: mod_if)
  then have wrap: "p + len - 1 < p \<longleftrightarrow> unat p + unat len > 2 ^ 32"
    using lt pos by (auto simp: word_less_nat_alt)
  have stop: "(if USERSPACETOP \<le> p + len - 1 then USERSPACETOP - p else len) = min len (USERSPACETOP - p)"
    if "\<not> unat p + unat len > 2 ^ 32" "p < USERSPACETOP"
  proof -
    have u: "unat (USERSPACETOP - p) = 0x80000000 - unat p"
      using that(2) by (subst unat_sub) (auto simp: word_le_nat_alt word_less_nat_alt)
    have "unat p < 0x80000000"
      using that(2) by (simp add: word_less_nat_alt)
    then show ?thesis
      using that(1) top pos u by (auto simp: min_def word_le_nat_alt word_unat_eq_iff)
  qed
  show ?thesis
    using wrap stop by (auto simp: copycheck_def Let_def not_le)
qed

lemma copycheck_correct_aux:
  assumes "len \<noteq> 0" "copycheck p len = (e, stop)"
  shows "(e = 0 \<longleftrightarrow> unat p + unat len \<le> 2 ^ 32 \<and> p < USERSPACETOP) \<and> (e \<noteq> 0 \<longrightarrow> e = EFAULT) \<and>
    (e = 0 \<longrightarrow> 0 < stop \<and> stop \<le> len \<and> (\<forall>i<unat stop. p + of_nat i < USERSPACETOP) \<and>
       (stop < len \<longrightarrow> p + stop = USERSPACETOP))"
proof -
  note c = assms(2) [unfolded copycheck_cases [OF assms(1)]]
  show ?thesis
  proof (cases "unat p + unat len > 2 ^ 32 \<or> USERSPACETOP \<le> p")
    case True
    then show ?thesis
      using c by auto
  next
    case False
    then have pl: "unat p + unat len \<le> 2 ^ 32" "p < USERSPACETOP"
      by (simp_all add: not_le)
    have e: "e = 0" "stop = min len (USERSPACETOP - p)"
      using c unfolding if_not_P [OF False] by simp_all
    have u: "unat (USERSPACETOP - p) = 0x80000000 - unat p" and p: "unat p < 0x80000000"
      using pl(2) unat_sub [of p USERSPACETOP] by (auto simp: word_less_nat_alt word_le_nat_alt)
    have s: "unat stop = min (unat len) (0x80000000 - unat p)"
      using u by (auto simp: e(2) min_def word_le_nat_alt)
    have "p + of_nat i < USERSPACETOP" if "i < unat stop" for i
    proof -
      have "unat (p + of_nat i) = (unat p + unat (of_nat i :: u32)) mod 2 ^ 32"
        by (simp add: unat_word_ariths(1))
      also have "\<dots> = unat p + i"
      proof -
        have i: "i < 0x80000000 - unat p"
          using that s by simp
        then have "unat (of_nat i :: u32) = i"
          by (intro unat_of_nat_u32) simp
        then show ?thesis
          using i by simp
      qed
      finally show ?thesis
        using that s p by (auto simp: word_less_nat_alt)
    qed
    moreover have "p + stop = USERSPACETOP" if "stop < len"
      using that s p by (simp add: word_unat_eq_iff word_less_nat_alt unat_word_ariths(1))
    moreover have "0 < stop" "stop \<le> len"
      using s p assms(1) by (auto simp: word_less_nat_alt word_le_nat_alt unat_gt_0)
    ultimately show ?thesis
      using pl e(1) by simp
  qed
qed

text \<open>
  C27: \<open>copycheck\<close> accepts a non-empty region exactly when it does not wrap around and starts in
  user space, and then the length it allows is the largest one, up to the length asked for,
  for which every byte of the region is below the kernel.
\<close>

theorem copycheck_correct:
  assumes "len \<noteq> 0" "copycheck p len = (e, stop)"
  shows "(e = 0 \<longleftrightarrow> unat p + unat len \<le> 2 ^ 32 \<and> p < USERSPACETOP) \<and> (e \<noteq> 0 \<longrightarrow> e = EFAULT) \<and>
    (e = 0 \<longrightarrow> 0 < stop \<and> stop \<le> len \<and> (\<forall>i<unat stop. p + of_nat i < USERSPACETOP) \<and>
       (stop < len \<longrightarrow> p + stop = USERSPACETOP))"
  by (rule copycheck_correct_aux [OF assms])

theorem copycheck_correct_witness:
  "copycheck 0x7ffffff0 0x20 = (0, 0x10) \<and> (0x7ffffff0 :: u32) + 0x10 = USERSPACETOP \<and> (0x10 :: u32) < 0x20"
proof -
  have c: "copycheck 0x7ffffff0 0x20 = (0, 0x10)"
    by (simp add: copycheck_def)
  show ?thesis
    using copycheck_correct [OF _ c] c by simp
qed

section \<open>Kernel memory is out of reach\<close>

lemma copycheck_bounds:
  assumes "copycheck p len = (0, stop)" "n \<le> unat len" "n \<le> unat stop"
  shows "\<And>i. i < n \<Longrightarrow> p + of_nat i < USERSPACETOP" "\<And>x. USERSPACETOP \<le> x \<Longrightarrow> n \<le> unat (x - p)"
proof -
  show i: "p + of_nat i < USERSPACETOP" if "i < n" for i
  proof -
    have "len \<noteq> 0"
      using assms(2) that by auto
    then show ?thesis
      using copycheck_correct_aux [OF _ assms(1)] assms(3) that by auto
  qed
  show "n \<le> unat (x - p)" if "USERSPACETOP \<le> x" for x
  proof (rule ccontr)
    assume "\<not> n \<le> unat (x - p)"
    then have "p + of_nat (unat (x - p)) < USERSPACETOP"
      by (intro i) simp
    then show False
      using that by simp
  qed
qed

lemma copystr_loop_length:
  "i \<le> maxlen \<Longrightarrow> i \<le> stoplen \<Longrightarrow> length dest = i \<Longrightarrow>
   length (snd (copystr_loop src maxlen stoplen i dest)) \<le> min maxlen stoplen"
proof (induction src maxlen stoplen i dest rule: copystr_loop.induct)
  case (1 src maxlen stoplen i dest)
  then show ?case
    by (subst copystr_loop.simps) (auto simp: Let_def)
qed

lemma copystr_loop_cong:
  "(\<And>k. k < min maxlen stoplen \<Longrightarrow> src k = src' k) \<Longrightarrow>
   copystr_loop src maxlen stoplen i dest = copystr_loop src' maxlen stoplen i dest"
proof (induction src maxlen stoplen i dest rule: copystr_loop.induct)
  case (1 src maxlen stoplen i dest)
  then show ?case
    by (subst (1 2) copystr_loop.simps) (auto simp: Let_def)
qed

lemma copystr_length: "length (snd (copystr src maxlen stoplen)) \<le> min maxlen stoplen"
  unfolding copystr_def by (rule copystr_loop_length) simp_all

lemma poke_outside: "length xs \<le> unat (x - a) \<Longrightarrow> poke m a xs x = m x"
  by (simp add: poke_def)

text \<open>
  C26: No copy routine reads or writes kernel memory on behalf of a user pointer: whatever
  \<open>copyout\<close> and \<open>copyoutstr\<close> return, the memory at and above \<open>USERSPACETOP\<close> is as before, and
  the bytes \<open>copyin\<close> and \<open>copyinstr\<close> return do not depend on it. The hypothesis is that a copy
  that faults half-way has written only inside the region it was given.
\<close>

theorem copy_kernel_safe:
  assumes "\<And>a xs m x. length xs \<le> unat (x - a) \<Longrightarrow> ua_partial ua a xs m x = m x"
    and "\<And>x. x < USERSPACETOP \<Longrightarrow> m x = m' x" "USERSPACETOP \<le> x"
  shows "snd (copyout ua src p len m) x = m x \<and> snd (copyoutstr ua str p len m) x = m x \<and>
    copyin ua p len m = copyin ua p len m' \<and> copyinstr ua p len m = copyinstr ua p len m'"
proof (cases "fst (copycheck p len) = 0")
  case True
  then obtain stop where c: "copycheck p len = (0, stop)"
    by (metis prod.collapse)
  note b = copycheck_bounds [OF c]
  have str: "length (snd (copystr f (unat len) (unat stop))) \<le> unat (x - p)" for f
    using copystr_length [of f "unat len" "unat stop"] by (intro b(2) [OF _ _ assms(3)]) simp_all
  have "snd (copyout ua src p len m) x = m x"
  proof (cases "stop = len")
    case True
    then have "length (take (unat len) src) \<le> unat (x - p)"
      by (intro b(2) [OF _ _ assms(3)]) simp_all
    then show ?thesis
      using c True by (simp add: copyout_def assms(1) poke_outside)
  qed (simp add: copyout_def c)
  moreover have "snd (copyoutstr ua str p len m) x = m x"
    using str [of str]
    by (cases "copystr str (unat len) (unat stop)") (simp add: copyoutstr_def c assms(1) poke_outside Let_def)
  moreover have "copyin ua p len m = copyin ua p len m'"
  proof (cases "stop = len")
    case True
    then have "peek m p (unat len) = peek m' p (unat len)"
      using assms(2) b(1) [of "unat len"] by (simp add: peek_def)
    then show ?thesis
      by (simp add: copyin_def c)
  qed (simp add: copyin_def c)
  moreover have "copyinstr ua p len m = copyinstr ua p len m'"
  proof -
    have "copystr (\<lambda>i. m (p + of_nat i)) (unat len) (unat stop) = copystr (\<lambda>i. m' (p + of_nat i)) (unat len) (unat stop)"
      unfolding copystr_def using assms(2) b(1) [of "min (unat len) (unat stop)"] by (intro copystr_loop_cong) simp
    then show ?thesis
      by (simp add: copyinstr_def c)
  qed
  ultimately show ?thesis
    by blast
next
  case False
  then show ?thesis
    by (cases "copycheck p len") (simp add: copyout_def copyoutstr_def copyin_def copyinstr_def)
qed

definition example_access :: user_access where
  "example_access = \<lparr>ua_faults = (\<lambda>a n. a + of_nat n > 0x10002000), ua_partial = (\<lambda>a xs m. m)\<rparr>"

theorem copy_kernel_safe_witness:
  "copyout example_access [7, 8] 0x7fffffff 2 (\<lambda>_. 1) = (EFAULT, \<lambda>_. 1) \<and>
   snd (copyout example_access [7, 8] 0x10000000 2 (\<lambda>_. 1)) 0x80000000 = 1"
  using copy_kernel_safe [of example_access "\<lambda>_. 1" "\<lambda>_. 1" "0x80000000" "[7, 8]" "0x10000000" 2 "\<lambda>_. 0"]
  by (simp add: example_access_def copyout_def copycheck_def)

text \<open>
  C38: A region of length 0 is refused everywhere: \<open>copyin\<close> and \<open>copyout\<close> return \<open>EFAULT\<close> for it at every
  address, although no byte of it is in the kernel.
\<close>

theorem copy_empty_refused:
  "copyin ua p 0 m = Fail EFAULT \<and> copyout ua src p 0 m = (EFAULT, m)"
proof (cases "p = 0")
  case True
  then show ?thesis
    by (simp add: copyin_def copyout_def copycheck_def Let_def)
next
  case False
  then have "p - 1 < p"
    by (simp add: word_less_nat_alt unat_minus_one unat_gt_0)
  then show ?thesis
    by (simp add: copyin_def copyout_def copycheck_def Let_def)
qed

end
