(* ===== verification/Uio.thy ===== *)
theory Uio
  imports Copyinout
begin

text \<open>
  The descriptor of an I/O transfer, lib/uio.c and include/uio.h. The kernel buffer of \<open>uiomove\<close> is
  a list of bytes: on a read its bytes go to the regions the descriptor names, on a write
  bytes from those regions replace its contents from the front.
\<close>

datatype uio_rw = UIO_READ | UIO_WRITE
datatype uio_seg = UIO_USERISPACE | UIO_USERSPACE | UIO_SYSSPACE

record iovec =
  iov_base :: u32
  iov_len :: u32

record uio =
  uio_iov :: "iovec list"
  uio_offset :: int
  uio_resid :: u32
  uio_segflg :: uio_seg
  uio_rw :: uio_rw
  uio_space :: u32

definition uio_kinit :: "u32 \<Rightarrow> u32 \<Rightarrow> int \<Rightarrow> uio_rw \<Rightarrow> uio" where
  "uio_kinit kbuf len pos rw =
     \<lparr>uio_iov = [\<lparr>iov_base = kbuf, iov_len = len\<rparr>], uio_offset = pos, uio_resid = len, uio_segflg = UIO_SYSSPACE,
      uio_rw = rw, uio_space = 0\<rparr>"

text \<open>
  The switch of \<open>uiomove\<close>: move \<open>sz\<close> bytes between the region at \<open>base\<close> and \<open>chunk\<close>, the bytes at the
  kernel pointer. The result is the error code, the bytes at the kernel pointer and the
  memory.
\<close>

definition uio_transfer :: "user_access \<Rightarrow> uio \<Rightarrow> u32 \<Rightarrow> u32 \<Rightarrow> u8 list \<Rightarrow> bytes \<Rightarrow> int \<times> u8 list \<times> bytes" where
  "uio_transfer ua u base sz chunk m =
     (case uio_segflg u of
        UIO_SYSSPACE \<Rightarrow>
          (if uio_rw u = UIO_READ then (0, chunk, poke m base chunk) else (0, peek m base (unat sz), m))
      | _ \<Rightarrow>
          (if uio_rw u = UIO_READ then (case copyout ua chunk base sz m of (result, m) \<Rightarrow> (result, chunk, m))
           else (case copyin ua base sz m of Fail result \<Rightarrow> (result, chunk, m) | Done xs \<Rightarrow> (0, xs, m))))"

lemma word_sub_less: "sz \<le> n \<Longrightarrow> sz \<noteq> 0 \<Longrightarrow> unat (n - sz) < unat (n :: u32)"
  using unat_gt_0 [of sz] by (simp add: unat_sub word_le_nat_alt)

text \<open>The loop of \<open>uiomove\<close>; \<open>pos\<close> is how far \<open>ptr\<close> has moved into the kernel buffer.\<close>

function uiomove_loop ::
    "user_access \<Rightarrow> u8 list \<Rightarrow> nat \<Rightarrow> u32 \<Rightarrow> uio \<Rightarrow> bytes \<Rightarrow> (int \<times> u8 list \<times> uio \<times> bytes) res" where
  "uiomove_loop ua ptr pos n u m =
     (if n > 0 \<and> uio_resid u > 0 then
        case uio_iov u of
          [] \<Rightarrow> Inl BadAccess
        | iov # iovs \<Rightarrow>
            let sz = (if iov_len iov > n then n else iov_len iov) in
            if sz = 0 then
              (if iovs = [] then Inl (Panic ''uiomove: ran out of buffers'')
               else uiomove_loop ua ptr pos n (u\<lparr>uio_iov := iovs\<rparr>) m)
            else
              case uio_transfer ua u (iov_base iov) sz (take (unat sz) (drop pos ptr)) m of
                (result, chunk, m) \<Rightarrow>
                  if result \<noteq> 0 then Inr (result, ptr, u, m)
                  else
                    uiomove_loop ua (take pos ptr @ chunk @ drop (pos + unat sz) ptr) (pos + unat sz) (n - sz)
                      (u\<lparr>uio_iov := \<lparr>iov_base = iov_base iov + sz, iov_len = iov_len iov - sz\<rparr> # iovs,
                         uio_resid := uio_resid u - sz, uio_offset := uio_offset u + int (unat sz)\<rparr>) m
      else Inr (0, ptr, u, m))"
  by pat_completeness auto
termination
proof (relation "measure (\<lambda>(ua, ptr, pos, n, u, m). unat n + length (uio_iov u))", goal_cases)
  case (3 ua ptr pos n u m iov iovs sz result chunk m')
  then have "sz \<le> n" "sz \<noteq> 0"
    by (auto split: if_splits)
  then have "unat (n - sz) < unat n"
    by (rule word_sub_less)
  then show ?case
    using 3 by simp
qed auto

declare uiomove_loop.simps [simp del]

definition uiomove :: "user_access \<Rightarrow> u32 \<Rightarrow> u8 list \<Rightarrow> u32 \<Rightarrow> uio \<Rightarrow> bytes \<Rightarrow> (int \<times> u8 list \<times> uio \<times> bytes) res" where
  "uiomove ua proc_as ptr n u m =
     (if uio_segflg u = UIO_SYSSPACE then kassert (uio_space u = 0) (uiomove_loop ua ptr 0 n u m)
      else kassert (uio_space u = proc_as) (uiomove_loop ua ptr 0 n u m))"

text \<open>\<open>uiomovezeros\<close> sends zeros, at most 16 at a time.\<close>

function uiomovezeros_loop :: "user_access \<Rightarrow> u32 \<Rightarrow> u32 \<Rightarrow> uio \<Rightarrow> bytes \<Rightarrow> (int \<times> uio \<times> bytes) res" where
  "uiomovezeros_loop ua proc_as n u m =
     (if n > 0 then
        let amt = (if 16 > n then n else 16)
        in rbind (uiomove ua proc_as (replicate 16 0) amt u m) (\<lambda>(result, ptr, u, m).
           if result \<noteq> 0 then Inr (result, u, m) else uiomovezeros_loop ua proc_as (n - amt) u m)
      else Inr (0, u, m))"
  by pat_completeness auto
termination
proof (relation "measure (\<lambda>(ua, proc_as, n, u, m). unat n)", goal_cases)
  case (2 ua proc_as n u m amt r result ptr u' m')
  then have "amt \<le> n" "amt \<noteq> 0"
    by (auto split: if_splits)
  then show ?case
    by (simp add: word_sub_less)
qed auto

declare uiomovezeros_loop.simps [simp del]

definition uiomovezeros :: "user_access \<Rightarrow> u32 \<Rightarrow> u32 \<Rightarrow> uio \<Rightarrow> bytes \<Rightarrow> (int \<times> uio \<times> bytes) res" where
  "uiomovezeros ua proc_as n u m = kassert (uio_rw u = UIO_READ) (uiomovezeros_loop ua proc_as n u m)"

section \<open>What a transfer does\<close>

text \<open>Bytes spread over regions.\<close>

fun scatter :: "bytes \<Rightarrow> iovec list \<Rightarrow> u8 list \<Rightarrow> bytes" where
  "scatter m [] xs = m"
| "scatter m (iov # iovs) xs =
     scatter (poke m (iov_base iov) (take (unat (iov_len iov)) xs)) iovs (drop (unat (iov_len iov)) xs)"

definition iov_total :: "iovec list \<Rightarrow> nat" where
  "iov_total iovs = sum_list (map (\<lambda>iov. unat (iov_len iov)) iovs)"

lemma iov_total_simps [simp]: "iov_total [] = 0" "iov_total (iov # iovs) = unat (iov_len iov) + iov_total iovs"
  by (simp_all add: iov_total_def)

lemma poke_nil [simp]: "poke m a [] = m"
  by (simp add: poke_def)

lemma scatter_nil [simp]: "scatter m iovs [] = m"
  by (induction iovs) simp_all

text \<open>One iteration that moves bytes, and one that skips an empty region.\<close>

lemma uiomove_loop_skip:
  assumes "n \<noteq> 0" "uio_resid u \<noteq> 0" "uio_iov u = iov # iovs" "iov_len iov = 0" "iovs \<noteq> []"
  shows "uiomove_loop ua ptr pos n u m = uiomove_loop ua ptr pos n (u\<lparr>uio_iov := iovs\<rparr>) m"
  using assms by (subst uiomove_loop.simps) (simp add: word_gt_0)

definition uio_advance :: "u32 \<Rightarrow> iovec \<Rightarrow> iovec list \<Rightarrow> uio \<Rightarrow> uio" where
  "uio_advance sz iov iovs u =
     u\<lparr>uio_iov := \<lparr>iov_base = iov_base iov + sz, iov_len = iov_len iov - sz\<rparr> # iovs,
       uio_resid := uio_resid u - sz, uio_offset := uio_offset u + int (unat sz)\<rparr>"

lemma uio_advance_fields [simp]:
  "uio_iov (uio_advance sz iov iovs u) = \<lparr>iov_base = iov_base iov + sz, iov_len = iov_len iov - sz\<rparr> # iovs"
  "uio_resid (uio_advance sz iov iovs u) = uio_resid u - sz"
  "uio_offset (uio_advance sz iov iovs u) = uio_offset u + int (unat sz)"
  "uio_segflg (uio_advance sz iov iovs u) = uio_segflg u" "uio_rw (uio_advance sz iov iovs u) = uio_rw u"
  by (simp_all add: uio_advance_def)

lemma uiomove_loop_move:
  assumes "n \<noteq> 0" "uio_resid u \<noteq> 0" "uio_iov u = iov # iovs" "sz = min n (iov_len iov)" "sz \<noteq> 0"
    and "uio_transfer ua u (iov_base iov) sz (take (unat sz) (drop pos ptr)) m = (0, chunk, m')"
  shows "uiomove_loop ua ptr pos n u m =
    uiomove_loop ua (take pos ptr @ chunk @ drop (pos + unat sz) ptr) (pos + unat sz) (n - sz) (uio_advance sz iov iovs u) m'"
proof -
  have "(if n < iov_len iov then n else iov_len iov) = sz"
    using assms(4) by (auto simp: min_def)
  then show ?thesis
    using assms(1-3,5,6) by (subst uiomove_loop.simps) (simp add: word_gt_0 Let_def uio_advance_def)
qed

lemma uiomove_loop_read:
  assumes "uio_segflg u = UIO_SYSSPACE" "uio_rw u = UIO_READ" "pos + unat n = length ptr" "n \<le> uio_resid u"
    "unat n \<le> iov_total (uio_iov u)"
  shows "\<exists>u'. uiomove_loop ua ptr pos n u m = Inr (0, ptr, u', scatter m (uio_iov u) (drop pos ptr)) \<and>
    uio_resid u' = uio_resid u - n \<and> uio_offset u' = uio_offset u + int (unat n)"
  using assms
proof (induction "unat n + length (uio_iov u)" arbitrary: pos n u m rule: less_induct)
  case less
  show ?case
  proof (cases "n = 0")
    case True
    then show ?thesis
      using less.prems(3) by (intro exI [of _ u]) (simp add: uiomove_loop.simps)
  next
    case False
    then have r: "uio_resid u \<noteq> 0"
      using less.prems(4) by (auto simp: word_le_nat_alt unat_eq_zero)
    obtain iov iovs where iov: "uio_iov u = iov # iovs"
      using less.prems(5) False by (cases "uio_iov u") (auto simp: unat_eq_zero)
    show ?thesis
    proof (cases "iov_len iov = 0")
      case True
      then have "iovs \<noteq> []"
        using less.prems(5) False iov by (auto simp: unat_eq_zero)
      then show ?thesis
        using less.hyps [of n "u\<lparr>uio_iov := iovs\<rparr>" pos m] less.prems iov True
        by (simp add: uiomove_loop_skip [OF False r iov True])
    next
      case nz: False
      define sz where "sz = min n (iov_len iov)"
      let ?c = "take (unat sz) (drop pos ptr)"
      let ?m = "poke m (iov_base iov) ?c"
      have le: "sz \<le> n" "sz \<le> iov_len iov" "sz \<noteq> 0" "sz = n \<or> sz = iov_len iov"
        using False nz by (auto simp: sz_def min_def)
      have nat: "unat (n - sz) = unat n - unat sz" "unat sz \<le> unat n" "unat sz \<noteq> 0" "unat n \<le> unat (uio_resid u)"
          "unat (iov_len iov - sz) = unat (iov_len iov) - unat sz" "unat sz \<le> unat (iov_len iov)"
        using le less.prems(4) unat_sub [of sz n] unat_sub [of sz "iov_len iov"] by (simp_all add: word_le_nat_alt unat_eq_zero)
      have res: "n - sz \<le> uio_resid u - sz"
        using nat unat_sub [of sz "uio_resid u"] by (simp add: word_le_nat_alt)
      have step: "uiomove_loop ua ptr pos n u m = uiomove_loop ua ptr (pos + unat sz) (n - sz) (uio_advance sz iov iovs u) ?m"
      proof -
        have "take pos ptr @ ?c @ drop (pos + unat sz) ptr = ptr"
          by (metis append_take_drop_id drop_drop add.commute)
        then show ?thesis
          using uiomove_loop_move [OF False r iov sz_def le(3), of ua pos ptr m ?c ?m] less.prems(1,2)
          by (simp add: uio_transfer_def)
      qed
      have "scatter ?m (uio_iov (uio_advance sz iov iovs u)) (drop (pos + unat sz) ptr) = scatter m (uio_iov u) (drop pos ptr)"
        using le(4) less.prems(3) nat(2,6) by (elim disjE) (simp_all add: iov add.commute)
      moreover have "unat (n - sz) + length (uio_iov (uio_advance sz iov iovs u)) < unat n + length (uio_iov u)"
        using nat(1-3) iov by simp
      ultimately show ?thesis
        using less.hyps [of "n - sz" "uio_advance sz iov iovs u" "pos + unat sz" ?m] less.prems nat res iov
        by (auto simp: step)
    qed
  qed
qed

text \<open>Whatever a transfer does, the direction and the kind of memory stay, and the kernel buffer keeps its size.\<close>

lemma peek_length [simp]: "length (peek m a n) = n"
  by (simp add: peek_def)

lemma uio_transfer_length:
  "uio_transfer ua u base sz chunk m = (0, chunk', m') \<Longrightarrow> length chunk = unat sz \<Longrightarrow> length chunk' = unat sz"
  by (auto simp: uio_transfer_def copyin_def Let_def split: uio_seg.splits if_splits ret.splits prod.splits)

lemma uiomove_loop_frame:
  assumes "uiomove_loop ua ptr pos n u m = Inr (r, ptr', u', m')" "pos + unat n \<le> length ptr"
  shows "uio_rw u' = uio_rw u \<and> uio_segflg u' = uio_segflg u \<and> uio_space u' = uio_space u \<and> length ptr' = length ptr"
  using assms
proof (induction "unat n + length (uio_iov u)" arbitrary: ptr pos n u m rule: less_induct)
  case less
  show ?case
  proof (cases "n > 0 \<and> uio_resid u > 0")
    case False
    then show ?thesis
      using less.prems by (subst (asm) uiomove_loop.simps) auto
  next
    case True
    then obtain iov iovs where iov: "uio_iov u = iov # iovs"
      using less.prems by (subst (asm) uiomove_loop.simps) (auto split: list.splits)
    define sz where "sz = (if iov_len iov > n then n else iov_len iov)"
    show ?thesis
    proof (cases "sz = 0")
      case z: True
      then have skip: "uiomove_loop ua ptr pos n (u\<lparr>uio_iov := iovs\<rparr>) m = Inr (r, ptr', u', m')"
        using less.prems(1) True iov sz_def by (subst (asm) uiomove_loop.simps) (auto simp: Let_def split: if_splits)
      then show ?thesis
        using less.hyps [OF _ skip] less.prems(2) iov by simp
    next
      case nz: False
      have le: "sz \<le> n"
        by (auto simp: sz_def)
      have nat: "unat (n - sz) = unat n - unat sz" "unat sz \<le> unat n" "unat sz \<noteq> 0"
        using le nz unat_sub [of sz n] by (simp_all add: word_le_nat_alt unat_eq_zero)
      let ?c = "take (unat sz) (drop pos ptr)"
      obtain e c m1 where t: "uio_transfer ua u (iov_base iov) sz ?c m = (e, c, m1)"
        by (cases "uio_transfer ua u (iov_base iov) sz ?c m") auto
      let ?p = "take pos ptr @ c @ drop (pos + unat sz) ptr"
      have eq: "uiomove_loop ua ptr pos n u m =
          (if e \<noteq> 0 then Inr (e, ptr, u, m1)
           else uiomove_loop ua ?p (pos + unat sz) (n - sz) (uio_advance sz iov iovs u) m1)"
        using True iov nz t by (subst uiomove_loop.simps) (simp add: sz_def [symmetric] Let_def uio_advance_def)
      show ?thesis
      proof (cases "e = 0")
        case False
        then show ?thesis
          using less.prems(1) eq by simp
      next
        case e: True
        have "length ?c = unat sz"
          using less.prems(2) nat by simp
        then have "length c = unat sz"
          using t e uio_transfer_length by blast
        then have "length ?p = length ptr"
          using less.prems(2) nat by simp
        then show ?thesis
          using less.hyps [of "n - sz" "uio_advance sz iov iovs u" ?p "pos + unat sz" m1] less.prems eq e nat iov
          by (simp add: uio_advance_def)
      qed
    qed
  qed
qed

lemma uiomove_frame:
  assumes "uiomove ua as ptr n u m = Inr (r, ptr', u', m')" "unat n \<le> length ptr"
  shows "uio_rw u' = uio_rw u \<and> uio_segflg u' = uio_segflg u \<and> uio_space u' = uio_space u \<and> length ptr' = length ptr"
proof -
  have "uiomove_loop ua ptr 0 n u m = Inr (r, ptr', u', m')"
    using assms(1) by (auto simp: uiomove_def kassert_def split: if_splits)
  then show ?thesis
    using uiomove_loop_frame [of ua ptr 0 n u m] assms(2) by simp
qed

text \<open>
  C28: A read transfer between kernel buffers is exact: when the descriptor's regions and its
  \<open>uio_resid\<close> have room for the \<open>n\<close> bytes of the buffer, \<open>uiomove\<close> returns 0, writes the bytes in
  order to the regions and nothing else, advances \<open>uio_offset\<close> by \<open>n\<close> and takes \<open>n\<close> off
  \<open>uio_resid\<close>.
\<close>

theorem uiomove_read_scatters:
  assumes "uio_segflg u = UIO_SYSSPACE" "uio_rw u = UIO_READ" "uio_space u = 0" "length ptr = unat n" "n \<le> uio_resid u"
    and "unat n \<le> iov_total (uio_iov u)"
  shows "\<exists>u'. uiomove ua proc_as ptr n u m = Inr (0, ptr, u', scatter m (uio_iov u) ptr) \<and>
    uio_resid u' = uio_resid u - n \<and> uio_offset u' = uio_offset u + int (unat n)"
  using uiomove_loop_read [of u 0 n ptr ua m] assms by (simp add: uiomove_def)

theorem uiomove_read_scatters_witness:
  "\<exists>u'. uiomove example_access 0 [1, 2, 3] 3
      \<lparr>uio_iov = [\<lparr>iov_base = 0x80001000, iov_len = 2\<rparr>, \<lparr>iov_base = 0x80002000, iov_len = 4\<rparr>], uio_offset = 512, uio_resid = 6,
       uio_segflg = UIO_SYSSPACE, uio_rw = UIO_READ, uio_space = 0\<rparr> (\<lambda>_. 0) =
      Inr (0, [1, 2, 3], u', scatter (\<lambda>_. 0) [\<lparr>iov_base = 0x80001000, iov_len = 2\<rparr>, \<lparr>iov_base = 0x80002000, iov_len = 4\<rparr>] [1, 2, 3]) \<and>
     uio_resid u' = 3 \<and> uio_offset u' = 515"
  using uiomove_read_scatters [of "\<lparr>uio_iov = [\<lparr>iov_base = 0x80001000, iov_len = 2\<rparr>, \<lparr>iov_base = 0x80002000, iov_len = 4\<rparr>],
    uio_offset = 512, uio_resid = 6, uio_segflg = UIO_SYSSPACE, uio_rw = UIO_READ, uio_space = 0\<rparr>" "[1, 2, 3]" 3 example_access 0 "\<lambda>_. 0"]
  by simp

end
