(* ===== verification/Synch.thy ===== *)
theory Synch
  imports Kernel_Prelude
begin

text \<open>
  Semaphores, thread/synch.c, on the wait channels of thread/thread.c. The spinlock of a
  semaphore makes each pass of the loop of \<open>P\<close> and each \<open>V\<close> one atomic step; the
  interleaving of the steps of many threads is the relation \<open>sem_step\<close>. Locks and condition
  variables are stubs in this kernel: \<open>lock_do_i_hold\<close> always answers true.
\<close>

section \<open>Operations\<close>

text \<open>A semaphore: its count, and the threads asleep on its wait channel in the order they went to sleep.\<close>

record semaphore =
  sem_count :: u32
  sem_wchan :: "nat list"

text \<open>The three flags say whether the three allocations succeed.\<close>

definition sem_create :: "bool \<Rightarrow> bool \<Rightarrow> bool \<Rightarrow> u32 \<Rightarrow> semaphore option" where
  "sem_create mem_sem mem_name mem_wchan initial_count =
     (if \<not> mem_sem then None
      else if \<not> mem_name then None
      else if \<not> mem_wchan then None
      else Some \<lparr>sem_count = initial_count, sem_wchan = []\<rparr>)"

text \<open>\<open>wchan_destroy\<close> asserts that no thread sleeps on the channel.\<close>

definition sem_destroy :: "semaphore \<Rightarrow> unit res" where
  "sem_destroy sem = kassert (sem_wchan sem = []) (Inr ())"

definition wchan_sleep :: "nat \<Rightarrow> semaphore \<Rightarrow> semaphore" where
  "wchan_sleep t sem = sem\<lparr>sem_wchan := sem_wchan sem @ [t]\<rparr>"

text \<open>\<open>wchan_wakeone\<close> hands back the thread it made runnable.\<close>

definition wchan_wakeone :: "semaphore \<Rightarrow> nat option \<times> semaphore" where
  "wchan_wakeone sem =
     (case sem_wchan sem of [] \<Rightarrow> (None, sem) | target # ts \<Rightarrow> (Some target, sem\<lparr>sem_wchan := ts\<rparr>))"

text \<open>
  One pass of the loop of \<open>P\<close> by thread \<open>t\<close>: either the count is 0 and the thread goes to
  sleep (it makes another pass when it is woken), or the count is decremented and \<open>P\<close> returns.
\<close>

definition P_pass :: "nat \<Rightarrow> semaphore \<Rightarrow> bool \<times> semaphore" where
  "P_pass t sem =
     (if sem_count sem = 0 then (False, wchan_sleep t sem)
      else (True, sem\<lparr>sem_count := sem_count sem - 1\<rparr>))"

definition sem_V :: "semaphore \<Rightarrow> (nat option \<times> semaphore) res" where
  "sem_V sem =
     (let sem = sem\<lparr>sem_count := sem_count sem + 1\<rparr>
      in kassert (sem_count sem > 0) (Inr (wchan_wakeone sem)))"

text \<open>
  \<open>P\<close> and \<open>V\<close> as seen by a thread that runs alone: a \<open>P\<close> on a count of 0 never returns.
  \<open>P\<close> may not be called in an interrupt handler.
\<close>

definition sem_P :: "bool \<Rightarrow> semaphore \<Rightarrow> semaphore res" where
  "sem_P t_in_interrupt sem =
     kassert (\<not> t_in_interrupt)
       (case P_pass 0 sem of (passed, sem) \<Rightarrow> if passed then Inr sem else Inl Blocked)"

text \<open>The lock stubs.\<close>

definition lock_do_i_hold :: "unit \<Rightarrow> bool" where
  "lock_do_i_hold lock = True"

section \<open>Many threads\<close>

text \<open>
  A semaphore with the threads that \<open>V\<close> has woken and that have not run yet, and the number of
  calls of \<open>P\<close> that returned and of \<open>V\<close>.
\<close>

record sem_system =
  sys_sem :: semaphore
  sys_woken :: "nat list"
  sys_passed :: nat
  sys_posted :: nat

definition sys_pass :: "nat \<Rightarrow> sem_system \<Rightarrow> sem_system" where
  "sys_pass t s = (case P_pass t (sys_sem s) of (passed, sem) \<Rightarrow>
     s\<lparr>sys_sem := sem, sys_passed := sys_passed s + (if passed then 1 else 0)\<rparr>)"

inductive sem_step :: "sem_system \<Rightarrow> sem_system \<Rightarrow> bool" where
  call_P: "t \<notin> set (sem_wchan (sys_sem s)) \<Longrightarrow> t \<notin> set (sys_woken s) \<Longrightarrow> sem_step s (sys_pass t s)"
| resume_P: "t \<in> set (sys_woken s) \<Longrightarrow> sem_step s (sys_pass t (s\<lparr>sys_woken := remove1 t (sys_woken s)\<rparr>))"
| call_V: "sem_V (sys_sem s) = Inr (woken, sem) \<Longrightarrow>
    sem_step s (s\<lparr>sys_sem := sem, sys_posted := sys_posted s + 1,
      sys_woken := (case woken of None \<Rightarrow> sys_woken s | Some t \<Rightarrow> sys_woken s @ [t])\<rparr>)"

inductive_cases sem_stepE: "sem_step s s'"

abbreviation sem_start :: "u32 \<Rightarrow> sem_system" where
  "sem_start n \<equiv> \<lparr>sys_sem = \<lparr>sem_count = n, sem_wchan = []\<rparr>, sys_woken = [], sys_passed = 0, sys_posted = 0\<rparr>"

text \<open>
  The invariant: the count is the initial count plus the posts minus the passes; a thread is asleep
  at most once, and not both asleep and woken; while a thread sleeps, every unit
  of the count has a woken thread on its way to take it.
\<close>

definition sem_inv :: "u32 \<Rightarrow> sem_system \<Rightarrow> bool" where
  "sem_inv n s \<longleftrightarrow>
     unat (sem_count (sys_sem s)) + sys_passed s = unat n + sys_posted s \<and>
     distinct (sem_wchan (sys_sem s) @ sys_woken s) \<and>
     (sem_wchan (sys_sem s) \<noteq> [] \<longrightarrow> unat (sem_count (sys_sem s)) \<le> length (sys_woken s))"

lemma unat_pred: "(w :: u32) \<noteq> 0 \<Longrightarrow> unat (w - 1) + 1 = unat w"
  using unat_minus_one [of w] unat_gt_0 [of w] by simp

lemma unat_succ: "(w :: u32) + 1 \<noteq> 0 \<Longrightarrow> unat (w + 1) = unat w + 1"
  by (metis add_diff_cancel_right' unat_pred)

lemma V_returns:
  assumes "sem_V sem = Inr (woken, sem')"
  shows "unat (sem_count sem') = unat (sem_count sem) + 1"
    "woken = (case sem_wchan sem of [] \<Rightarrow> None | t # ts \<Rightarrow> Some t)" "sem_wchan sem' = tl (sem_wchan sem)"
  using assms
  by (auto simp: sem_V_def kassert_def wchan_wakeone_def Let_def word_gt_0 unat_succ split: if_splits list.splits)

lemma sem_inv_pass:
  assumes "sem_inv n s" "t \<notin> set (sem_wchan (sys_sem s))" "t \<notin> set (sys_woken s)"
  shows "sem_inv n (sys_pass t s)"
  using assms unat_pred [of "sem_count (sys_sem s)"]
  by (auto simp: sem_inv_def sys_pass_def P_pass_def wchan_sleep_def)

lemma sem_inv_resume:
  assumes "sem_inv n s" "t \<in> set (sys_woken s)"
  shows "sem_inv n (sys_pass t (s\<lparr>sys_woken := remove1 t (sys_woken s)\<rparr>))"
  using assms unat_pred [of "sem_count (sys_sem s)"]
  by (auto simp: sem_inv_def sys_pass_def P_pass_def wchan_sleep_def length_remove1 set_remove1_eq)

lemma sem_inv_V:
  assumes "sem_inv n s" "sem_V (sys_sem s) = Inr (woken, sem)"
  shows "sem_inv n (s\<lparr>sys_sem := sem, sys_posted := Suc (sys_posted s),
    sys_woken := (case woken of None \<Rightarrow> sys_woken s | Some t \<Rightarrow> sys_woken s @ [t])\<rparr>)"
  using assms(1) V_returns [OF assms(2)]
  by (cases "sem_wchan (sys_sem s)") (auto simp: sem_inv_def)

lemma sem_inv_step: "sem_step s s' \<Longrightarrow> sem_inv n s \<Longrightarrow> sem_inv n s'"
  by (elim sem_stepE) (auto intro: sem_inv_pass sem_inv_resume dest: sem_inv_V)

lemma sem_inv_reachable:
  assumes "sem_step\<^sup>*\<^sup>* (sem_start n) s"
  shows "sem_inv n s"
  using assms
proof (induction rule: rtranclp_induct)
  case base
  show ?case by (simp add: sem_inv_def)
next
  case (step y z)
  then show ?case by (simp only: sem_inv_step)
qed

text \<open>
  C9: However the calls of \<open>P\<close> and \<open>V\<close> of many threads interleave, at most as many calls of \<open>P\<close>
  have returned as the initial count and the calls of \<open>V\<close> together allow, the count is exactly
  the difference, and no wake-up is lost: when a thread is asleep although the count is
  positive, a thread that was woken is still on its way, and its next pass returns.
\<close>

theorem semaphore_correct:
  assumes "sem_step\<^sup>*\<^sup>* (sem_start n) s"
  shows "unat (sem_count (sys_sem s)) + sys_passed s = unat n + sys_posted s \<and>
    (sem_wchan (sys_sem s) \<noteq> [] \<and> sem_count (sys_sem s) \<noteq> 0 \<longrightarrow>
       (\<exists>t. t \<in> set (sys_woken s) \<and> fst (P_pass t (sys_sem s))))"
proof (intro conjI impI)
  have inv: "sem_inv n s"
    using assms by (rule sem_inv_reachable)
  then show "unat (sem_count (sys_sem s)) + sys_passed s = unat n + sys_posted s"
    by (simp add: sem_inv_def)
  assume asleep: "sem_wchan (sys_sem s) \<noteq> [] \<and> sem_count (sys_sem s) \<noteq> 0"
  then have "sys_woken s \<noteq> []"
    using inv unat_gt_0 [of "sem_count (sys_sem s)"] by (auto simp: sem_inv_def)
  then show "\<exists>t. t \<in> set (sys_woken s) \<and> fst (P_pass t (sys_sem s))"
    using asleep by (intro exI [of _ "hd (sys_woken s)"]) (simp add: P_pass_def)
qed

text \<open>Threads 1 and 2 sleep on a semaphore of count 0 and thread 3 posts once.\<close>

abbreviation sem_example :: sem_system where
  "sem_example \<equiv> \<lparr>sys_sem = \<lparr>sem_count = 1, sem_wchan = [2]\<rparr>, sys_woken = [1], sys_passed = 0, sys_posted = 1\<rparr>"

lemma sem_example_reachable: "sem_step\<^sup>*\<^sup>* (sem_start 0) sem_example"
proof -
  let ?s1 = "sys_pass 1 (sem_start 0)" and ?s2 = "sys_pass 2 (sys_pass 1 (sem_start 0))"
  have "sem_step (sem_start 0) ?s1" "sem_step ?s1 ?s2"
    by (rule call_P; simp add: sys_pass_def P_pass_def wchan_sleep_def)+
  moreover have "sem_step ?s2 sem_example"
    using call_V [of ?s2 "Some 1" "\<lparr>sem_count = 1, sem_wchan = [2]\<rparr>"]
    by (simp add: sys_pass_def P_pass_def wchan_sleep_def sem_V_def wchan_wakeone_def kassert_def)
  ultimately show ?thesis
    by (meson converse_rtranclp_into_rtranclp rtranclp.rtrancl_refl)
qed

theorem semaphore_correct_witness:
  "unat (sem_count (sys_sem sem_example)) + sys_passed sem_example = unat (0 :: u32) + sys_posted sem_example \<and>
   (\<exists>t. t \<in> set (sys_woken sem_example) \<and> fst (P_pass t (sys_sem sem_example)))"
  using semaphore_correct [OF sem_example_reachable] by simp

end
