(* ===== verification/Lhd.thy ===== *)
theory Lhd
  imports Uio Synch "HOL-Library.Signed_Division"
begin

text \<open>
  The driver of the LAMEbus hard disk, dev/lamebus/lhd.c. The disk itself is hardware: the status
  a request ends with, and what a failed write leaves in its sector, are the
  argument \<open>lhd_hw\<close>; the sectors are part of the driver's state. A request runs to its interrupt
  before the thread that started it continues, so the interrupt handler runs between the
  write of the status register and \<open>P(lh_done)\<close>.
\<close>

section \<open>State\<close>

record lhd_softc =
  lh_buf :: "u8 list"
  lh_result :: int
  lh_clear :: semaphore
  lh_done :: semaphore
  d_blocks :: u32
  d_blocksize :: u32
  lh_stat :: u32
  lh_disk :: "u32 \<Rightarrow> u8 list"
  lh_reqs :: nat

text \<open>
  The hardware: the status at the end of request number \<open>n\<close> for a sector, and the contents of
  a sector after a failed write from its old contents and the buffer.
\<close>

record lhd_hw =
  hw_status :: "nat \<Rightarrow> u32 \<Rightarrow> u32 \<Rightarrow> u32"
  hw_damage :: "nat \<Rightarrow> u8 list \<Rightarrow> u8 list \<Rightarrow> u8 list"

abbreviation LHD_SECTSIZE :: nat where "LHD_SECTSIZE \<equiv> 512"
abbreviation LHD_IDLE :: u32 where "LHD_IDLE \<equiv> 0"
abbreviation LHD_WORKING :: u32 where "LHD_WORKING \<equiv> 1"
abbreviation LHD_ISWRITE :: u32 where "LHD_ISWRITE \<equiv> 2"
abbreviation LHD_OK :: u32 where "LHD_OK \<equiv> 4"
abbreviation LHD_INVSECT :: u32 where "LHD_INVSECT \<equiv> 12"
abbreviation LHD_MEDIA :: u32 where "LHD_MEDIA \<equiv> 20"
abbreviation LHD_STATEMASK :: u32 where "LHD_STATEMASK \<equiv> 0x1d"

section \<open>Operations\<close>

definition lhd_code_to_errno :: "u32 \<Rightarrow> int" where
  "lhd_code_to_errno code =
     (if code AND LHD_STATEMASK = LHD_OK then 0
      else if code AND LHD_STATEMASK = LHD_INVSECT then EINVAL
      else if code AND LHD_STATEMASK = LHD_MEDIA then EIO
      else EAGAIN)"

definition lhd_iodone :: "int \<Rightarrow> 'a lhd_softc_scheme \<Rightarrow> 'a lhd_softc_scheme res" where
  "lhd_iodone err lh =
     (let lh = lh\<lparr>lh_result := err\<rparr>
      in rbind (sem_V (lh_done lh)) (\<lambda>(woken, sem). Inr (lh\<lparr>lh_done := sem\<rparr>)))"

definition lhd_irq :: "'a lhd_softc_scheme \<Rightarrow> 'a lhd_softc_scheme res" where
  "lhd_irq lh =
     (let val = lh_stat lh; state = val AND LHD_STATEMASK in
      if state = LHD_IDLE \<or> state = LHD_WORKING then Inr lh
      else if state = LHD_OK \<or> state = LHD_INVSECT \<or> state = LHD_MEDIA then
        lhd_iodone (lhd_code_to_errno val) (lh\<lparr>lh_stat := 0\<rparr>)
      else Inr lh)"

text \<open>
  The hardware performs the request that \<open>lhd_wreg\<close> of the sector and status registers starts: a
  successful read fills the buffer from the sector, a successful write fills the
  sector from the buffer.
\<close>

definition lhd_request :: "lhd_hw \<Rightarrow> u32 \<Rightarrow> u32 \<Rightarrow> 'a lhd_softc_scheme \<Rightarrow> 'a lhd_softc_scheme" where
  "lhd_request hw sect statval lh =
     (let n = lh_reqs lh;
          val = hw_status hw n sect statval;
          ok = (val AND LHD_STATEMASK = LHD_OK);
          lh = lh\<lparr>lh_reqs := n + 1, lh_stat := val\<rparr>
      in if statval AND LHD_ISWRITE \<noteq> 0 then
           lh\<lparr>lh_disk := (lh_disk lh)(sect :=
             (if ok then lh_buf lh else hw_damage hw n (lh_disk lh sect) (lh_buf lh)))\<rparr>
         else if ok then lh\<lparr>lh_buf := lh_disk lh sect\<rparr>
         else lh)"

text \<open>One round of the loop of \<open>lhd_io\<close>: the transfer of one sector.\<close>

definition lhd_sector ::
    "lhd_hw \<Rightarrow> user_access \<Rightarrow> u32 \<Rightarrow> u32 \<Rightarrow> u32 \<Rightarrow> uio \<Rightarrow> bytes \<Rightarrow> 'a lhd_softc_scheme \<Rightarrow>
     (int \<times> uio \<times> bytes \<times> 'a lhd_softc_scheme) res" where
  "lhd_sector hw ua as statval sect u m lh =
     rbind (sem_P False (lh_clear lh)) (\<lambda>sem.
     let lh = lh\<lparr>lh_clear := sem\<rparr> in
     rbind (if uio_rw u = UIO_WRITE then uiomove ua as (lh_buf lh) (of_nat LHD_SECTSIZE) u m
            else Inr (0, lh_buf lh, u, m)) (\<lambda>(result, buf, u, m).
     let lh = lh\<lparr>lh_buf := buf\<rparr> in
     if result \<noteq> 0 then
       rbind (sem_V (lh_clear lh)) (\<lambda>(woken, sem). Inr (result, u, m, lh\<lparr>lh_clear := sem\<rparr>))
     else
       rbind (lhd_irq (lhd_request hw sect statval lh)) (\<lambda>lh.
       rbind (sem_P False (lh_done lh)) (\<lambda>sem.
       let lh = lh\<lparr>lh_done := sem\<rparr>; result = lh_result lh in
       rbind (if result = 0 \<and> uio_rw u = UIO_READ then uiomove ua as (lh_buf lh) (of_nat LHD_SECTSIZE) u m
              else Inr (result, lh_buf lh, u, m)) (\<lambda>(result, buf, u, m).
       rbind (sem_V (lh_clear lh)) (\<lambda>(woken, sem).
       Inr (result, u, m, lh\<lparr>lh_buf := buf, lh_clear := sem\<rparr>)))))))"

primrec lhd_io_loop ::
    "lhd_hw \<Rightarrow> user_access \<Rightarrow> u32 \<Rightarrow> u32 \<Rightarrow> u32 list \<Rightarrow> uio \<Rightarrow> bytes \<Rightarrow> 'a lhd_softc_scheme \<Rightarrow>
     (int \<times> uio \<times> bytes \<times> 'a lhd_softc_scheme) res" where
  "lhd_io_loop hw ua as statval [] u m lh = Inr (0, u, m, lh)"
| "lhd_io_loop hw ua as statval (sect # sects) u m lh =
     rbind (lhd_sector hw ua as statval sect u m lh) (\<lambda>(result, u, m, lh).
     if result \<noteq> 0 then Inr (result, u, m, lh) else lhd_io_loop hw ua as statval sects u m lh)"

definition lhd_io ::
    "lhd_hw \<Rightarrow> user_access \<Rightarrow> u32 \<Rightarrow> uio \<Rightarrow> bytes \<Rightarrow> 'a lhd_softc_scheme \<Rightarrow>
     (int \<times> uio \<times> bytes \<times> 'a lhd_softc_scheme) res" where
  "lhd_io hw ua as u m lh =
     (let sector = of_int (uio_offset u sdiv int LHD_SECTSIZE) :: u32;
          sectoff = of_int (uio_offset u smod int LHD_SECTSIZE) :: u32;
          len = uio_resid u div of_nat LHD_SECTSIZE;
          lenoff = uio_resid u mod of_nat LHD_SECTSIZE;
          statval = (if uio_rw u = UIO_WRITE then LHD_WORKING OR LHD_ISWRITE else LHD_WORKING)
      in if sectoff \<noteq> 0 \<or> lenoff \<noteq> 0 then Inr (EINVAL, u, m, lh)
         else if sector + len > d_blocks lh then Inr (EINVAL, u, m, lh)
         else lhd_io_loop hw ua as statval (map (\<lambda>i. sector + of_nat i) [0..<unat len]) u m lh)"

definition lhd_eachopen :: "u32 \<Rightarrow> int" where
  "lhd_eachopen openflags = 0"

definition lhd_ioctl :: "u32 \<Rightarrow> u32 \<Rightarrow> int" where
  "lhd_ioctl op data = EIOCTL"

text \<open>
  \<open>config_lhd\<close>: the flags say whether the allocations of the two semaphores succeed, \<open>nsect\<close> is
  the register with the number of sectors, \<open>adddev\<close> the result of \<open>vfs_adddev\<close>, which it returns.
\<close>

definition config_lhd :: "bool \<Rightarrow> bool \<Rightarrow> u32 \<Rightarrow> int \<Rightarrow> 'a lhd_softc_scheme \<Rightarrow> int \<times> 'a lhd_softc_scheme" where
  "config_lhd mem_clear mem_done nsect adddev lh =
     (case sem_create mem_clear mem_clear mem_clear 1 of
        None \<Rightarrow> (ENOMEM, lh)
      | Some clear \<Rightarrow>
          (case sem_create mem_done mem_done mem_done 0 of
             None \<Rightarrow> (ENOMEM, lh)
           | Some done \<Rightarrow> (adddev, lh\<lparr>lh_clear := clear, lh_done := done, d_blocks := nsect, d_blocksize := of_nat LHD_SECTSIZE\<rparr>)))"

section \<open>The device is left idle\<close>

text \<open>
  No thread is inside the driver: \<open>lh_clear\<close> lets one thread in, no completion is pending, and
  nobody sleeps.
\<close>

definition lhd_idle :: "'a lhd_softc_scheme \<Rightarrow> bool" where
  "lhd_idle lh \<longleftrightarrow> lh_clear lh = \<lparr>sem_count = 1, sem_wchan = []\<rparr> \<and> lh_done lh = \<lparr>sem_count = 0, sem_wchan = []\<rparr>"

text \<open>The hardware ends every request with one of its three final states.\<close>

definition hw_completes :: "lhd_hw \<Rightarrow> bool" where
  "hw_completes hw \<longleftrightarrow> (\<forall>n sect st. hw_status hw n sect st AND LHD_STATEMASK \<in> {LHD_OK, LHD_INVSECT, LHD_MEDIA})"

lemma sem_pair [simp]:
  "sem_P False \<lparr>sem_count = 1, sem_wchan = []\<rparr> = Inr \<lparr>sem_count = 0, sem_wchan = []\<rparr>"
  "sem_V \<lparr>sem_count = 0, sem_wchan = []\<rparr> = Inr (None, \<lparr>sem_count = 1, sem_wchan = []\<rparr>)"
  by (simp_all add: sem_P_def P_pass_def sem_V_def wchan_wakeone_def kassert_def)

text \<open>
  The state after a request for one sector: the interrupt handler has cleared the status register
  and saved the result \<open>e\<close>.
\<close>

definition requested :: "int \<Rightarrow> 'a lhd_softc_scheme \<Rightarrow> 'a lhd_softc_scheme" where
  "requested e lh = lh\<lparr>lh_reqs := lh_reqs lh + 1, lh_stat := 0, lh_result := e\<rparr>"

definition stored :: "lhd_hw \<Rightarrow> int \<Rightarrow> u32 \<Rightarrow> 'a lhd_softc_scheme \<Rightarrow> 'a lhd_softc_scheme" where
  "stored hw e sect lh = lh\<lparr>lh_disk := (lh_disk lh)(sect :=
     (if e = 0 then lh_buf lh else hw_damage hw (lh_reqs lh) (lh_disk lh sect) (lh_buf lh)))\<rparr>"

abbreviation hw_errno :: "lhd_hw \<Rightarrow> nat \<Rightarrow> u32 \<Rightarrow> uio_rw \<Rightarrow> int" where
  "hw_errno hw n sect rw \<equiv> lhd_code_to_errno (hw_status hw n sect (if rw = UIO_WRITE then 3 else 1))"

lemma code_to_errno_cases:
  assumes "hw_completes hw"
  shows "lhd_code_to_errno (hw_status hw n sect st) \<in> {0, EINVAL, EIO}"
    "lhd_code_to_errno (hw_status hw n sect st) = 0 \<longleftrightarrow> hw_status hw n sect st AND LHD_STATEMASK = LHD_OK"
proof -
  have "hw_status hw n sect st AND LHD_STATEMASK \<in> {LHD_OK, LHD_INVSECT, LHD_MEDIA}"
    using assms by (simp only: hw_completes_def)
  then show "lhd_code_to_errno (hw_status hw n sect st) \<in> {0, EINVAL, EIO}"
    "lhd_code_to_errno (hw_status hw n sect st) = 0 \<longleftrightarrow> hw_status hw n sect st AND LHD_STATEMASK = LHD_OK"
    by (auto simp: lhd_code_to_errno_def)
qed

text \<open>A request and its interrupt leave one completion for \<open>P(lh_done)\<close>.\<close>

lemma irq_request:
  assumes "hw_completes hw" "lh_done lh = \<lparr>sem_count = 0, sem_wchan = []\<rparr>"
  shows "lhd_irq (lhd_request hw sect (if w then 3 else 1) lh) =
    (let e = lhd_code_to_errno (hw_status hw (lh_reqs lh) sect (if w then 3 else 1));
         lh' = (if w then stored hw e sect lh else if e = 0 then lh\<lparr>lh_buf := lh_disk lh sect\<rparr> else lh)
     in Inr (requested e (lh'\<lparr>lh_done := \<lparr>sem_count = 1, sem_wchan = []\<rparr>\<rparr>)))"
proof -
  let ?v = "hw_status hw (lh_reqs lh) sect (if w then 3 else 1)"
  let ?e = "lhd_code_to_errno ?v"
  have v: "?v AND LHD_STATEMASK \<in> {LHD_OK, LHD_INVSECT, LHD_MEDIA}"
    using assms(1) by (simp only: hw_completes_def)
  have irq: "lhd_irq l = Inr (l\<lparr>lh_stat := 0, lh_result := ?e, lh_done := \<lparr>sem_count = 1, sem_wchan = []\<rparr>\<rparr>)"
    if "lh_stat l = ?v" "lh_done l = \<lparr>sem_count = 0, sem_wchan = []\<rparr>" for l :: "'a lhd_softc_scheme"
    using that v by (auto simp: lhd_irq_def lhd_iodone_def Let_def)
  have "lh_stat (lhd_request hw sect (if w then 3 else 1) lh) = ?v"
    "lh_done (lhd_request hw sect (if w then 3 else 1) lh) = \<lparr>sem_count = 0, sem_wchan = []\<rparr>"
    using assms(2) by (simp_all add: lhd_request_def Let_def)
  note irq [OF this]
  moreover have "lhd_request hw sect (if w then 3 else 1) lh =
      (if w then stored hw ?e sect lh else if ?e = 0 then lh\<lparr>lh_buf := lh_disk lh sect\<rparr> else lh)
        \<lparr>lh_reqs := lh_reqs lh + 1, lh_stat := ?v\<rparr>"
    by (simp add: lhd_request_def Let_def stored_def code_to_errno_cases(2) [OF assms(1)])
  ultimately show ?thesis
    by (simp add: requested_def Let_def stored_def)
qed

text \<open>One sector to a descriptor: the request, then the transfer out of the on-card buffer.\<close>

lemma lhd_sector_read:
  assumes "hw_completes hw" "lhd_idle lh" "uio_rw u = UIO_READ"
  shows "lhd_sector hw ua as 1 sect u m lh =
    (let e = hw_errno hw (lh_reqs lh) sect UIO_READ in
     if e = 0 then
       rbind (uiomove ua as (lh_disk lh sect) (of_nat LHD_SECTSIZE) u m) (\<lambda>(r, buf, u, m).
       Inr (r, u, m, requested 0 (lh\<lparr>lh_buf := buf\<rparr>)))
     else Inr (e, u, m, requested e lh))"
proof -
  have "lh_done (lh\<lparr>lh_clear := c\<rparr>) = \<lparr>sem_count = 0, sem_wchan = []\<rparr>" for c
    using assms(2) by (simp add: lhd_idle_def)
  note irq = irq_request [OF assms(1) this, where w = False]
  show ?thesis
    using assms(2,3) irq by (cases lh) (simp add: lhd_sector_def lhd_idle_def Let_def requested_def)
qed

lemma lhd_sector_write:
  assumes "hw_completes hw" "lhd_idle lh" "uio_rw u = UIO_WRITE"
    and move: "uiomove ua as (lh_buf lh) (of_nat LHD_SECTSIZE) u m = Inr (r, buf, u', m')" "length (lh_buf lh) = LHD_SECTSIZE"
  shows "lhd_sector hw ua as 3 sect u m lh =
    (let e = hw_errno hw (lh_reqs lh) sect UIO_WRITE in
     if r = 0 then Inr (e, u', m', requested e (stored hw e sect (lh\<lparr>lh_buf := buf\<rparr>)))
     else Inr (r, u', m', lh\<lparr>lh_buf := buf\<rparr>))"
proof -
  have "lh_done (lh\<lparr>lh_clear := c, lh_buf := b\<rparr>) = \<lparr>sem_count = 0, sem_wchan = []\<rparr>" for c b
    using assms(2) by (simp add: lhd_idle_def)
  note irq = irq_request [OF assms(1) this, where w = True]
  have "uio_rw u' = UIO_WRITE"
    using uiomove_frame [OF move(1)] move(2) assms(3) by simp
  then show ?thesis
    using assms(2,3) irq move(1)
    by (cases lh) (simp add: lhd_sector_def lhd_idle_def Let_def requested_def stored_def)
qed

text \<open>Division of file positions, which are not negative.\<close>

lemma sdiv_nonneg: "0 \<le> x \<Longrightarrow> x sdiv int n = x div int n"
  by (cases "x = 0"; cases "n = 0") (simp_all add: signed_divide_int_def sgn_if)

lemma smod_nonneg: "0 \<le> x \<Longrightarrow> x smod int n = x mod int n"
  by (cases "x = 0") (simp_all add: signed_modulo_int_def sgn_if)

text \<open>A request for one sector that lies on the disk is one round of the loop.\<close>

lemma lhd_io_one:
  assumes "uio_offset u = int (unat sect) * int LHD_SECTSIZE" "uio_resid u = of_nat LHD_SECTSIZE" "sect < d_blocks lh"
  shows "lhd_io hw ua as u m lh = lhd_sector hw ua as (if uio_rw u = UIO_WRITE then 3 else 1) sect u m lh"
proof -
  have "uio_offset u sdiv int LHD_SECTSIZE = int (unat sect)" "uio_offset u smod int LHD_SECTSIZE = 0"
    unfolding assms(1) by (simp_all only: sdiv_nonneg smod_nonneg zero_le_mult_iff of_nat_0_le_iff simp_thms) simp_all
  then have sector: "of_int (uio_offset u sdiv int LHD_SECTSIZE) = sect" "of_int (uio_offset u smod int LHD_SECTSIZE) = (0 :: u32)"
    by simp_all
  have "\<not> sect + 1 > d_blocks lh"
    using assms(3) by (simp add: inc_le not_less)
  then have "lhd_io hw ua as u m lh = lhd_io_loop hw ua as (if uio_rw u = UIO_WRITE then 3 else 1) [sect] u m lh"
    using sector assms(2) by (simp add: lhd_io_def Let_def del: lhd_io_loop.simps)
  also have "\<dots> = lhd_sector hw ua as (if uio_rw u = UIO_WRITE then 3 else 1) sect u m lh"
    by (simp add: rbind_def split: sum.splits)
  finally show ?thesis .
qed

section \<open>Every request ends\<close>

text \<open>
  Nobody is in the driver and all sectors and the on-card buffer have their size; a failed write
  leaves a sector of that size as well.
\<close>

definition lhd_inv :: "'a lhd_softc_scheme \<Rightarrow> bool" where
  "lhd_inv lh \<longleftrightarrow> lhd_idle lh \<and> length (lh_buf lh) = LHD_SECTSIZE \<and> (\<forall>sect. length (lh_disk lh sect) = LHD_SECTSIZE)"

definition hw_sectors :: "lhd_hw \<Rightarrow> bool" where
  "hw_sectors hw \<longleftrightarrow> (\<forall>n old new. length old = LHD_SECTSIZE \<and> length new = LHD_SECTSIZE \<longrightarrow>
     length (hw_damage hw n old new) = LHD_SECTSIZE)"

lemma lhd_inv_updates [simp]:
  "lhd_inv (requested e lh) = lhd_inv lh"
  "lhd_inv lh \<Longrightarrow> length buf = LHD_SECTSIZE \<Longrightarrow> lhd_inv (lh\<lparr>lh_buf := buf\<rparr>)"
  "hw_sectors hw \<Longrightarrow> lhd_inv lh \<Longrightarrow> lhd_inv (stored hw e sect lh)"
  by (auto simp: lhd_inv_def lhd_idle_def requested_def stored_def hw_sectors_def)

lemma uiomove_not_blocked: "uiomove ua as ptr n u m \<noteq> Inl Blocked"
proof -
  have "uiomove_loop ua ptr pos n u m \<noteq> Inl Blocked" for pos
  proof (induction "unat n + length (uio_iov u)" arbitrary: ptr pos n u m rule: less_induct)
    case less
    show ?case
    proof (cases "uio_iov u")
      case (Cons iov iovs)
      define sz where "sz = (if iov_len iov > n then n else iov_len iov)"
      have le: "sz \<le> n"
        by (auto simp: sz_def)
      show ?thesis
        using less.hyps [of n "u\<lparr>uio_iov := iovs\<rparr>"] less.hyps [of "n - sz" "uio_advance sz iov iovs u"] Cons word_sub_less [OF le]
        by (subst uiomove_loop.simps) (simp add: Let_def sz_def [symmetric] uio_advance_def split: prod.splits)
    qed (subst uiomove_loop.simps, simp)
  qed
  then show ?thesis
    by (simp add: uiomove_def kassert_def)
qed

lemma lhd_sector_ends:
  assumes "hw_completes hw" "hw_sectors hw" "lhd_inv lh" "st = (if uio_rw u = UIO_WRITE then 3 else 1)"
  shows "lhd_sector hw ua as st sect u m lh \<noteq> Inl Blocked"
    "lhd_sector hw ua as st sect u m lh = Inr (r, u', m', lh') \<Longrightarrow> lhd_inv lh' \<and> uio_rw u' = uio_rw u"
proof -
  note inv = assms(3) [unfolded lhd_inv_def]
  have "lhd_sector hw ua as st sect u m lh \<noteq> Inl Blocked \<and>
      (\<forall>r u' m' lh'. lhd_sector hw ua as st sect u m lh = Inr (r, u', m', lh') \<longrightarrow> lhd_inv lh' \<and> uio_rw u' = uio_rw u)"
  proof (cases "uio_rw u")
    case UIO_READ
    then show ?thesis
      using lhd_sector_read [OF assms(1) _ UIO_READ, of lh ua as sect m] inv assms(3,4)
        uiomove_not_blocked [of ua as "lh_disk lh sect" 512 u m] uiomove_frame [of ua as "lh_disk lh sect" 512 u m]
      by (cases "uiomove ua as (lh_disk lh sect) 512 u m") (auto simp: Let_def split: if_splits)
  next
    case UIO_WRITE
    show ?thesis
    proof (cases "uiomove ua as (lh_buf lh) 512 u m")
      case (Inl e)
      then show ?thesis
        using UIO_WRITE inv uiomove_not_blocked [of ua as "lh_buf lh" 512 u m] by (simp add: lhd_sector_def lhd_idle_def)
    next
      case (Inr x)
      then obtain r buf u' m' where move: "uiomove ua as (lh_buf lh) 512 u m = Inr (r, buf, u', m')"
        by (cases x) auto
      then show ?thesis
        using lhd_sector_write [OF assms(1) _ UIO_WRITE, of lh ua as m r buf u' m' sect] uiomove_frame [OF move] inv assms UIO_WRITE
        by (auto simp: Let_def split: if_splits)
    qed
  qed
  then show "lhd_sector hw ua as st sect u m lh \<noteq> Inl Blocked"
    "lhd_sector hw ua as st sect u m lh = Inr (r, u', m', lh') \<Longrightarrow> lhd_inv lh' \<and> uio_rw u' = uio_rw u"
    by blast+
qed

lemma lhd_io_loop_ends:
  assumes "hw_completes hw" "hw_sectors hw" "lhd_inv lh" "st = (if uio_rw u = UIO_WRITE then 3 else 1)"
  shows "lhd_io_loop hw ua as st sects u m lh \<noteq> Inl Blocked \<and>
    (\<forall>r u' m' lh'. lhd_io_loop hw ua as st sects u m lh = Inr (r, u', m', lh') \<longrightarrow> lhd_inv lh')"
  using assms(3,4)
proof (induction sects arbitrary: u m lh)
  case (Cons sect sects)
  note ends = lhd_sector_ends [OF assms(1,2) Cons.prems, of ua as sect m]
  show ?case
  proof (cases "lhd_sector hw ua as st sect u m lh")
    case (Inr x)
    then obtain r u' m' lh' where x: "lhd_sector hw ua as st sect u m lh = Inr (r, u', m', lh')"
      by (cases x) auto
    then show ?thesis
      using Cons.IH [of lh' u' m'] ends(2) [OF x] Cons.prems(2) by simp
  qed (use ends(1) in simp)
qed simp

text \<open>
  C23: The driver never leaves a thread asleep: when the disk ends each request with a final status,
  a call of \<open>lhd_io\<close> on an idle device does not block, whatever the descriptor, the sectors and the
  errors are, and when it returns the device is idle again: \<open>lh_clear\<close> is 1, \<open>lh_done\<close> is 0
  and nobody waits on either.
\<close>

theorem lhd_io_never_blocks:
  assumes "hw_completes hw" "hw_sectors hw" "lhd_inv lh"
  shows "lhd_io hw ua as u m lh \<noteq> Inl Blocked \<and>
    (\<forall>r u' m' lh'. lhd_io hw ua as u m lh = Inr (r, u', m', lh') \<longrightarrow> lhd_inv lh')"
  using lhd_io_loop_ends [OF assms refl, where u = u] assms(3)
  by (cases "uio_rw u") (simp_all add: lhd_io_def Let_def del: lhd_io_loop.simps)

text \<open>A disk of eight sectors on which every request succeeds.\<close>

definition example_hw :: lhd_hw where
  "example_hw = \<lparr>hw_status = (\<lambda>n sect st. LHD_OK), hw_damage = (\<lambda>n old new. old)\<rparr>"

definition example_lhd :: lhd_softc where
  "example_lhd = \<lparr>lh_buf = replicate 512 0, lh_result = 0, lh_clear = \<lparr>sem_count = 1, sem_wchan = []\<rparr>,
     lh_done = \<lparr>sem_count = 0, sem_wchan = []\<rparr>, d_blocks = 8, d_blocksize = 512, lh_stat = 0,
     lh_disk = (\<lambda>sect. replicate 512 0), lh_reqs = 0\<rparr>"

lemma example_hw_ok: "hw_completes example_hw" "hw_sectors example_hw"
  by (simp_all add: hw_completes_def hw_sectors_def example_hw_def)

lemma example_lhd_inv: "lhd_inv example_lhd"
  by (simp add: lhd_inv_def lhd_idle_def example_lhd_def)

theorem lhd_io_never_blocks_witness:
  "lhd_io example_hw example_access 0 (uio_kinit 0x80001000 1024 512 UIO_READ) (\<lambda>_. 0) example_lhd \<noteq> Inl Blocked"
  using lhd_io_never_blocks [OF example_hw_ok example_lhd_inv] by blast

end
