(* ===== verification/Array.thy ===== *)
theory Array
  imports Kernel_Prelude
begin

text \<open>
  Growable arrays, lib/array.c and include/array.h. The storage is a list of cells, \<open>None\<close> for a cell
  that was never written; whether \<open>kmalloc\<close> succeeds is an argument of the operations that call
  it. The contents of an array are the list \<open>array_list\<close>.
\<close>

record 'a karray =
  arr_v :: "'a option list"
  arr_num :: u32
  arr_max :: u32

section \<open>Operations\<close>

definition array_init :: "'a karray" where
  "array_init = \<lparr>arr_v = [], arr_num = 0, arr_max = 0\<rparr>"

definition array_create :: "bool \<Rightarrow> 'a karray option" where
  "array_create mem = (if mem then Some array_init else None)"

definition array_cleanup :: "'a karray \<Rightarrow> 'a karray res" where
  "array_cleanup a = kassert (arr_num a = 0) (Inr (a\<lparr>arr_v := []\<rparr>))"

definition array_destroy :: "'a karray \<Rightarrow> unit res" where
  "array_destroy a = rbind (array_cleanup a) (\<lambda>_. Inr ())"

definition array_num :: "'a karray \<Rightarrow> u32" where
  "array_num a = arr_num a"

definition array_get :: "'a karray \<Rightarrow> u32 \<Rightarrow> 'a res" where
  "array_get a index = kassert (index < arr_num a) (rbind (arr_get (arr_v a) (unat index)) deref)"

definition array_set :: "'a karray \<Rightarrow> u32 \<Rightarrow> 'a \<Rightarrow> 'a karray res" where
  "array_set a index val =
     kassert (index < arr_num a) (rbind (arr_set (arr_v a) (unat index) (Some val)) (\<lambda>v. Inr (a\<lparr>arr_v := v\<rparr>)))"

text \<open>
  The loop that doubles the capacity. The doubling wraps around at 32 bits, so the loop never
  ends when more than half the address range is asked for; otherwise 31 rounds are enough
  (\<open>grow_returns\<close> below).
\<close>

primrec grow :: "nat \<Rightarrow> u32 \<Rightarrow> u32 \<Rightarrow> u32 res" where
  "grow 0 num newmax = Inl OutOfFuel"
| "grow (Suc fuel) num newmax =
     (if num > newmax then grow fuel num (if newmax \<noteq> 0 then newmax * 2 else 4) else Inr newmax)"

abbreviation grow_fuel :: nat where "grow_fuel \<equiv> 32"

definition array_preallocate :: "bool \<Rightarrow> u32 \<Rightarrow> 'a karray \<Rightarrow> (int \<times> 'a karray) res" where
  "array_preallocate mem num a =
     (if num > arr_max a then
        rbind (grow grow_fuel num (arr_max a)) (\<lambda>newmax.
        if \<not> mem then Inr (ENOMEM, a)
        else
          let newptr = take (unat (arr_num a)) (arr_v a) @ replicate (unat newmax - unat (arr_num a)) None
          in Inr (0, a\<lparr>arr_v := newptr, arr_max := newmax\<rparr>))
      else Inr (0, a))"

definition array_setsize :: "bool \<Rightarrow> u32 \<Rightarrow> 'a karray \<Rightarrow> (int \<times> 'a karray) res" where
  "array_setsize mem num a =
     rbind (array_preallocate mem num a) (\<lambda>(result, a).
     if result \<noteq> 0 then Inr (result, a) else Inr (0, a\<lparr>arr_num := num\<rparr>))"

definition array_add :: "bool \<Rightarrow> 'a \<Rightarrow> 'a karray \<Rightarrow> (u32 ret \<times> 'a karray) res" where
  "array_add mem val a =
     (let index = arr_num a in
      rbind (array_setsize mem (index + 1) a) (\<lambda>(result, a).
      if result \<noteq> 0 then Inr (Fail result, a)
      else rbind (arr_set (arr_v a) (unat index) (Some val)) (\<lambda>v. Inr (Done index, a\<lparr>arr_v := v\<rparr>))))"

definition array_remove :: "u32 \<Rightarrow> 'a karray \<Rightarrow> 'a karray res" where
  "array_remove index a =
     kassert (arr_num a \<le> arr_max a)
     (kassert (index < arr_num a)
       (let num_to_move = arr_num a - (index + 1);
            v = take (unat index) (arr_v a) @ take (unat num_to_move) (drop (unat index + 1) (arr_v a)) @
                drop (unat index + unat num_to_move) (arr_v a)
        in Inr (a\<lparr>arr_v := v, arr_num := arr_num a - 1\<rparr>)))"

section \<open>Arrays as lists\<close>

definition array_wf :: "'a karray \<Rightarrow> bool" where
  "array_wf a \<longleftrightarrow> arr_num a \<le> arr_max a \<and> length (arr_v a) = unat (arr_max a) \<and>
     (\<forall>i<unat (arr_num a). arr_v a ! i \<noteq> None)"

definition array_list :: "'a karray \<Rightarrow> 'a list" where
  "array_list a = map the (take (unat (arr_num a)) (arr_v a))"

text \<open>The interface of a growable array to its users: the laws of a list.\<close>

locale list_store =
  fixes content :: "'r \<Rightarrow> 'a list" and ok :: "'r \<Rightarrow> bool"
    and num :: "'r \<Rightarrow> u32" and get :: "'r \<Rightarrow> u32 \<Rightarrow> 'a res"
    and add :: "'a \<Rightarrow> 'r \<Rightarrow> (u32 ret \<times> 'r) res" and remove :: "u32 \<Rightarrow> 'r \<Rightarrow> 'r res" and limit :: nat
  assumes num_law: "ok r \<Longrightarrow> unat (num r) = length (content r)"
    and get_law: "ok r \<Longrightarrow> i < num r \<Longrightarrow> get r i = Inr (content r ! unat i)"
    and add_law: "ok r \<Longrightarrow> length (content r) < limit \<Longrightarrow>
      \<exists>r'. add x r = Inr (Done (num r), r') \<and> ok r' \<and> content r' = content r @ [x]"
    and remove_law: "ok r \<Longrightarrow> i < num r \<Longrightarrow>
      \<exists>r'. remove i r = Inr r' \<and> ok r' \<and> content r' = take (unat i) (content r) @ drop (Suc (unat i)) (content r)"
begin

lemma search:
  assumes "ok r"
  shows "rfind (\<lambda>i. rbind (get r i) (\<lambda>x. Inr (Q x))) (map of_nat [0..<length (content r)]) =
    Inr (map_option of_nat (find (\<lambda>i. Q (content r ! i)) [0..<length (content r)]))"
proof -
  have less: "of_nat i < num r" "unat (of_nat i :: u32) = i" if "i < length (content r)" for i
    using that num_law [OF assms] of_nat_less_u32 [of i "num r"] unat_u32_less [of "num r"] by simp_all
  have "rfind (\<lambda>i. rbind (get r i) (\<lambda>x. Inr (Q x))) (map of_nat xs) =
      Inr (map_option of_nat (find (\<lambda>i. Q (content r ! i)) xs))" if "\<forall>i\<in>set xs. i < length (content r)" for xs
    using that by (induction xs) (auto simp: get_law [OF assms] less)
  then show ?thesis
    by simp
qed

lemma add_remove:
  assumes "ok r" "length (content r) < limit" "add x r = Inr (Done i, r1)"
  shows "\<exists>r2. remove i r1 = Inr r2 \<and> ok r2 \<and> content r2 = content r"
proof -
  have 1: "i = num r" "ok r1" "content r1 = content r @ [x]"
    using add_law [OF assms(1,2), of x] assms(3) by auto
  moreover have "i < num r1"
    using num_law [OF assms(1)] num_law [OF 1(2)] 1 by (simp add: word_less_nat_alt)
  ultimately show ?thesis
    using remove_law [of r1 i] num_law [OF assms(1)] by (metis append_Nil2 append_eq_conv_conj drop_Suc drop_append
        length_append_singleton list.size(3) order_refl diff_self_eq_0 drop_all drop0 list.sel(3) take_append take0)
qed

end

text \<open>The doubling loop ends with enough room.\<close>

lemma grow_nonzero:
  assumes "num \<le> 2 ^ 31" "newmax \<noteq> 0" "2 ^ 31 \<le> unat newmax * 2 ^ k"
  shows "\<exists>m. grow (Suc k) num newmax = Inr m \<and> num \<le> m"
  using assms(2,3)
proof (induction k arbitrary: newmax)
  case 0
  then show ?case
    using assms(1) by (auto simp: word_le_nat_alt not_less)
next
  case (Suc k)
  show ?case
  proof (cases "num > newmax")
    case True
    then have "unat newmax < 2 ^ 31"
      using assms(1) by (simp add: word_le_nat_alt word_less_nat_alt)
    then have dbl: "unat (newmax * 2) = unat newmax * 2"
      by (simp add: unat_word_ariths)
    moreover have "newmax * 2 \<noteq> 0"
      using dbl Suc.prems(1) by (metis mult_eq_0_iff unat_eq_zero zero_neq_numeral)
    ultimately show ?thesis
      using Suc True by (simp del: grow.simps(1))
  qed auto
qed

lemma grow_returns:
  assumes "num \<le> 2 ^ 31"
  shows "\<exists>m. grow grow_fuel num newmax = Inr m \<and> num \<le> m"
proof -
  have fuel: "grow_fuel = Suc 31" "(31 :: nat) = Suc 30"
    by simp_all
  show ?thesis
  proof (cases "newmax = 0")
    case False
    then have "2 ^ 31 \<le> unat newmax * 2 ^ 31"
      using unat_gt_0 [of newmax] by simp
    then show ?thesis
      unfolding fuel(1) using assms False by (rule grow_nonzero [rotated 2])
  next
    case True
    have "\<exists>m. grow 31 num 4 = Inr m \<and> num \<le> m"
      unfolding fuel(2) using assms by (rule grow_nonzero) simp_all
    then show ?thesis
      unfolding fuel(1) grow.simps True by (cases "num > 0") (simp_all add: word_gt_0)
  qed
qed

lemma array_add_eq:
  assumes "array_wf a" "unat (arr_num a) < 2 ^ 31"
  shows "\<exists>a'. array_add True x a = Inr (Done (arr_num a), a') \<and> array_wf a' \<and> array_list a' = array_list a @ [x]"
proof -
  let ?n = "unat (arr_num a)"
  have n1: "unat (arr_num a + 1) = ?n + 1"
    using assms(2) by (simp add: unat_word_ariths)
  then have le: "arr_num a + 1 \<le> 2 ^ 31"
    using assms(2) by (simp add: word_le_nat_alt)
  obtain b where pre: "array_preallocate True (arr_num a + 1) a = Inr (0, b)" and num: "arr_num b = arr_num a"
    and room: "?n < length (arr_v b)" "length (arr_v b) = unat (arr_max b)" and same: "take ?n (arr_v b) = take ?n (arr_v a)"
  proof (cases "arr_num a + 1 > arr_max a")
    case True
    obtain m where m: "grow grow_fuel (arr_num a + 1) (arr_max a) = Inr m" "arr_num a + 1 \<le> m"
      using grow_returns [OF le] by blast
    then have "?n < unat m"
      using n1 by (simp add: word_le_nat_alt)
    moreover have "?n \<le> length (arr_v a)"
      using assms(1) by (simp add: array_wf_def word_le_nat_alt)
    ultimately show ?thesis
      using that True m by (simp add: array_preallocate_def Let_def del: grow.simps)
  next
    case False
    then show ?thesis
      using that assms(1) n1 by (simp add: array_preallocate_def array_wf_def word_le_nat_alt word_less_nat_alt)
  qed
  let ?a' = "b\<lparr>arr_num := arr_num a + 1, arr_v := (arr_v b)[?n := Some x]\<rparr>"
  have "array_add True x a = Inr (Done (arr_num a), ?a')"
    using pre room(1) by (simp add: array_add_def array_setsize_def arr_set_def Let_def)
  moreover have "array_list ?a' = array_list a @ [x]"
    using room(1) same num by (simp add: array_list_def n1 take_Suc_conv_app_nth)
  moreover have "array_wf ?a'"
  proof -
    have "arr_v b ! i \<noteq> None" if "i < ?n" for i
      using that assms(1) same nth_take [of i ?n] by (metis array_wf_def)
    then show ?thesis
      using room n1 by (auto simp: array_wf_def word_le_nat_alt nth_list_update less_Suc_eq)
  qed
  ultimately show ?thesis
    by blast
qed

lemma array_remove_eq:
  assumes "array_wf a" "index < arr_num a"
  shows "\<exists>a'. array_remove index a = Inr a' \<and> array_wf a' \<and>
    array_list a' = take (unat index) (array_list a) @ drop (Suc (unat index)) (array_list a)"
proof -
  let ?n = "unat (arr_num a)" and ?i = "unat index"
  have i: "?i < ?n" "?n \<le> length (arr_v a)" and len: "length (arr_v a) = unat (arr_max a)"
    using assms by (simp_all add: array_wf_def word_less_nat_alt word_le_nat_alt)
  have "arr_num a \<noteq> 0"
    using i(1) by auto
  then have n1: "unat (arr_num a - 1) = ?n - 1"
    by (rule unat_minus_one)
  have "unat (index + 1) = ?i + 1"
    using i(1) unat_u32_less [of "arr_num a"] by (simp add: unat_word_ariths)
  then have move: "unat (arr_num a - (index + 1)) = ?n - Suc ?i"
    using i(1) by (simp add: unat_sub word_le_nat_alt)
  let ?v = "take ?i (arr_v a) @ take (?n - Suc ?i) (drop (?i + 1) (arr_v a)) @ drop (?i + (?n - Suc ?i)) (arr_v a)"
  have eq: "array_remove index a = Inr (a\<lparr>arr_v := ?v, arr_num := arr_num a - 1\<rparr>)"
    using assms by (simp add: array_remove_def array_wf_def kassert_def move)
  let ?f = "take ?i (arr_v a) @ take (?n - Suc ?i) (drop (?i + 1) (arr_v a))"
  have lenf: "length ?f = ?n - 1"
    using i by simp
  then have front: "take (?n - 1) ?v = ?f"
    by (metis append.assoc append_eq_conv_conj)
  have "array_list (a\<lparr>arr_v := ?v, arr_num := arr_num a - 1\<rparr>) = map the ?f"
    unfolding front [symmetric] by (simp add: array_list_def n1 del: take_append)
  then have "array_list (a\<lparr>arr_v := ?v, arr_num := arr_num a - 1\<rparr>) = take ?i (array_list a) @ drop (Suc ?i) (array_list a)"
    using i by (simp add: array_list_def drop_map take_map min_def drop_take)
  moreover have "array_wf (a\<lparr>arr_v := ?v, arr_num := arr_num a - 1\<rparr>)"
  proof -
    have some: "arr_v a ! j \<noteq> None" if "j < ?n" for j
      using that assms(1) by (simp add: array_wf_def)
    have "?v ! j = (if j < ?i then arr_v a ! j else arr_v a ! (j + 1))" if "j < ?n - 1" for j
      using that i by (auto simp: nth_append)
    then have "?v ! j \<noteq> None" if "j < ?n - 1" for j
      using that i some by auto
    then show ?thesis
      using i len by (auto simp: array_wf_def n1 word_le_nat_alt)
  qed
  ultimately show ?thesis
    using eq by blast
qed

interpretation arr: list_store array_list array_wf array_num array_get "array_add True" array_remove "2 ^ 31"
proof
  fix a :: "'a karray" and i x
  assume wf: "array_wf a"
  then have n: "unat (arr_num a) \<le> length (arr_v a)"
    by (simp add: array_wf_def word_le_nat_alt)
  then show num: "unat (array_num a) = length (array_list a)"
    by (simp add: array_num_def array_list_def min_def)
  show "array_get a i = Inr (array_list a ! unat i)" if "i < array_num a"
  proof -
    have "unat i < unat (arr_num a)"
      using that by (simp add: array_num_def word_less_nat_alt)
    moreover obtain y where "arr_v a ! unat i = Some y"
      using wf calculation by (auto simp: array_wf_def)
    ultimately show ?thesis
      using that n by (simp add: array_get_def array_num_def kassert_def arr_get_def deref_def array_list_def)
  qed
  show "\<exists>r'. array_add True x a = Inr (Done (array_num a), r') \<and> array_wf r' \<and> array_list r' = array_list a @ [x]"
    if "length (array_list a) < 2 ^ 31"
    using array_add_eq [OF wf] that num by (simp add: array_num_def)
  show "\<exists>r'. array_remove i a = Inr r' \<and> array_wf r' \<and>
      array_list r' = take (unat i) (array_list a) @ drop (Suc (unat i)) (array_list a)" if "i < array_num a"
    using array_remove_eq [OF wf] that by (simp add: array_num_def)
qed

end
