(* ===== verification/Sfs.thy ===== *)
theory Sfs
  imports Kernel_Monad Bitmap Byte_Order Lhd Array
begin

text \<open>
  The SFS file system up to file contents: the on-disk structures of include/kern/sfs.h, block I/O
  with retries (fs/sfs/sfs_io.c), the free block map (fs/sfs/sfs_balloc.c), the map from
  the blocks of a file to disk blocks (fs/sfs/sfs_bmap.c), and reading and writing of files and
  metadata. The volume lies on the disk of \<open>lhd_io\<close>. Vnode structures live in a heap
  of their own, a map from pointers; \<open>None\<close> is memory that is not allocated.
\<close>

section \<open>Structures\<close>

record sfs_superblock =
  sb_magic :: u32
  sb_nblocks :: u32
  sb_volname :: "u8 list"
  sb_reserved :: "u32 list"

record sfs_dinode =
  sfi_size :: u32
  sfi_type :: u16
  sfi_linkcount :: u16
  sfi_direct :: "u32 list"
  sfi_indirect :: u32
  sfi_waste :: "u32 list"

record sfs_vnode =
  vn_refcount :: int
  sv_i :: sfs_dinode
  sv_ino :: u32
  sv_dirty :: bool

record sfs_fs = lhd_softc +
  sfs_sb :: sfs_superblock
  sfs_superdirty :: bool
  sfs_device :: bool
  sfs_vnodes :: "nat karray"
  sfs_freemap :: bitmap
  sfs_freemapdirty :: bool
  sfs_heap :: "nat \<Rightarrow> sfs_vnode option"
  sfs_fresh :: nat
  mem_reqs :: nat
  vfs_biglock_depth :: u32

text \<open>
  What the file system depends on: the disk hardware, user memory, the address space of the
  process, and whether the \<open>n\<close>-th allocation of kernel memory succeeds.
\<close>

record sfs_env =
  env_hw :: lhd_hw
  env_ua :: user_access
  env_as :: u32
  env_mem :: "nat \<Rightarrow> bool"

type_synonym 'a sop = "('a, sfs_fs) kop"

abbreviation SFS_MAGIC :: u32 where "SFS_MAGIC \<equiv> 0xabadf001"
abbreviation SFS_BLOCKSIZE :: nat where "SFS_BLOCKSIZE \<equiv> 512"
abbreviation SFS_NDIRECT :: nat where "SFS_NDIRECT \<equiv> 15"
abbreviation SFS_NINDIRECT :: u32 where "SFS_NINDIRECT \<equiv> 1"
abbreviation SFS_DBPERIDB :: nat where "SFS_DBPERIDB \<equiv> 128"
abbreviation SFS_NAMELEN :: nat where "SFS_NAMELEN \<equiv> 60"
abbreviation SFS_SUPER_BLOCK :: u32 where "SFS_SUPER_BLOCK \<equiv> 0"
abbreviation SFS_FREEMAP_START :: u32 where "SFS_FREEMAP_START \<equiv> 2"
abbreviation SFS_NOINO :: u32 where "SFS_NOINO \<equiv> 0"
abbreviation SFS_ROOTDIR_INO :: u32 where "SFS_ROOTDIR_INO \<equiv> 1"
abbreviation SFS_BITSPERBLOCK :: u32 where "SFS_BITSPERBLOCK \<equiv> 4096"
abbreviation SFS_TYPE_INVAL :: u16 where "SFS_TYPE_INVAL \<equiv> 0"
abbreviation SFS_TYPE_FILE :: u16 where "SFS_TYPE_FILE \<equiv> 1"
abbreviation SFS_TYPE_DIR :: u16 where "SFS_TYPE_DIR \<equiv> 2"

text \<open>The structures as the bytes of a disk block.\<close>

definition decode_superblock :: "u8 list \<Rightarrow> sfs_superblock" where
  "decode_superblock b = \<lparr>sb_magic = be32 b 0, sb_nblocks = be32 b 4, sb_volname = take 32 (drop 8 b),
     sb_reserved = words_of 40 118 b\<rparr>"

definition encode_superblock :: "sfs_superblock \<Rightarrow> u8 list" where
  "encode_superblock sb = put32 (sb_magic sb) @ put32 (sb_nblocks sb) @ sb_volname sb @ bytes_of (sb_reserved sb)"

definition decode_dinode :: "u8 list \<Rightarrow> sfs_dinode" where
  "decode_dinode b = \<lparr>sfi_size = be32 b 0, sfi_type = be16 b 4, sfi_linkcount = be16 b 6,
     sfi_direct = words_of 8 SFS_NDIRECT b, sfi_indirect = be32 b 68, sfi_waste = words_of 72 110 b\<rparr>"

definition encode_dinode :: "sfs_dinode \<Rightarrow> u8 list" where
  "encode_dinode i = put32 (sfi_size i) @ put16 (sfi_type i) @ put16 (sfi_linkcount i) @
     bytes_of (sfi_direct i) @ put32 (sfi_indirect i) @ bytes_of (sfi_waste i)"

section \<open>The big lock and memory\<close>

definition vfs_biglock_acquire :: "unit sop" where
  "vfs_biglock_acquire = kmodify (\<lambda>s. s\<lparr>vfs_biglock_depth := vfs_biglock_depth s + 1\<rparr>)"

definition vfs_biglock_release :: "unit sop" where
  "vfs_biglock_release =
     kbind (kcheck (\<lambda>s. lock_do_i_hold ())) (\<lambda>_.
     kbind (kcheck (\<lambda>s. vfs_biglock_depth s > 0)) (\<lambda>_.
     kmodify (\<lambda>s. s\<lparr>vfs_biglock_depth := vfs_biglock_depth s - 1\<rparr>)))"

definition vfs_biglock_do_i_hold :: "sfs_fs \<Rightarrow> bool" where
  "vfs_biglock_do_i_hold s = lock_do_i_hold ()"

text \<open>A function that acquires the lock first and releases it on every return.\<close>

definition locked :: "'a sop \<Rightarrow> 'a sop" where
  "locked body =
     kbind vfs_biglock_acquire (\<lambda>_. kcall body (\<lambda>r. kbind vfs_biglock_release (\<lambda>_ s. Inr (r, s))))"

text \<open>Whether the next \<open>kmalloc\<close> succeeds.\<close>

definition sfs_kmalloc :: "sfs_env \<Rightarrow> bool sop" where
  "sfs_kmalloc env = kbind (kget mem_reqs) (\<lambda>n. kbind (kmodify (\<lambda>s. s\<lparr>mem_reqs := n + 1\<rparr>)) (\<lambda>_. kret (env_mem env n)))"

text \<open>Access to a vnode structure through its pointer.\<close>

definition sv_get :: "nat \<Rightarrow> sfs_vnode sop" where
  "sv_get p = klift (\<lambda>s. deref (sfs_heap s p))"

definition sv_update :: "nat \<Rightarrow> (sfs_vnode \<Rightarrow> sfs_vnode) \<Rightarrow> unit sop" where
  "sv_update p f = kbind (sv_get p) (\<lambda>sv. kmodify (\<lambda>s. s\<lparr>sfs_heap := (sfs_heap s)(p \<mapsto> f sv)\<rparr>))"

section \<open>Block I/O\<close>

text \<open>\<open>sfs_rwblock\<close>; \<open>retries\<close> is how often the label \<open>retry\<close> may still be reached, 10 at first.\<close>

primrec sfs_rwblock_try :: "sfs_env \<Rightarrow> nat \<Rightarrow> uio \<Rightarrow> bytes \<Rightarrow> sfs_fs \<Rightarrow> (int \<times> uio \<times> bytes \<times> sfs_fs) res" where
  "sfs_rwblock_try env 0 u m s =
     rbind (lhd_io (env_hw env) (env_ua env) (env_as env) u m s) (\<lambda>(result, u, m, s).
     if result = EINVAL then Inl (Panic ''sfs: DEVOP_IO returned EINVAL'') else Inr (result, u, m, s))"
| "sfs_rwblock_try env (Suc retries) u m s =
     rbind (lhd_io (env_hw env) (env_ua env) (env_as env) u m s) (\<lambda>(result, u, m, s).
     if result = EINVAL then Inl (Panic ''sfs: DEVOP_IO returned EINVAL'')
     else if result = EIO then sfs_rwblock_try env retries u m s
     else Inr (result, u, m, s))"

definition sfs_rwblock :: "sfs_env \<Rightarrow> uio \<Rightarrow> bytes \<Rightarrow> sfs_fs \<Rightarrow> (int \<times> uio \<times> bytes \<times> sfs_fs) res" where
  "sfs_rwblock env u m s =
     kassert (vfs_biglock_do_i_hold s) (if sfs_device s then sfs_rwblock_try env 10 u m s else Inl BadAccess)"

text \<open>
  Blocks to and from a kernel buffer. Nothing else refers to the buffer during the call, so it is
  given a memory of its own, at address 0.
\<close>

definition sfs_block_uio :: "u32 \<Rightarrow> uio_rw \<Rightarrow> uio" where
  "sfs_block_uio block rw = uio_kinit 0 (of_nat SFS_BLOCKSIZE) (int (unat block) * int SFS_BLOCKSIZE) rw"

definition sfs_readblock :: "sfs_env \<Rightarrow> u32 \<Rightarrow> u8 list sop" where
  "sfs_readblock env block s =
     rbind (sfs_rwblock env (sfs_block_uio block UIO_READ) (\<lambda>_. 0) s) (\<lambda>(result, u, m, s).
     if result = 0 then Inr (Done (peek m 0 SFS_BLOCKSIZE), s) else Inr (Fail result, s))"

definition sfs_writeblock :: "sfs_env \<Rightarrow> u32 \<Rightarrow> u8 list \<Rightarrow> unit sop" where
  "sfs_writeblock env block data s =
     kassert (length data = SFS_BLOCKSIZE)
       (rbind (sfs_rwblock env (sfs_block_uio block UIO_WRITE) (poke (\<lambda>_. 0) 0 data) s) (\<lambda>(result, u, m, s).
        if result = 0 then Inr (Done (), s) else Inr (Fail result, s)))"

section \<open>The free block map\<close>

definition sfs_clearblock :: "sfs_env \<Rightarrow> u32 \<Rightarrow> unit sop" where
  "sfs_clearblock env block = sfs_writeblock env block (replicate SFS_BLOCKSIZE 0)"

definition sfs_bfree :: "u32 \<Rightarrow> unit sop" where
  "sfs_bfree diskblock =
     kbind (klift (\<lambda>s. bitmap_unmark (sfs_freemap s) diskblock)) (\<lambda>fm.
     kmodify (\<lambda>s. s\<lparr>sfs_freemap := fm, sfs_freemapdirty := True\<rparr>))"

definition sfs_balloc :: "sfs_env \<Rightarrow> u32 sop" where
  "sfs_balloc env =
     kbind (klift (\<lambda>s. bitmap_alloc (sfs_freemap s))) (\<lambda>(result, fm).
     case result of
       Fail e \<Rightarrow> kfail e
     | Done diskblock \<Rightarrow>
         kbind (kmodify (\<lambda>s. s\<lparr>sfs_freemap := fm, sfs_freemapdirty := True\<rparr>)) (\<lambda>_.
         kbind (kget (\<lambda>s. sb_nblocks (sfs_sb s))) (\<lambda>nblocks.
         if diskblock \<ge> nblocks then kstop (Panic ''sfs: balloc: invalid block'')
         else
           kcall (sfs_clearblock env diskblock) (\<lambda>r.
           case r of
             Done _ \<Rightarrow> kret diskblock
           | Fail e \<Rightarrow>
               kbind (klift (\<lambda>s. bitmap_unmark (sfs_freemap s) diskblock)) (\<lambda>fm.
               kbind (kmodify (\<lambda>s. s\<lparr>sfs_freemap := fm\<rparr>)) (\<lambda>_. kfail e))))))"

definition sfs_bused :: "sfs_fs \<Rightarrow> u32 \<Rightarrow> bool res" where
  "sfs_bused s diskblock =
     (if diskblock \<ge> sb_nblocks (sfs_sb s) then Inl (Panic ''sfs: sfs_bused called on out of range block'')
      else rbind (bitmap_isset (sfs_freemap s) diskblock) (\<lambda>b. Inr (b \<noteq> 0)))"

section \<open>The blocks of a file\<close>

text \<open>The end of \<open>sfs_bmap\<close>: a block that is handed back must be marked in the map.\<close>

definition hand_back :: "u32 \<Rightarrow> u32 sop" where
  "hand_back block =
     (if block \<noteq> 0 then
        kbind (klift (\<lambda>s. sfs_bused s block)) (\<lambda>used.
        if \<not> used then kstop (Panic ''sfs: Data block marked free'') else kret block)
      else kret block)"

definition sfs_bmap :: "sfs_env \<Rightarrow> nat \<Rightarrow> u32 \<Rightarrow> bool \<Rightarrow> u32 sop" where
  "sfs_bmap env p fileblock doalloc =
     kbind (kcheck vfs_biglock_do_i_hold) (\<lambda>_.
     kbind (sv_get p) (\<lambda>sv.
     if fileblock < of_nat SFS_NDIRECT then
       kbind (klift (\<lambda>s. arr_get (sfi_direct (sv_i sv)) (unat fileblock))) (\<lambda>block.
       kbind (if block = 0 \<and> doalloc then
                kbind (sfs_balloc env) (\<lambda>block.
                kbind (sv_update p (\<lambda>sv. sv\<lparr>sv_i := (sv_i sv)\<lparr>sfi_direct := (sfi_direct (sv_i sv))[unat fileblock := block]\<rparr>,
                                           sv_dirty := True\<rparr>)) (\<lambda>_.
                kret block))
              else kret block)
         hand_back)
     else
       (let fileblock = fileblock - of_nat SFS_NDIRECT; idnum = fileblock div of_nat SFS_DBPERIDB;
            idoff = unat (fileblock mod of_nat SFS_DBPERIDB); idblock = sfi_indirect (sv_i sv)
        in if idnum \<ge> SFS_NINDIRECT then kfail EFBIG
           else if idblock = 0 \<and> \<not> doalloc then kret 0
           else
             kbind (if idblock = 0 then
                      kbind (sfs_balloc env) (\<lambda>idblock.
                      kbind (sv_update p (\<lambda>sv. sv\<lparr>sv_i := (sv_i sv)\<lparr>sfi_indirect := idblock\<rparr>, sv_dirty := True\<rparr>)) (\<lambda>_.
                      kret (idblock, replicate SFS_DBPERIDB 0)))
                    else kbind (sfs_readblock env idblock) (\<lambda>data. kret (idblock, words_of 0 SFS_DBPERIDB data)))
               (\<lambda>(idblock, idbuf).
             kbind (klift (\<lambda>s. arr_get idbuf idoff)) (\<lambda>block.
             kbind (if block = 0 \<and> doalloc then
                      kbind (sfs_balloc env) (\<lambda>block.
                      kbind (sfs_writeblock env idblock (bytes_of (idbuf[idoff := block]))) (\<lambda>_.
                      kret block))
                    else kret block)
               hand_back)))))"

text \<open>The loop over the direct blocks in \<open>sfs_itrunc\<close>, and the one over an indirect block.\<close>

definition itrunc_direct :: "nat \<Rightarrow> u32 \<Rightarrow> nat \<Rightarrow> unit \<Rightarrow> unit sop" where
  "itrunc_direct p blocklen i _ =
     kbind (sv_get p) (\<lambda>sv.
     kbind (klift (\<lambda>s. arr_get (sfi_direct (sv_i sv)) i)) (\<lambda>block.
     if of_nat i \<ge> blocklen \<and> block \<noteq> 0 then
       kbind (sfs_bfree block) (\<lambda>_.
       sv_update p (\<lambda>sv. sv\<lparr>sv_i := (sv_i sv)\<lparr>sfi_direct := (sfi_direct (sv_i sv))[i := 0]\<rparr>, sv_dirty := True\<rparr>))
     else kret ()))"

definition itrunc_indirect :: "u32 \<Rightarrow> nat \<Rightarrow> u32 list \<times> bool \<times> bool \<Rightarrow> (u32 list \<times> bool \<times> bool) sop" where
  "itrunc_indirect blocklen j = (\<lambda>(idbuf, hasnonzero, iddirty).
     kbind (klift (\<lambda>s. arr_get idbuf j)) (\<lambda>block.
     if blocklen < of_nat SFS_NDIRECT + of_nat j \<and> block \<noteq> 0 then
       kbind (sfs_bfree block) (\<lambda>_. kret (idbuf[j := 0], hasnonzero, True))
     else kret (idbuf, hasnonzero \<or> block \<noteq> 0, iddirty)))"

definition sfs_itrunc :: "sfs_env \<Rightarrow> nat \<Rightarrow> int \<Rightarrow> unit sop" where
  "sfs_itrunc env p len =
     locked
       (let blocklen = of_int ((len + int SFS_BLOCKSIZE - 1) sdiv int SFS_BLOCKSIZE) :: u32 in
        kbind (kfold (itrunc_direct p blocklen) [0..<SFS_NDIRECT] ()) (\<lambda>_.
        kbind (sv_get p) (\<lambda>sv.
        let idblock = sfi_indirect (sv_i sv);
            highblock = of_nat SFS_NDIRECT + of_nat SFS_DBPERIDB - 1 :: u32
        in kbind (if blocklen < highblock \<and> idblock \<noteq> 0 then
                    kbind (sfs_readblock env idblock) (\<lambda>data.
                    kbind (kfold (itrunc_indirect blocklen) [0..<SFS_DBPERIDB] (words_of 0 SFS_DBPERIDB data, False, False))
                      (\<lambda>(idbuf, hasnonzero, iddirty).
                    if \<not> hasnonzero then
                      kbind (sfs_bfree idblock) (\<lambda>_.
                      sv_update p (\<lambda>sv. sv\<lparr>sv_i := (sv_i sv)\<lparr>sfi_indirect := 0\<rparr>, sv_dirty := True\<rparr>))
                    else if iddirty then sfs_writeblock env idblock (bytes_of idbuf)
                    else kret ()))
                  else kret ()) (\<lambda>_.
           sv_update p (\<lambda>sv. sv\<lparr>sv_i := (sv_i sv)\<lparr>sfi_size := of_int len\<rparr>, sv_dirty := True\<rparr>)))))"

section \<open>Reading and writing files\<close>

text \<open>
  These functions move the caller's descriptor \<open>u\<close>, also when they fail, so they return it with
  the memory and the error code.
\<close>

abbreviation errcode :: "'a ret \<Rightarrow> int" where
  "errcode r \<equiv> case r of Fail e \<Rightarrow> e | Done _ \<Rightarrow> 0"

definition sfs_partialio ::
    "sfs_env \<Rightarrow> nat \<Rightarrow> u32 \<Rightarrow> u32 \<Rightarrow> uio \<Rightarrow> bytes \<Rightarrow> sfs_fs \<Rightarrow> (int \<times> uio \<times> bytes \<times> sfs_fs) res" where
  "sfs_partialio env p skipstart len u m s =
     kassert (skipstart + len \<le> of_nat SFS_BLOCKSIZE)
     (kassert (vfs_biglock_do_i_hold s)
       (let doalloc = (uio_rw u = UIO_WRITE); fileblock = of_int (uio_offset u sdiv int SFS_BLOCKSIZE) in
        rbind (sfs_bmap env p fileblock doalloc s) (\<lambda>(r, s).
        case r of Fail e \<Rightarrow> Inr (e, u, m, s) | Done diskblock \<Rightarrow>
        rbind (if diskblock = 0 then kassert (uio_rw u = UIO_READ) (Inr (Done (replicate SFS_BLOCKSIZE 0), s))
               else sfs_readblock env diskblock s) (\<lambda>(r, s).
        case r of Fail e \<Rightarrow> Inr (e, u, m, s) | Done iobuf \<Rightarrow>
        rbind (uiomove (env_ua env) (env_as env) (drop (unat skipstart) iobuf) len u m) (\<lambda>(result, buf, u, m).
        if result \<noteq> 0 then Inr (result, u, m, s)
        else if uio_rw u = UIO_WRITE then
          rbind (sfs_writeblock env diskblock (take (unat skipstart) iobuf @ buf) s) (\<lambda>(r, s). Inr (errcode r, u, m, s))
        else Inr (0, u, m, s))))))"

definition sfs_blockio :: "sfs_env \<Rightarrow> nat \<Rightarrow> uio \<Rightarrow> bytes \<Rightarrow> sfs_fs \<Rightarrow> (int \<times> uio \<times> bytes \<times> sfs_fs) res" where
  "sfs_blockio env p u m s =
     (let doalloc = (uio_rw u = UIO_WRITE); fileblock = of_int (uio_offset u sdiv int SFS_BLOCKSIZE) in
      rbind (sfs_bmap env p fileblock doalloc s) (\<lambda>(r, s).
      case r of Fail e \<Rightarrow> Inr (e, u, m, s) | Done diskblock \<Rightarrow>
      if diskblock = 0 then
        kassert (uio_rw u = UIO_READ)
          (rbind (uiomovezeros (env_ua env) (env_as env) (of_nat SFS_BLOCKSIZE) u m) (\<lambda>(result, u, m).
           Inr (result, u, m, s)))
      else
        (let saveoff = uio_offset u; diskoff = int (unat (diskblock * of_nat SFS_BLOCKSIZE)) in
         kassert (uio_resid u \<ge> of_nat SFS_BLOCKSIZE)
           (let saveres = uio_resid u in
            rbind (sfs_rwblock env (u\<lparr>uio_offset := diskoff, uio_resid := of_nat SFS_BLOCKSIZE\<rparr>) m s)
              (\<lambda>(result, u, m, s).
            Inr (result, u\<lparr>uio_offset := (uio_offset u - diskoff) + saveoff,
                           uio_resid := (uio_resid u - of_nat SFS_BLOCKSIZE) + saveres\<rparr>, m, s))))))"

primrec sfs_blocks :: "sfs_env \<Rightarrow> nat \<Rightarrow> nat \<Rightarrow> uio \<Rightarrow> bytes \<Rightarrow> sfs_fs \<Rightarrow> (int \<times> uio \<times> bytes \<times> sfs_fs) res" where
  "sfs_blocks env p 0 u m s = Inr (0, u, m, s)"
| "sfs_blocks env p (Suc n) u m s =
     rbind (sfs_blockio env p u m s) (\<lambda>(result, u, m, s).
     if result \<noteq> 0 then Inr (result, u, m, s) else sfs_blocks env p n u m s)"

text \<open>
  \<open>sfs_io\<close> up to the label \<open>out\<close>: a leading partial block, whole blocks, and what is left. The
  second function is the rest: a write that made the file longer records its size.
\<close>

definition sfs_io_parts :: "sfs_env \<Rightarrow> nat \<Rightarrow> uio \<Rightarrow> bytes \<Rightarrow> sfs_fs \<Rightarrow> (int \<times> uio \<times> bytes \<times> sfs_fs) res" where
  "sfs_io_parts env p u m s =
     (let blkoff = of_int (uio_offset u smod int SFS_BLOCKSIZE) :: u32 in
      rbind (if blkoff \<noteq> 0 then
               (let len = of_nat SFS_BLOCKSIZE - blkoff
                in sfs_partialio env p blkoff (if len > uio_resid u then uio_resid u else len) u m s)
             else Inr (0, u, m, s)) (\<lambda>(result, u, m, s).
      if result \<noteq> 0 then Inr (result, u, m, s)
      else if uio_resid u = 0 then Inr (0, u, m, s)
      else
        kassert (uio_offset u smod int SFS_BLOCKSIZE = 0)
          (rbind (sfs_blocks env p (unat (uio_resid u div of_nat SFS_BLOCKSIZE)) u m s) (\<lambda>(result, u, m, s).
           if result \<noteq> 0 then Inr (result, u, m, s)
           else
             kassert (uio_resid u < of_nat SFS_BLOCKSIZE)
               (if uio_resid u > 0 then sfs_partialio env p 0 (uio_resid u) u m s
                else Inr (0, u, m, s))))))"

definition sfs_io_out :: "nat \<Rightarrow> u32 \<Rightarrow> uio \<Rightarrow> unit sop" where
  "sfs_io_out p origresid u =
     kbind (sv_get p) (\<lambda>sv.
     if uio_resid u \<noteq> origresid \<and> uio_rw u = UIO_WRITE \<and> uio_offset u > int (unat (sfi_size (sv_i sv))) then
       sv_update p (\<lambda>sv. sv\<lparr>sv_i := (sv_i sv)\<lparr>sfi_size := of_int (uio_offset u)\<rparr>, sv_dirty := True\<rparr>)
     else kret ())"

definition sfs_io :: "sfs_env \<Rightarrow> nat \<Rightarrow> uio \<Rightarrow> bytes \<Rightarrow> sfs_fs \<Rightarrow> (int \<times> uio \<times> bytes \<times> sfs_fs) res" where
  "sfs_io env p u m s =
     rbind (deref (sfs_heap s p)) (\<lambda>sv.
     let origresid = uio_resid u;
         fsize = int (unat (sfi_size (sv_i sv)));
         endpos = uio_offset u + int (unat (uio_resid u));
         extraresid = (if uio_rw u = UIO_READ \<and> endpos > fsize then of_int (endpos - fsize) else 0 :: u32)
     in if uio_rw u = UIO_READ \<and> uio_offset u \<ge> fsize then Inr (0, u, m, s)
        else
          kassert (extraresid \<noteq> 0 \<longrightarrow> uio_resid u > extraresid)
            (rbind (sfs_io_parts env p (u\<lparr>uio_resid := uio_resid u - extraresid\<rparr>) m s) (\<lambda>(result, u, m, s).
             rbind (sfs_io_out p origresid u s) (\<lambda>(_, s).
             Inr (result, u\<lparr>uio_resid := uio_resid u + extraresid\<rparr>, m, s)))))"

text \<open>
  \<open>sfs_metaio\<close> on \<open>data\<close>, a kernel object of \<open>length data\<close> bytes; the result is the object
  afterwards.
\<close>

definition sfs_metaio :: "sfs_env \<Rightarrow> nat \<Rightarrow> int \<Rightarrow> u8 list \<Rightarrow> uio_rw \<Rightarrow> u8 list sop" where
  "sfs_metaio env p actualpos data rw =
     kbind (kcheck vfs_biglock_do_i_hold) (\<lambda>_.
     let vnblock = of_int (actualpos sdiv int SFS_BLOCKSIZE) :: u32;
         blockoffset = nat (actualpos smod int SFS_BLOCKSIZE);
         len = length data
     in kbind (sfs_bmap env p vnblock (rw = UIO_WRITE)) (\<lambda>diskblock.
        if diskblock = 0 then
          kbind (kcheck (\<lambda>s. rw = UIO_READ)) (\<lambda>_. kret (replicate len 0))
        else
          kbind (sfs_readblock env diskblock) (\<lambda>metaiobuf.
          if blockoffset + len > SFS_BLOCKSIZE then kstop BadAccess
          else if rw = UIO_READ then kret (take len (drop blockoffset metaiobuf))
          else
            kbind (sfs_writeblock env diskblock
                     (take blockoffset metaiobuf @ data @ drop (blockoffset + len) metaiobuf)) (\<lambda>_.
            let endpos = actualpos + int len in
            kbind (sv_get p) (\<lambda>sv.
            kbind (if endpos > int (unat (sfi_size (sv_i sv))) then
                     sv_update p (\<lambda>sv. sv\<lparr>sv_i := (sv_i sv)\<lparr>sfi_size := of_int endpos\<rparr>, sv_dirty := True\<rparr>)
                   else kret ()) (\<lambda>_.
            kret data))))))"

end
