(* ===== verification/Sfs_Dir.thy ===== *)
theory Sfs_Dir
  imports Sfs
begin

text \<open>
  The SFS file system above file contents: directories (fs/sfs/sfs_dir.c), vnodes in
  memory (fs/sfs/sfs_inode.c with the reference counts of vfs/vnode.c), the operations the VFS
  layer calls on a vnode (fs/sfs/sfs_vnops.c), and sync, mount and unmount
  (fs/sfs/sfs_fsops.c). A file name is the list of its bytes before the terminating zero.
\<close>

section \<open>Directories\<close>

record sfs_direntry =
  sfd_ino :: u32
  sfd_name :: "u8 list"

abbreviation DIRENT_SIZE :: nat where "DIRENT_SIZE \<equiv> 64"

definition decode_direntry :: "u8 list \<Rightarrow> sfs_direntry" where
  "decode_direntry b = \<lparr>sfd_ino = be32 b 0, sfd_name = take SFS_NAMELEN (drop 4 b)\<rparr>"

definition encode_direntry :: "sfs_direntry \<Rightarrow> u8 list" where
  "encode_direntry sd = put32 (sfd_ino sd) @ sfd_name sd"

text \<open>The string in a buffer, up to its terminator; the buffer of a zeroed entry with a string copied in.\<close>

definition cstring :: "u8 list \<Rightarrow> u8 list" where
  "cstring b = takeWhile (\<lambda>c. c \<noteq> 0) b"

definition name_buffer :: "u8 list \<Rightarrow> u8 list" where
  "name_buffer name = name @ replicate (SFS_NAMELEN - length name) 0"

definition sfs_readdir :: "sfs_env \<Rightarrow> nat \<Rightarrow> nat \<Rightarrow> sfs_direntry sop" where
  "sfs_readdir env p slot =
     kbind (sfs_metaio env p (int (slot * DIRENT_SIZE)) (replicate DIRENT_SIZE 0) UIO_READ) (\<lambda>data.
     kret (decode_direntry data))"

definition sfs_writedir :: "sfs_env \<Rightarrow> nat \<Rightarrow> nat \<Rightarrow> sfs_direntry \<Rightarrow> unit sop" where
  "sfs_writedir env p slot sd =
     kbind (sfs_metaio env p (int (slot * DIRENT_SIZE)) (encode_direntry sd) UIO_WRITE) (\<lambda>_. kret ())"

definition sfs_dir_nentries :: "nat \<Rightarrow> nat sop" where
  "sfs_dir_nentries p =
     kbind (sv_get p) (\<lambda>sv.
     kbind (kcheck (\<lambda>s. sfi_type (sv_i sv) = SFS_TYPE_DIR)) (\<lambda>_.
     let sz = unat (sfi_size (sv_i sv)) in
     if sz mod DIRENT_SIZE \<noteq> 0 then kstop (Panic ''sfs: directory: Invalid size'')
     else kret (sz div DIRENT_SIZE)))"

text \<open>
  \<open>sfs_dir_findname\<close>: the inode and slot of the name, or \<open>ENOENT\<close>, and in both cases an
  empty slot if there is one.
\<close>

definition findname_step ::
    "sfs_env \<Rightarrow> nat \<Rightarrow> u8 list \<Rightarrow> nat \<Rightarrow> (u32 \<times> nat) option \<times> nat option \<Rightarrow> ((u32 \<times> nat) option \<times> nat option) sop" where
  "findname_step env p name i = (\<lambda>(found, emptyslot).
     kbind (sfs_readdir env p i) (\<lambda>tsd.
     if sfd_ino tsd = SFS_NOINO then kret (found, Some i)
     else if cstring (take (SFS_NAMELEN - 1) (sfd_name tsd)) = name then
       kbind (kcheck (\<lambda>s. found = None)) (\<lambda>_. kret (Some (sfd_ino tsd, i), emptyslot))
     else kret (found, emptyslot)))"

definition sfs_dir_findname :: "sfs_env \<Rightarrow> nat \<Rightarrow> u8 list \<Rightarrow> ((u32 \<times> nat) ret \<times> nat option) sop" where
  "sfs_dir_findname env p name =
     kbind (sfs_dir_nentries p) (\<lambda>nentries.
     kbind (kfold (findname_step env p name) [0..<nentries] (None, None)) (\<lambda>(found, emptyslot).
     kret (case found of None \<Rightarrow> Fail ENOENT | Some x \<Rightarrow> Done x, emptyslot)))"

definition sfs_dir_link :: "sfs_env \<Rightarrow> nat \<Rightarrow> u8 list \<Rightarrow> u32 \<Rightarrow> nat sop" where
  "sfs_dir_link env p name ino =
     kbind (sfs_dir_findname env p name) (\<lambda>(result, emptyslot).
     case result of
       Done _ \<Rightarrow> kfail EEXIST
     | Fail e \<Rightarrow>
         if length name + 1 > SFS_NAMELEN then kfail ENAMETOOLONG
         else
           kbind (case emptyslot of None \<Rightarrow> sfs_dir_nentries p | Some i \<Rightarrow> kret i) (\<lambda>slot.
           kbind (sfs_writedir env p slot \<lparr>sfd_ino = ino, sfd_name = name_buffer name\<rparr>) (\<lambda>_.
           kret slot)))"

definition sfs_dir_unlink :: "sfs_env \<Rightarrow> nat \<Rightarrow> nat \<Rightarrow> unit sop" where
  "sfs_dir_unlink env p slot =
     sfs_writedir env p slot \<lparr>sfd_ino = SFS_NOINO, sfd_name = replicate SFS_NAMELEN 0\<rparr>"

section \<open>Vnodes\<close>

definition sfs_sync_inode :: "sfs_env \<Rightarrow> nat \<Rightarrow> unit sop" where
  "sfs_sync_inode env p =
     kbind (sv_get p) (\<lambda>sv.
     if sv_dirty sv then
       kbind (sfs_writeblock env (sv_ino sv) (encode_dinode (sv_i sv))) (\<lambda>_.
       sv_update p (\<lambda>sv. sv\<lparr>sv_dirty := False\<rparr>))
     else kret ())"

text \<open>The parts of \<open>vnode_check\<close> that can fail for a vnode of this file system.\<close>

definition vnode_check :: "nat \<Rightarrow> unit sop" where
  "vnode_check p =
     kbind (sv_get p) (\<lambda>sv.
     if vn_refcount sv < 0 then kstop (Panic ''vnode_check: negative refcount'')
     else if vn_refcount sv = 0 then kstop (Panic ''vnode_check: zero refcount'')
     else kret ())"

definition vnode_incref :: "nat \<Rightarrow> unit sop" where
  "vnode_incref p = sv_update p (\<lambda>sv. sv\<lparr>vn_refcount := vn_refcount sv + 1\<rparr>)"

definition vnode_cleanup :: "nat \<Rightarrow> unit sop" where
  "vnode_cleanup p =
     kbind (sv_get p) (\<lambda>sv.
     kbind (kcheck (\<lambda>s. vn_refcount sv = 1)) (\<lambda>_.
     sv_update p (\<lambda>sv. sv\<lparr>vn_refcount := 0\<rparr>)))"

definition kfree_vnode :: "nat \<Rightarrow> unit sop" where
  "kfree_vnode p = kmodify (\<lambda>s. s\<lparr>sfs_heap := (sfs_heap s)(p := None)\<rparr>)"

text \<open>The place of a vnode in the table of loaded vnodes.\<close>

definition vnode_index :: "nat \<Rightarrow> sfs_fs \<Rightarrow> u32 option res" where
  "vnode_index p s =
     rfind (\<lambda>i. rbind (array_get (sfs_vnodes s) i) (\<lambda>q. Inr (q = p)))
       (map of_nat [0..<unat (array_num (sfs_vnodes s))])"

definition sfs_reclaim :: "sfs_env \<Rightarrow> nat \<Rightarrow> unit sop" where
  "sfs_reclaim env p =
     kbind (locked
       (kbind (sv_get p) (\<lambda>sv.
        if vn_refcount sv \<noteq> 1 then
          kbind (kcheck (\<lambda>s. vn_refcount sv > 1)) (\<lambda>_.
          kbind (sv_update p (\<lambda>sv. sv\<lparr>vn_refcount := vn_refcount sv - 1\<rparr>)) (\<lambda>_. kfail EBUSY))
        else
          kbind (if sfi_linkcount (sv_i sv) = 0 then sfs_itrunc env p 0 else kret ()) (\<lambda>_.
          kbind (sfs_sync_inode env p) (\<lambda>_.
          kbind (sv_get p) (\<lambda>sv.
          kbind (if sfi_linkcount (sv_i sv) = 0 then sfs_bfree (sv_ino sv) else kret ()) (\<lambda>_.
          kbind (klift (vnode_index p)) (\<lambda>ix.
          case ix of
            None \<Rightarrow> kstop (Panic ''sfs: reclaim vnode not in vnode pool'')
          | Some ix \<Rightarrow>
              kbind (klift (\<lambda>s. array_remove ix (sfs_vnodes s))) (\<lambda>vs.
              kbind (kmodify (\<lambda>s. s\<lparr>sfs_vnodes := vs\<rparr>)) (\<lambda>_.
              vnode_cleanup p)))))))))) (\<lambda>_.
     kfree_vnode p)"

definition vnode_decref :: "sfs_env \<Rightarrow> nat \<Rightarrow> unit sop" where
  "vnode_decref env p =
     kbind (sv_get p) (\<lambda>sv.
     kbind (kcheck (\<lambda>s. vn_refcount sv > 0)) (\<lambda>_.
     if vn_refcount sv > 1 then sv_update p (\<lambda>sv. sv\<lparr>vn_refcount := vn_refcount sv - 1\<rparr>)
     else kbind (vnode_check p) (\<lambda>_. kcall (sfs_reclaim env p) (\<lambda>r. kret ()))))"

text \<open>The search of \<open>sfs_loadvnode\<close> among the loaded vnodes.\<close>

definition loaded_vnode :: "u32 \<Rightarrow> sfs_fs \<Rightarrow> nat option res" where
  "loaded_vnode ino s =
     rfirst (\<lambda>i.
       rbind (array_get (sfs_vnodes s) i) (\<lambda>p.
       rbind (deref (sfs_heap s p)) (\<lambda>sv.
       rbind (sfs_bused s (sv_ino sv)) (\<lambda>used.
       if \<not> used then Inl (Panic ''sfs: Found inode in unallocated block'')
       else if sv_ino sv = ino then Inr (Some p) else Inr None))))
     (map of_nat [0..<unat (array_num (sfs_vnodes s))])"

text \<open>
  The structure is allocated first and is reachable only once it is filled in, so it enters the
  heap when it is added to the table.
\<close>

definition sfs_loadvnode :: "sfs_env \<Rightarrow> u32 \<Rightarrow> u16 \<Rightarrow> nat sop" where
  "sfs_loadvnode env ino forcetype =
     kbind (klift (loaded_vnode ino)) (\<lambda>found.
     case found of
       Some p \<Rightarrow>
         kbind (kcheck (\<lambda>s. forcetype = SFS_TYPE_INVAL)) (\<lambda>_.
         kbind (vnode_incref p) (\<lambda>_. kret p))
     | None \<Rightarrow>
         kbind (sfs_kmalloc env) (\<lambda>mem.
         if \<not> mem then kfail ENOMEM
         else
           kbind (klift (\<lambda>s. sfs_bused s ino)) (\<lambda>used.
           if \<not> used then kstop (Panic ''sfs: Tried to load inode from unallocated block'')
           else
             kbind (sfs_readblock env ino) (\<lambda>data.
             let i = decode_dinode data in
             kbind (kcheck (\<lambda>s. forcetype \<noteq> SFS_TYPE_INVAL \<longrightarrow> sfi_type i = SFS_TYPE_INVAL)) (\<lambda>_.
             let dirty = (forcetype \<noteq> SFS_TYPE_INVAL);
                 i = (if dirty then i\<lparr>sfi_type := forcetype\<rparr> else i)
             in if sfi_type i \<noteq> SFS_TYPE_FILE \<and> sfi_type i \<noteq> SFS_TYPE_DIR then
                  kstop (Panic ''sfs: loadvnode: Invalid inode type'')
                else
                  kbind (kget sfs_fresh) (\<lambda>p.
                  kbind (sfs_kmalloc env) (\<lambda>mem.
                  kbind (klift (\<lambda>s. array_add mem p (sfs_vnodes s))) (\<lambda>(result, vs).
                  case result of
                    Fail e \<Rightarrow> kfail e
                  | Done _ \<Rightarrow>
                      kbind (kmodify (\<lambda>s. s\<lparr>sfs_fresh := p + 1, sfs_vnodes := vs,
                        sfs_heap := (sfs_heap s)(p \<mapsto>
                          \<lparr>vn_refcount = 1, sv_i = i, sv_ino = ino, sv_dirty = dirty\<rparr>)\<rparr>)) (\<lambda>_.
                      kret p)))))))))"

definition sfs_makeobj :: "sfs_env \<Rightarrow> u16 \<Rightarrow> nat sop" where
  "sfs_makeobj env type =
     kbind (sfs_balloc env) (\<lambda>ino.
     kcall (sfs_loadvnode env ino type) (\<lambda>r.
     case r of Done p \<Rightarrow> kret p | Fail e \<Rightarrow> kbind (sfs_bfree ino) (\<lambda>_. kfail e)))"

definition sfs_getroot :: "sfs_env \<Rightarrow> nat sop" where
  "sfs_getroot env =
     locked
       (kbind (sfs_loadvnode env SFS_ROOTDIR_INO SFS_TYPE_INVAL) (\<lambda>p.
        kbind (sv_get p) (\<lambda>sv.
        if sfi_type (sv_i sv) \<noteq> SFS_TYPE_DIR then kfail EINVAL else kret p)))"

text \<open>\<open>sfs_lookonce\<close> hands back the vnode and the slot.\<close>

definition sfs_lookonce :: "sfs_env \<Rightarrow> nat \<Rightarrow> u8 list \<Rightarrow> (nat \<times> nat) sop" where
  "sfs_lookonce env p name =
     kbind (sfs_dir_findname env p name) (\<lambda>(result, _).
     case result of
       Fail e \<Rightarrow> kfail e
     | Done (ino, slot) \<Rightarrow>
         kbind (sfs_loadvnode env ino SFS_TYPE_INVAL) (\<lambda>q.
         kbind (sv_get q) (\<lambda>sv.
         if sfi_linkcount (sv_i sv) = 0 then kstop (Panic ''sfs: name in dir has linkcount 0'')
         else kret (q, slot))))"

section \<open>Vnode operations\<close>

abbreviation S_IFREG :: u32 where "S_IFREG \<equiv> 0x1000"
abbreviation S_IFDIR :: u32 where "S_IFDIR \<equiv> 0x2000"

record sfs_stat_buf =
  st_mode :: u32
  st_size :: u32
  st_nlink :: u16
  st_blocks :: u32

definition sfs_eachopen :: "u32 \<Rightarrow> int" where
  "sfs_eachopen openflags = 0"

definition sfs_eachopendir :: "u32 \<Rightarrow> int" where
  "sfs_eachopendir openflags =
     (if openflags AND 3 \<noteq> 0 then EISDIR
      else if openflags AND 32 \<noteq> 0 then EISDIR
      else 0)"

text \<open>\<open>sfs_read\<close> and \<open>sfs_write\<close>: \<open>sfs_io\<close> under the lock.\<close>

definition locked_io :: "(sfs_fs \<Rightarrow> (int \<times> uio \<times> bytes \<times> sfs_fs) res) \<Rightarrow> sfs_fs \<Rightarrow> (int \<times> uio \<times> bytes \<times> sfs_fs) res" where
  "locked_io body s =
     rbind (vfs_biglock_acquire s) (\<lambda>(_, s).
     rbind (body s) (\<lambda>(result, u, m, s).
     rbind (vfs_biglock_release s) (\<lambda>(_, s). Inr (result, u, m, s))))"

definition sfs_read :: "sfs_env \<Rightarrow> nat \<Rightarrow> uio \<Rightarrow> bytes \<Rightarrow> sfs_fs \<Rightarrow> (int \<times> uio \<times> bytes \<times> sfs_fs) res" where
  "sfs_read env p u m s = kassert (uio_rw u = UIO_READ) (locked_io (sfs_io env p u m) s)"

definition sfs_write :: "sfs_env \<Rightarrow> nat \<Rightarrow> uio \<Rightarrow> bytes \<Rightarrow> sfs_fs \<Rightarrow> (int \<times> uio \<times> bytes \<times> sfs_fs) res" where
  "sfs_write env p u m s = kassert (uio_rw u = UIO_WRITE) (locked_io (sfs_io env p u m) s)"

definition sfs_gettype :: "nat \<Rightarrow> u32 sop" where
  "sfs_gettype p =
     locked
       (kbind (sv_get p) (\<lambda>sv.
        if sfi_type (sv_i sv) = SFS_TYPE_FILE then kret S_IFREG
        else if sfi_type (sv_i sv) = SFS_TYPE_DIR then kret S_IFDIR
        else kstop (Panic ''sfs: gettype: Invalid inode type'')))"

definition sfs_stat :: "nat \<Rightarrow> sfs_stat_buf sop" where
  "sfs_stat p =
     kbind (vnode_check p) (\<lambda>_.
     kbind (sfs_gettype p) (\<lambda>mode.
     kbind (sv_get p) (\<lambda>sv.
     kret \<lparr>st_mode = mode, st_size = sfi_size (sv_i sv), st_nlink = sfi_linkcount (sv_i sv), st_blocks = 0\<rparr>)))"

definition sfs_fsync :: "sfs_env \<Rightarrow> nat \<Rightarrow> unit sop" where
  "sfs_fsync env p = locked (sfs_sync_inode env p)"

definition sfs_truncate :: "sfs_env \<Rightarrow> nat \<Rightarrow> int \<Rightarrow> unit sop" where
  "sfs_truncate env p len = sfs_itrunc env p len"

definition sfs_namefile :: "nat \<Rightarrow> unit sop" where
  "sfs_namefile p = kbind (sv_get p) (\<lambda>sv. kcheck (\<lambda>s. sv_ino sv = SFS_ROOTDIR_INO))"

text \<open>A change of the link count, which also marks the inode.\<close>

definition relink :: "nat \<Rightarrow> (u16 \<Rightarrow> u16) \<Rightarrow> unit sop" where
  "relink p f = sv_update p (\<lambda>sv. sv\<lparr>sv_i := (sv_i sv)\<lparr>sfi_linkcount := f (sfi_linkcount (sv_i sv))\<rparr>, sv_dirty := True\<rparr>)"

definition sfs_creat :: "sfs_env \<Rightarrow> nat \<Rightarrow> u8 list \<Rightarrow> bool \<Rightarrow> nat sop" where
  "sfs_creat env p name excl =
     locked
       (kbind (sfs_dir_findname env p name) (\<lambda>(result, _).
        case result of
          Done (ino, _) \<Rightarrow>
            if excl then kfail EEXIST else sfs_loadvnode env ino SFS_TYPE_INVAL
        | Fail _ \<Rightarrow>
            kbind (sfs_makeobj env SFS_TYPE_FILE) (\<lambda>newguy.
            kbind (sv_get newguy) (\<lambda>sv.
            kcall (sfs_dir_link env p name (sv_ino sv)) (\<lambda>r.
            case r of
              Fail e \<Rightarrow> kbind (vnode_decref env newguy) (\<lambda>_. kfail e)
            | Done _ \<Rightarrow> kbind (relink newguy (\<lambda>n. n + 1)) (\<lambda>_. kret newguy))))))"

definition sfs_link :: "sfs_env \<Rightarrow> nat \<Rightarrow> u8 list \<Rightarrow> nat \<Rightarrow> unit sop" where
  "sfs_link env dir name file =
     locked
       (kbind (sv_get file) (\<lambda>f.
        if sfi_type (sv_i f) = SFS_TYPE_DIR then kfail EINVAL
        else
          kbind (sfs_dir_link env dir name (sv_ino f)) (\<lambda>_.
          relink file (\<lambda>n. n + 1))))"

definition sfs_remove :: "sfs_env \<Rightarrow> nat \<Rightarrow> u8 list \<Rightarrow> unit sop" where
  "sfs_remove env dir name =
     locked
       (kbind (sfs_lookonce env dir name) (\<lambda>(victim, slot).
        kcall (sfs_dir_unlink env dir slot) (\<lambda>r.
        kbind (case r of
                 Fail _ \<Rightarrow> kret ()
               | Done _ \<Rightarrow>
                   kbind (sv_get victim) (\<lambda>sv.
                   kbind (kcheck (\<lambda>s. sfi_linkcount (sv_i sv) > 0)) (\<lambda>_.
                   relink victim (\<lambda>n. n - 1)))) (\<lambda>_.
        kbind (vnode_decref env victim) (\<lambda>_ s.
        Inr (r, s))))))"

text \<open>\<open>sfs_rename\<close>; the two labels \<open>puke_harder\<close> and \<open>puke\<close> are the error branches.\<close>

definition sfs_rename :: "sfs_env \<Rightarrow> nat \<Rightarrow> u8 list \<Rightarrow> nat \<Rightarrow> u8 list \<Rightarrow> unit sop" where
  "sfs_rename env d1 n1 d2 n2 =
     locked
       (kbind (kcheck (\<lambda>s. d1 = d2)) (\<lambda>_.
        kbind (sv_get d1) (\<lambda>sv.
        kbind (kcheck (\<lambda>s. sv_ino sv = SFS_ROOTDIR_INO)) (\<lambda>_.
        kbind (sfs_lookonce env d1 n1) (\<lambda>(g1, slot1).
        kbind (sv_get g1) (\<lambda>g.
        kbind (kcheck (\<lambda>s. sfi_type (sv_i g) = SFS_TYPE_FILE)) (\<lambda>_.
        kcall (sfs_dir_link env d1 n2 (sv_ino g)) (\<lambda>r.
        case r of
          Fail e \<Rightarrow> kbind (vnode_decref env g1) (\<lambda>_. kfail e)
        | Done slot2 \<Rightarrow>
            kbind (relink g1 (\<lambda>n. n + 1)) (\<lambda>_.
            kcall (sfs_dir_unlink env d1 slot1) (\<lambda>r.
            case r of
              Done _ \<Rightarrow>
                kbind (sv_get g1) (\<lambda>g.
                kbind (kcheck (\<lambda>s. sfi_linkcount (sv_i g) > 0)) (\<lambda>_.
                kbind (relink g1 (\<lambda>n. n - 1)) (\<lambda>_.
                vnode_decref env g1)))
            | Fail e \<Rightarrow>
                kcall (sfs_dir_unlink env d1 slot2) (\<lambda>r2.
                case r2 of
                  Fail _ \<Rightarrow> kstop (Panic ''sfs: rename: Cannot recover'')
                | Done _ \<Rightarrow>
                    kbind (sv_update g1 (\<lambda>sv. sv\<lparr>sv_i := (sv_i sv)\<lparr>sfi_linkcount := sfi_linkcount (sv_i sv) - 1\<rparr>\<rparr>)) (\<lambda>_.
                    kbind (vnode_decref env g1) (\<lambda>_. kfail e)))))))))))))"

definition sfs_lookparent :: "nat \<Rightarrow> u8 list \<Rightarrow> nat \<Rightarrow> (nat \<times> u8 list) sop" where
  "sfs_lookparent p path buflen =
     locked
       (kbind (sv_get p) (\<lambda>sv.
        if sfi_type (sv_i sv) \<noteq> SFS_TYPE_DIR then kfail ENOTDIR
        else if length path + 1 > buflen then kfail ENAMETOOLONG
        else kbind (vnode_incref p) (\<lambda>_. kret (p, path))))"

definition sfs_lookup :: "sfs_env \<Rightarrow> nat \<Rightarrow> u8 list \<Rightarrow> nat sop" where
  "sfs_lookup env p path =
     locked
       (kbind (sv_get p) (\<lambda>sv.
        if sfi_type (sv_i sv) \<noteq> SFS_TYPE_DIR then kfail ENOTDIR
        else kbind (sfs_lookonce env p path) (\<lambda>(final, _). kret final)))"

section \<open>The volume\<close>

definition SFS_FREEMAPBITS :: "u32 \<Rightarrow> u32" where
  "SFS_FREEMAPBITS nblocks = ((nblocks + SFS_BITSPERBLOCK - 1) div SFS_BITSPERBLOCK) * SFS_BITSPERBLOCK"

definition SFS_FREEMAPBLOCKS :: "u32 \<Rightarrow> u32" where
  "SFS_FREEMAPBLOCKS nblocks = SFS_FREEMAPBITS nblocks div SFS_BITSPERBLOCK"

text \<open>One round of the loop of \<open>sfs_freemapio\<close>: block \<open>j\<close> of the map's data.\<close>

definition freemapio_step :: "sfs_env \<Rightarrow> uio_rw \<Rightarrow> nat \<Rightarrow> unit \<Rightarrow> unit sop" where
  "freemapio_step env rw j _ =
     kbind (kget (\<lambda>s. bitmap_getdata (sfs_freemap s))) (\<lambda>data.
     let pos = j * SFS_BLOCKSIZE; block = SFS_FREEMAP_START + of_nat j in
     if pos + SFS_BLOCKSIZE > length data then kstop BadAccess
     else if rw = UIO_READ then
       kbind (sfs_readblock env block) (\<lambda>b.
       kmodify (\<lambda>s. s\<lparr>sfs_freemap := (sfs_freemap s)\<lparr>bm_v := take pos data @ b @ drop (pos + SFS_BLOCKSIZE) data\<rparr>\<rparr>))
     else sfs_writeblock env block (take SFS_BLOCKSIZE (drop pos data)))"

definition sfs_freemapio :: "sfs_env \<Rightarrow> uio_rw \<Rightarrow> unit sop" where
  "sfs_freemapio env rw =
     kbind (kget (\<lambda>s. SFS_FREEMAPBLOCKS (sb_nblocks (sfs_sb s)))) (\<lambda>freemapblocks.
     kfold (freemapio_step env rw) [0..<unat freemapblocks] ())"

text \<open>\<open>sfs_sync_vnodes\<close> ignores the results of \<open>VOP_FSYNC\<close>.\<close>

definition sync_vnode_step :: "sfs_env \<Rightarrow> nat \<Rightarrow> unit \<Rightarrow> unit sop" where
  "sync_vnode_step env i _ =
     kbind (klift (\<lambda>s. array_get (sfs_vnodes s) (of_nat i))) (\<lambda>p.
     kbind (vnode_check p) (\<lambda>_.
     kcall (sfs_fsync env p) (\<lambda>_. kret ())))"

definition sfs_sync_vnodes :: "sfs_env \<Rightarrow> unit sop" where
  "sfs_sync_vnodes env =
     kbind (kget (\<lambda>s. array_num (sfs_vnodes s))) (\<lambda>num.
     kfold (sync_vnode_step env) [0..<unat num] ())"

definition sfs_sync_freemap :: "sfs_env \<Rightarrow> unit sop" where
  "sfs_sync_freemap env =
     kbind (kget sfs_freemapdirty) (\<lambda>dirty.
     if dirty then
       kbind (sfs_freemapio env UIO_WRITE) (\<lambda>_. kmodify (\<lambda>s. s\<lparr>sfs_freemapdirty := False\<rparr>))
     else kret ())"

definition sfs_sync_superblock :: "sfs_env \<Rightarrow> unit sop" where
  "sfs_sync_superblock env =
     kbind (kget sfs_superdirty) (\<lambda>dirty.
     if dirty then
       kbind (kget (\<lambda>s. encode_superblock (sfs_sb s))) (\<lambda>data.
       kbind (sfs_writeblock env SFS_SUPER_BLOCK data) (\<lambda>_.
       kmodify (\<lambda>s. s\<lparr>sfs_superdirty := False\<rparr>)))
     else kret ())"

definition sfs_sync :: "sfs_env \<Rightarrow> unit sop" where
  "sfs_sync env =
     locked
       (kbind (sfs_sync_vnodes env) (\<lambda>_.
        kbind (sfs_sync_freemap env) (\<lambda>_.
        sfs_sync_superblock env)))"

definition sfs_getvolname :: "u8 list sop" where
  "sfs_getvolname = locked (kget (\<lambda>s. sb_volname (sfs_sb s)))"

text \<open>
  \<open>sfs_fs_destroy\<close>: the bitmap, if there is one, the vnode table, which must be empty, and the
  structure itself.
\<close>

definition sfs_fs_destroy :: "unit sop" where
  "sfs_fs_destroy =
     kbind (klift (\<lambda>s. array_destroy (sfs_vnodes s))) (\<lambda>_.
     kcheck (\<lambda>s. \<not> sfs_device s))"

definition sfs_unmount :: "unit sop" where
  "sfs_unmount =
     locked
       (kbind (kget (\<lambda>s. array_num (sfs_vnodes s))) (\<lambda>num.
        if num > 0 then kfail EBUSY
        else
          kbind (kcheck (\<lambda>s. \<not> sfs_superdirty s)) (\<lambda>_.
          kbind (kcheck (\<lambda>s. \<not> sfs_freemapdirty s)) (\<lambda>_.
          kbind (kmodify (\<lambda>s. s\<lparr>sfs_device := False\<rparr>)) (\<lambda>_.
          sfs_fs_destroy)))))"

text \<open>\<open>sfs_fs_create\<close> fills in a new structure; its result is whether the memory was there.\<close>

definition sfs_fs_create :: "sfs_env \<Rightarrow> bool sop" where
  "sfs_fs_create env =
     kbind (sfs_kmalloc env) (\<lambda>mem.
     if \<not> mem then kret False
     else
       kbind (sfs_kmalloc env) (\<lambda>mem.
       case array_create mem of
         None \<Rightarrow> kret False
       | Some vs \<Rightarrow>
           kbind (kmodify (\<lambda>s. s\<lparr>sfs_superdirty := False, sfs_device := False, sfs_vnodes := vs,
             sfs_freemapdirty := False\<rparr>)) (\<lambda>_.
           kret True)))"

text \<open>Giving up a mount: the device is detached before the structure is destroyed.\<close>

definition abort_mount :: "int \<Rightarrow> unit sop" where
  "abort_mount e =
     kbind (kmodify (\<lambda>s. s\<lparr>sfs_device := False\<rparr>)) (\<lambda>_. kbind sfs_fs_destroy (\<lambda>_. kfail e))"

definition sfs_domount :: "sfs_env \<Rightarrow> unit sop" where
  "sfs_domount env =
     locked
       (kbind (kget d_blocksize) (\<lambda>blocksize.
        if blocksize \<noteq> of_nat SFS_BLOCKSIZE then kfail ENXIO
        else
          kbind (sfs_fs_create env) (\<lambda>created.
          if \<not> created then kfail ENOMEM
          else
            kbind (kmodify (\<lambda>s. s\<lparr>sfs_device := True\<rparr>)) (\<lambda>_.
            kcall (sfs_readblock env SFS_SUPER_BLOCK) (\<lambda>r.
            case r of
              Fail e \<Rightarrow> abort_mount e
            | Done data \<Rightarrow>
                (let sb = decode_superblock data in
                 if sb_magic sb \<noteq> SFS_MAGIC then abort_mount EINVAL
                 else
                   kbind (kmodify (\<lambda>s. s\<lparr>sfs_sb := sb\<lparr>sb_volname := (sb_volname sb)[31 := 0]\<rparr>\<rparr>)) (\<lambda>_.
                   kbind (sfs_kmalloc env) (\<lambda>mem_b.
                   kbind (sfs_kmalloc env) (\<lambda>mem_v.
                   kbind (klift (\<lambda>s. bitmap_create mem_b mem_v (SFS_FREEMAPBITS (sb_nblocks sb)))) (\<lambda>fm.
                   case fm of
                     None \<Rightarrow> abort_mount ENOMEM
                   | Some fm \<Rightarrow>
                       kbind (kmodify (\<lambda>s. s\<lparr>sfs_freemap := fm\<rparr>)) (\<lambda>_.
                       kcall (sfs_freemapio env UIO_READ) (\<lambda>r.
                       case r of Fail e \<Rightarrow> abort_mount e | Done _ \<Rightarrow> kret ()))))))))))))"

end
