(* ===== verification/Sfs_Blocks.thy ===== *)
theory Sfs_Blocks
  imports Sfs
begin

text \<open>
  Correctness of block I/O: what \<open>sfs_readblock\<close> and \<open>sfs_writeblock\<close> do on a disk that
  works, how often a failing read is retried, and what happens to a write that fails.
\<close>

section \<open>Transfers between a block and a kernel buffer\<close>

lemma peek_poke: "length xs \<le> 2 ^ 32 \<Longrightarrow> peek (poke m a xs) a (length xs) = xs"
  by (rule nth_equalityI) (auto simp: peek_def poke_def unat_of_nat)

text \<open>The descriptor of a block before and after its 512 bytes have moved.\<close>

abbreviation block_end :: "u32 \<Rightarrow> uio_rw \<Rightarrow> uio" where
  "block_end block rw \<equiv> \<lparr>uio_iov = [\<lparr>iov_base = 512, iov_len = 0\<rparr>], uio_offset = int (unat block) * 512 + 512,
     uio_resid = 0, uio_segflg = UIO_SYSSPACE, uio_rw = rw, uio_space = 0\<rparr>"

lemma sfs_block_uio_fields [simp]:
  "uio_offset (sfs_block_uio block rw) = int (unat block) * int LHD_SECTSIZE"
  "uio_resid (sfs_block_uio block rw) = of_nat LHD_SECTSIZE" "uio_rw (sfs_block_uio block rw) = rw"
  by (simp_all add: sfs_block_uio_def uio_kinit_def)

lemma uiomove_end: "uiomove_loop ua ptr pos 0 u m = Inr (0, ptr, u, m)"
  by (subst uiomove_loop.simps) simp

lemma uiomove_block_read:
  "length buf = 512 \<Longrightarrow> uiomove ua as buf 512 (sfs_block_uio block UIO_READ) m =
     Inr (0, buf, block_end block UIO_READ, poke m 0 buf)"
  by (simp add: uiomove_def sfs_block_uio_def uio_kinit_def uiomove_loop.simps [of ua buf] uio_transfer_def uiomove_end)

lemma uiomove_block_write:
  "length buf = 512 \<Longrightarrow> uiomove ua as buf 512 (sfs_block_uio block UIO_WRITE) m =
     Inr (0, peek m 0 512, block_end block UIO_WRITE, m)"
  by (simp add: uiomove_def sfs_block_uio_def uio_kinit_def uiomove_loop.simps [of ua buf] uio_transfer_def uiomove_end)

section \<open>One attempt\<close>

text \<open>The disk can be used: it is mounted, idle, and every sector has its size.\<close>

definition sfs_ready :: "sfs_fs \<Rightarrow> bool" where
  "sfs_ready s \<longleftrightarrow> sfs_device s \<and> lhd_inv s"

lemma sfs_ready_updates [simp]:
  "sfs_ready (requested e s) = sfs_ready s"
  "sfs_ready s \<Longrightarrow> length buf = LHD_SECTSIZE \<Longrightarrow> sfs_ready (s\<lparr>lh_buf := buf\<rparr>)"
  "hw_sectors hw \<Longrightarrow> sfs_ready s \<Longrightarrow> sfs_ready (stored hw e sect s)"
  by (auto simp: sfs_ready_def) (simp_all add: requested_def stored_def)

lemma lhd_io_block_read:
  assumes "hw_completes hw" "sfs_ready s" "block < d_blocks s"
  shows "lhd_io hw ua as (sfs_block_uio block UIO_READ) m s =
    (let e = hw_errno hw (lh_reqs s) block UIO_READ in
     if e = 0 then Inr (0, block_end block UIO_READ, poke m 0 (lh_disk s block), requested 0 (s\<lparr>lh_buf := lh_disk s block\<rparr>))
     else Inr (e, sfs_block_uio block UIO_READ, m, requested e s))"
proof -
  have "lhd_idle s" "length (lh_disk s block) = 512"
    using assms(2) by (simp_all add: sfs_ready_def lhd_inv_def)
  then show ?thesis
    using lhd_io_one [of "sfs_block_uio block UIO_READ" block s hw ua as m] assms
      lhd_sector_read [OF assms(1), of s "sfs_block_uio block UIO_READ" ua as block m]
    by (simp add: uiomove_block_read Let_def)
qed

lemma lhd_io_block_write:
  assumes "hw_completes hw" "sfs_ready s" "block < d_blocks s"
  shows "lhd_io hw ua as (sfs_block_uio block UIO_WRITE) m s =
    (let e = hw_errno hw (lh_reqs s) block UIO_WRITE
     in Inr (e, block_end block UIO_WRITE, m, requested e (stored hw e block (s\<lparr>lh_buf := peek m 0 512\<rparr>))))"
proof -
  have idle: "lhd_idle s" "length (lh_buf s) = 512"
    using assms(2) by (simp_all add: sfs_ready_def lhd_inv_def)
  then have "uiomove ua as (lh_buf s) (of_nat LHD_SECTSIZE) (sfs_block_uio block UIO_WRITE) m =
      Inr (0, peek m 0 512, block_end block UIO_WRITE, m)"
    by (simp add: uiomove_block_write)
  then show ?thesis
    using lhd_io_one [of "sfs_block_uio block UIO_WRITE" block s hw ua as m] assms idle
      lhd_sector_write [OF assms(1), of s "sfs_block_uio block UIO_WRITE" ua as m 0 "peek m 0 512" "block_end block UIO_WRITE" m block]
    by (simp add: Let_def)
qed

text \<open>The descriptor that is used up asks for no sector at all: the driver returns 0 at once.\<close>

lemma lhd_io_block_end:
  assumes "block < d_blocks s"
  shows "lhd_io hw ua as (block_end block rw) m s = Inr (0, block_end block rw, m, s)"
proof -
  have off: "uio_offset (block_end block rw) = (int (unat block) + 1) * int LHD_SECTSIZE"
    by simp
  have "uio_offset (block_end block rw) sdiv int LHD_SECTSIZE = int (unat block) + 1"
    "uio_offset (block_end block rw) smod int LHD_SECTSIZE = 0"
    unfolding off by (subst sdiv_nonneg smod_nonneg; simp)+
  then have "of_int (uio_offset (block_end block rw) sdiv int LHD_SECTSIZE) = block + 1"
    "of_int (uio_offset (block_end block rw) smod int LHD_SECTSIZE) = (0 :: u32)"
    by simp_all
  moreover have "\<not> block + 1 > d_blocks s"
    using assms by (simp add: inc_le not_less)
  ultimately show ?thesis
    by (simp add: lhd_io_def Let_def)
qed

section \<open>Reading and writing a block\<close>

text \<open>What \<open>n\<close> requests leave behind in the driver besides data, \<open>e\<close> the result of the last one.\<close>

definition tick :: "nat \<Rightarrow> int \<Rightarrow> sfs_fs \<Rightarrow> sfs_fs" where
  "tick n e s = s\<lparr>lh_reqs := lh_reqs s + n, lh_stat := 0, lh_result := e\<rparr>"

lemma requested_tick: "requested e s = tick 1 e s"
  by (simp add: requested_def tick_def)

lemma tick_fields [simp]:
  "lh_disk (tick n e s) = lh_disk s" "lh_buf (tick n e s) = lh_buf s" "d_blocks (tick n e s) = d_blocks s"
  "lh_reqs (tick n e s) = lh_reqs s + n" "sfs_sb (tick n e s) = sfs_sb s" "sfs_freemap (tick n e s) = sfs_freemap s"
  "sfs_heap (tick n e s) = sfs_heap s" "sfs_vnodes (tick n e s) = sfs_vnodes s" "sfs_device (tick n e s) = sfs_device s"
  "vfs_biglock_depth (tick n e s) = vfs_biglock_depth s" "sfs_freemapdirty (tick n e s) = sfs_freemapdirty s"
  "sfs_superdirty (tick n e s) = sfs_superdirty s" "sfs_fresh (tick n e s) = sfs_fresh s" "mem_reqs (tick n e s) = mem_reqs s"
  by (simp_all add: tick_def)

lemma tick_tick: "tick n e (tick k e' s) = tick (k + n) e s"
  by (simp add: tick_def add.assoc)

lemma sfs_ready_tick [simp]: "sfs_ready (tick n e s) = sfs_ready s"
  by (simp add: sfs_ready_def lhd_inv_def lhd_idle_def tick_def)

text \<open>The first \<open>k\<close> attempts to read a block end with a media error.\<close>

definition failing :: "lhd_hw \<Rightarrow> nat \<Rightarrow> u32 \<Rightarrow> nat \<Rightarrow> bool" where
  "failing hw n block k \<longleftrightarrow> (\<forall>i<k. hw_errno hw (n + i) block UIO_READ = EIO)"

lemma failing_Suc: "failing hw n block (Suc k) \<longleftrightarrow> hw_errno hw n block UIO_READ = EIO \<and> failing hw (Suc n) block k"
  unfolding failing_def using less_Suc_eq_0_disj by auto

lemma sfs_rwblock_try_read:
  assumes "hw_completes (env_hw env)"
  shows "sfs_ready s \<Longrightarrow> block < d_blocks s \<Longrightarrow> k \<le> r \<Longrightarrow> failing (env_hw env) (lh_reqs s) block k \<Longrightarrow>
      hw_errno (env_hw env) (lh_reqs s + k) block UIO_READ = 0 \<Longrightarrow>
      sfs_rwblock_try env r (sfs_block_uio block UIO_READ) m s =
        Inr (0, block_end block UIO_READ, poke m 0 (lh_disk s block), tick (k + 1) 0 (s\<lparr>lh_buf := lh_disk s block\<rparr>))"
    and "sfs_ready s \<Longrightarrow> block < d_blocks s \<Longrightarrow> failing (env_hw env) (lh_reqs s) block (r + 1) \<Longrightarrow>
      sfs_rwblock_try env r (sfs_block_uio block UIO_READ) m s =
        Inr (EIO, sfs_block_uio block UIO_READ, m, tick (r + 1) EIO s)"
proof (induction r arbitrary: k s)
  case 0
  case 1
  then show ?case
    by (simp add: lhd_io_block_read [OF assms] requested_tick)
next
  case 0
  case 2
  then show ?case
    by (simp add: lhd_io_block_read [OF assms] requested_tick failing_Suc)
next
  case (Suc r)
  case 1
  show ?case
  proof (cases k)
    case 0
    then show ?thesis
      using 1 by (simp add: lhd_io_block_read [OF assms] requested_tick)
  next
    case (Suc j)
    then have "sfs_rwblock_try env r (sfs_block_uio block UIO_READ) m (tick 1 EIO s) =
        Inr (0, block_end block UIO_READ, poke m 0 (lh_disk s block), tick (j + 1) 0 ((tick 1 EIO s)\<lparr>lh_buf := lh_disk s block\<rparr>))"
      using 1 Suc.IH(1) [of "tick 1 EIO s" j] by (simp add: failing_Suc)
    then show ?thesis
      using 1 Suc by (simp add: lhd_io_block_read [OF assms] requested_tick failing_Suc) (simp add: tick_def)
  qed
next
  case (Suc r)
  case 2
  then have "sfs_rwblock_try env r (sfs_block_uio block UIO_READ) m (tick 1 EIO s) =
      Inr (EIO, sfs_block_uio block UIO_READ, m, tick (r + 1) EIO (tick 1 EIO s))"
    using Suc.IH(2) [of "tick 1 EIO s"] by (simp add: failing_Suc)
  then show ?case
    using 2 by (simp add: lhd_io_block_read [OF assms] requested_tick failing_Suc) (simp add: tick_def)
qed

lemma sfs_readblock_try:
  assumes "hw_completes (env_hw env)" "sfs_ready s" "block < d_blocks s" "failing (env_hw env) (lh_reqs s) block k"
  shows "k \<le> 10 \<Longrightarrow> hw_errno (env_hw env) (lh_reqs s + k) block UIO_READ = 0 \<Longrightarrow>
      sfs_readblock env block s = Inr (Done (lh_disk s block), tick (k + 1) 0 (s\<lparr>lh_buf := lh_disk s block\<rparr>))"
    and "k = 11 \<Longrightarrow> sfs_readblock env block s = Inr (Fail EIO, tick 11 EIO s)"
proof -
  have len: "length (lh_disk s block) = 512" and "sfs_device s"
    using assms(2) by (simp_all add: sfs_ready_def lhd_inv_def)
  moreover have "peek (poke m 0 (lh_disk s block)) 0 512 = lh_disk s block" for m
    using peek_poke [of "lh_disk s block" m 0] len by simp
  ultimately show "k \<le> 10 \<Longrightarrow> hw_errno (env_hw env) (lh_reqs s + k) block UIO_READ = 0 \<Longrightarrow>
      sfs_readblock env block s = Inr (Done (lh_disk s block), tick (k + 1) 0 (s\<lparr>lh_buf := lh_disk s block\<rparr>))"
    "k = 11 \<Longrightarrow> sfs_readblock env block s = Inr (Fail EIO, tick 11 EIO s)"
    using sfs_rwblock_try_read(1) [OF assms(1-3), where r = 10 and k = k and m = "\<lambda>_. 0"] assms(4)
      sfs_rwblock_try_read(2) [OF assms(1-3), where r = 10 and m = "\<lambda>_. 0"]
    by (simp_all add: sfs_readblock_def sfs_rwblock_def vfs_biglock_do_i_hold_def lock_do_i_hold_def)
qed

text \<open>A write: the first attempt uses up the descriptor, so an attempt after an error moves nothing.\<close>

lemma sfs_writeblock_try:
  assumes "hw_completes (env_hw env)" "sfs_ready s" "block < d_blocks s" "length data = 512"
    and "hw_errno (env_hw env) (lh_reqs s) block UIO_WRITE = e" "e \<noteq> EINVAL"
  shows "sfs_writeblock env block data s =
    Inr (Done (), tick 1 e (stored (env_hw env) e block (s\<lparr>lh_buf := data\<rparr>)))"
proof -
  have "sfs_device s" "e = 0 \<or> e = EIO"
    using assms(2) code_to_errno_cases(1) [OF assms(1), of "lh_reqs s" block 3] assms(5,6) by (auto simp: sfs_ready_def)
  moreover have "peek (poke (\<lambda>_. 0) 0 data) 0 512 = data"
    using peek_poke [of data "\<lambda>_. 0" 0] assms(4) by simp
  moreover have "sfs_rwblock_try env 9 (block_end block UIO_WRITE) m t = Inr (0, block_end block UIO_WRITE, m, t)"
    if "block < d_blocks t" for m t
  proof -
    have nine: "(9 :: nat) = Suc 8"
      by simp
    show ?thesis
      unfolding nine sfs_rwblock_try.simps lhd_io_block_end [OF that] by simp
  qed
  moreover have "sfs_rwblock_try env 10 (sfs_block_uio block UIO_WRITE) m s =
      (if e = EIO then sfs_rwblock_try env 9 (block_end block UIO_WRITE) m (tick 1 e (stored (env_hw env) e block (s\<lparr>lh_buf := peek m 0 512\<rparr>)))
       else Inr (e, block_end block UIO_WRITE, m, tick 1 e (stored (env_hw env) e block (s\<lparr>lh_buf := peek m 0 512\<rparr>))))" for m
  proof -
    have ten: "(10 :: nat) = Suc 9"
      by simp
    show ?thesis
      unfolding ten sfs_rwblock_try.simps lhd_io_block_write [OF assms(1-3)] assms(5) using assms(6)
      by (simp add: Let_def requested_tick)
  qed
  moreover have "d_blocks (stored (env_hw env) e block (s\<lparr>lh_buf := data\<rparr>)) = d_blocks s"
    by (simp add: stored_def)
  ultimately show ?thesis
    using assms(3,4)
    by (auto simp: sfs_writeblock_def sfs_rwblock_def vfs_biglock_do_i_hold_def lock_do_i_hold_def)
qed

text \<open>A disk on which every request succeeds.\<close>

definition hw_works :: "lhd_hw \<Rightarrow> bool" where
  "hw_works hw \<longleftrightarrow> (\<forall>n sect st. hw_status hw n sect st AND LHD_STATEMASK = LHD_OK)"

lemma hw_works_completes: "hw_works hw \<Longrightarrow> hw_completes hw"
  by (simp add: hw_works_def hw_completes_def)

lemma hw_works_errno: "hw_works hw \<Longrightarrow> lhd_code_to_errno (hw_status hw n sect st) = 0"
  by (simp add: hw_works_def lhd_code_to_errno_def)

lemma sfs_readblock_works:
  assumes "hw_works (env_hw env)" "sfs_ready s" "block < d_blocks s"
  shows "sfs_readblock env block s = Inr (Done (lh_disk s block), tick 1 0 (s\<lparr>lh_buf := lh_disk s block\<rparr>))"
  using sfs_readblock_try(1) [OF hw_works_completes [OF assms(1)] assms(2,3), of 0] hw_works_errno [OF assms(1)]
  by (simp add: failing_def)

lemma sfs_writeblock_works:
  assumes "hw_works (env_hw env)" "sfs_ready s" "block < d_blocks s" "length data = 512"
  shows "sfs_writeblock env block data s =
    Inr (Done (), tick 1 0 (s\<lparr>lh_buf := data, lh_disk := (lh_disk s)(block := data)\<rparr>))"
  using sfs_writeblock_try [OF hw_works_completes [OF assms(1)] assms(2-4) hw_works_errno [OF assms(1)]]
  by (simp add: stored_def)

text \<open>
  C24: A read of a block survives media errors: when the first \<open>k\<close> attempts fail, at most 10, and the
  next one succeeds, \<open>sfs_readblock\<close> hands back the contents of the block after \<open>k + 1\<close> requests;
  when 11 attempts fail it gives up with \<open>EIO\<close>, and the disk is unchanged in both cases.
\<close>

theorem sfs_readblock_retries:
  assumes "hw_completes (env_hw env)" "sfs_ready s" "block < d_blocks s" "failing (env_hw env) (lh_reqs s) block k"
    and "k = 11 \<or> k \<le> 10 \<and> hw_errno (env_hw env) (lh_reqs s + k) block UIO_READ = 0"
  shows "\<exists>s'. sfs_readblock env block s = Inr (if k = 11 then Fail EIO else Done (lh_disk s block), s') \<and>
    lh_disk s' = lh_disk s \<and> lh_reqs s' = lh_reqs s + (if k = 11 then 11 else k + 1) \<and> sfs_ready s'"
proof (cases "k = 11")
  case True
  then show ?thesis
    using sfs_readblock_try(2) [OF assms(1-4)] assms(2) by simp
next
  case False
  have "length (lh_disk s block) = 512"
    using assms(2) by (simp add: sfs_ready_def lhd_inv_def)
  then show ?thesis
    using False sfs_readblock_try(1) [OF assms(1-4)] assms(2,5) by simp
qed

text \<open>
  C25: A media error of a write is lost: the failed attempt has used up the descriptor, the attempt
  that follows asks the driver for no sector and returns 0, and \<open>sfs_writeblock\<close> reports success
  although the block holds whatever the failed write left there.
\<close>

theorem sfs_writeblock_loses_error:
  assumes "hw_completes (env_hw env)" "sfs_ready s" "block < d_blocks s" "length data = 512"
    and "hw_errno (env_hw env) (lh_reqs s) block UIO_WRITE = EIO"
  shows "\<exists>s'. sfs_writeblock env block data s = Inr (Done (), s') \<and>
    lh_disk s' block = hw_damage (env_hw env) (lh_reqs s) (lh_disk s block) data \<and> lh_reqs s' = lh_reqs s + 1"
  using sfs_writeblock_try [OF assms] by (simp add: stored_def)

section \<open>An example volume\<close>

text \<open>
  Eight blocks, the first four in use; pointer 1 is the loaded vnode of inode 1, an empty
  directory. On the second disk the first request of all fails.
\<close>

definition example_inode :: sfs_dinode where
  "example_inode = \<lparr>sfi_size = 0, sfi_type = SFS_TYPE_DIR, sfi_linkcount = 1, sfi_direct = replicate 15 0, sfi_indirect = 0,
     sfi_waste = replicate 110 0\<rparr>"

definition example_fs :: sfs_fs where
  "example_fs = \<lparr>lh_buf = replicate 512 0, lh_result = 0, lh_clear = \<lparr>sem_count = 1, sem_wchan = []\<rparr>,
     lh_done = \<lparr>sem_count = 0, sem_wchan = []\<rparr>, d_blocks = 8, d_blocksize = 512, lh_stat = 0,
     lh_disk = (\<lambda>sect. replicate 512 0), lh_reqs = 0,
     sfs_sb = \<lparr>sb_magic = SFS_MAGIC, sb_nblocks = 8, sb_volname = replicate 32 0, sb_reserved = replicate 118 0\<rparr>,
     sfs_superdirty = False, sfs_device = True, sfs_vnodes = \<lparr>arr_v = [Some 1, None, None, None], arr_num = 1, arr_max = 4\<rparr>,
     sfs_freemap = \<lparr>bm_nbits = 8, bm_v = [15]\<rparr>, sfs_freemapdirty = False,
     sfs_heap = [1 \<mapsto> \<lparr>vn_refcount = 1, sv_i = example_inode, sv_ino = 1, sv_dirty = False\<rparr>],
     sfs_fresh = 2, mem_reqs = 0, vfs_biglock_depth = 0\<rparr>"

definition example_sfs_env :: sfs_env where
  "example_sfs_env = \<lparr>env_hw = example_hw, env_ua = example_access, env_as = 0, env_mem = (\<lambda>n. True)\<rparr>"

definition flaky_env :: sfs_env where
  "flaky_env = example_sfs_env\<lparr>env_hw := example_hw\<lparr>hw_status := (\<lambda>n sect st. if n = 0 then LHD_MEDIA else LHD_OK)\<rparr>\<rparr>"

lemma example_fs_ready: "sfs_ready example_fs"
  by (simp add: sfs_ready_def lhd_inv_def lhd_idle_def example_fs_def)

lemma example_env_works: "hw_works (env_hw example_sfs_env)"
  by (simp add: hw_works_def example_sfs_env_def example_hw_def)

lemma flaky_completes: "hw_completes (env_hw flaky_env)"
  by (simp add: hw_completes_def flaky_env_def example_sfs_env_def example_hw_def)

theorem sfs_readblock_retries_witness:
  "\<exists>s'. sfs_readblock flaky_env 5 example_fs = Inr (Done (replicate 512 0), s') \<and> lh_reqs s' = 2"
  using sfs_readblock_retries [OF flaky_completes example_fs_ready, of 5 1]
  by (auto simp: failing_def flaky_env_def example_sfs_env_def example_hw_def example_fs_def lhd_code_to_errno_def)

theorem sfs_writeblock_loses_error_witness:
  "\<exists>s'. sfs_writeblock flaky_env 5 (replicate 512 7) example_fs = Inr (Done (), s') \<and> lh_disk s' 5 = replicate 512 0"
  using sfs_writeblock_loses_error [OF flaky_completes example_fs_ready, of 5 "replicate 512 7"]
  by (auto simp: flaky_env_def example_sfs_env_def example_hw_def example_fs_def lhd_code_to_errno_def)

end
