(* ===== verification/Sfs_Map.thy ===== *)
theory Sfs_Map
  imports Sfs_Blocks
begin

text \<open>
  Correctness of the free block map and of the map from the blocks of a file to disk blocks. A file is seen
  as the function \<open>file_block\<close> from block numbers to disk blocks, 0 for a hole, whether a
  number sits in the inode or in the indirect block.
\<close>

section \<open>Volumes\<close>

abbreviation used :: "sfs_fs \<Rightarrow> nat set" where
  "used s \<equiv> bitmap_bits (sfs_freemap s)"

abbreviation nblocks :: "sfs_fs \<Rightarrow> u32" where
  "nblocks s \<equiv> sb_nblocks (sfs_sb s)"

abbreviation zeros :: "u8 list" where
  "zeros \<equiv> replicate SFS_BLOCKSIZE 0"

text \<open>
  A volume: it fits on its device, its map of blocks is well-formed, the superblock and all numbers
  past the last block are marked.
\<close>

definition vol_ok :: "sfs_fs \<Rightarrow> bool" where
  "vol_ok s \<longleftrightarrow> sfs_ready s \<and> nblocks s \<le> d_blocks s \<and> bitmap_wf (sfs_freemap s) \<and> 0 \<in> used s \<and>
     unat (nblocks s) \<le> bitmap_size (sfs_freemap s) \<and> {unat (nblocks s)..<bitmap_size (sfs_freemap s)} \<subseteq> used s"

lemma vol_okD:
  assumes "vol_ok s"
  shows "sfs_ready s" "bitmap_wf (sfs_freemap s)" "0 \<in> used s" "b < nblocks s \<Longrightarrow> b < d_blocks s"
    "unat b \<notin> used s \<Longrightarrow> unat b < bitmap_size (sfs_freemap s) \<Longrightarrow> b < nblocks s"
    "b < nblocks s \<Longrightarrow> unat b < bitmap_size (sfs_freemap s)" "length (lh_disk s b) = SFS_BLOCKSIZE"
  using assms by (auto simp: vol_ok_def sfs_ready_def lhd_inv_def word_less_nat_alt word_le_nat_alt not_le[symmetric] subset_iff)

text \<open>The state after block \<open>b\<close> has been marked in the map \<open>fm\<close> and cleared on disk.\<close>

definition allocated :: "u32 \<Rightarrow> bitmap \<Rightarrow> sfs_fs \<Rightarrow> sfs_fs" where
  "allocated b fm s =
     tick 1 0 (s\<lparr>sfs_freemap := fm, sfs_freemapdirty := True, lh_buf := zeros, lh_disk := (lh_disk s)(b := zeros)\<rparr>)"

lemma allocated_fields [simp]:
  "lh_disk (allocated b fm s) = (lh_disk s)(b := zeros)" "sfs_freemap (allocated b fm s) = fm"
  "sfs_heap (allocated b fm s) = sfs_heap s" "sfs_sb (allocated b fm s) = sfs_sb s" "d_blocks (allocated b fm s) = d_blocks s"
  "sfs_vnodes (allocated b fm s) = sfs_vnodes s" "vfs_biglock_depth (allocated b fm s) = vfs_biglock_depth s"
  "sfs_fresh (allocated b fm s) = sfs_fresh s" "mem_reqs (allocated b fm s) = mem_reqs s"
  by (simp_all add: allocated_def)

lemma sfs_ready_write [simp]:
  "sfs_ready s \<Longrightarrow> length data = 512 \<Longrightarrow> sfs_ready (s\<lparr>lh_buf := data, lh_disk := (lh_disk s)(b := data)\<rparr>)"
  "sfs_ready (s\<lparr>sfs_freemap := fm\<rparr>) = sfs_ready s" "sfs_ready (s\<lparr>sfs_freemapdirty := d\<rparr>) = sfs_ready s"
  "sfs_ready (s\<lparr>sfs_heap := h\<rparr>) = sfs_ready s" "sfs_ready (s\<lparr>vfs_biglock_depth := k\<rparr>) = sfs_ready s"
  by (simp_all add: sfs_ready_def lhd_inv_def lhd_idle_def)

lemma sfs_balloc_full:
  assumes "bitmap_wf (sfs_freemap s)" "used s = {..<bitmap_size (sfs_freemap s)}"
  shows "sfs_balloc env s = Inr (Fail ENOSPC, s)"
  using bitmap_alloc_full [OF assms] by (simp add: sfs_balloc_def kop_simps)

lemma sfs_balloc_alloc:
  assumes "vol_ok s" "bitmap_alloc (sfs_freemap s) = Inr (Done b, fm)" "b < nblocks s"
    and "sfs_clearblock env b (s\<lparr>sfs_freemap := fm, sfs_freemapdirty := True\<rparr>) = Inr (Done (), s')"
  shows "sfs_balloc env s = Inr (Done b, s')"
  using assms by (simp add: sfs_balloc_def kop_simps not_le)

lemma sfs_balloc_free:
  assumes "hw_works (env_hw env)" "vol_ok s" "used s \<noteq> {..<bitmap_size (sfs_freemap s)}"
  shows "\<exists>b fm. sfs_balloc env s = Inr (Done b, allocated b fm s) \<and> vol_ok (allocated b fm s) \<and> unat b \<notin> used s \<and>
    b < nblocks s \<and> (\<forall>j<unat b. j \<in> used s) \<and> bitmap_size fm = bitmap_size (sfs_freemap s) \<and>
    bitmap_bits fm = insert (unat b) (used s)"
  using vol_okD(2) [OF assms(2)]
proof (cases rule: bm.alloc_cases)
  case full
  then show ?thesis
    using assms(3) by simp
next
  case (got b fm)
  let ?t = "s\<lparr>sfs_freemap := fm, sfs_freemapdirty := True\<rparr>"
  have b: "b < nblocks s"
    using vol_okD(5) [OF assms(2)] got by blast
  have ready: "sfs_ready ?t"
    using vol_okD(1) [OF assms(2)] by simp
  have "sfs_clearblock env b ?t = Inr (Done (), allocated b fm s)"
    using sfs_writeblock_works [OF assms(1) ready, of b zeros] vol_okD(4) [OF assms(2) b]
    by (simp add: sfs_clearblock_def allocated_def)
  then have "sfs_balloc env s = Inr (Done b, allocated b fm s)"
    using sfs_balloc_alloc [OF assms(2) got(1) b] by simp
  moreover have "vol_ok (allocated b fm s)"
    using assms(2) got sfs_ready_write(1) [OF ready, of zeros b]
    by (auto simp: vol_ok_def allocated_def)
  ultimately show ?thesis
    using got b by auto
qed

text \<open>
  C8: \<open>sfs_balloc\<close> on a working disk: when every block is in use it returns \<open>ENOSPC\<close> and changes
  nothing; otherwise it returns the least free block, marks exactly that block, and the block is
  all zeros on disk while every other block keeps its contents.
\<close>

theorem sfs_balloc_correct:
  assumes "hw_works (env_hw env)" "vol_ok s"
  shows "(if used s = {..<bitmap_size (sfs_freemap s)} then sfs_balloc env s = Inr (Fail ENOSPC, s)
    else \<exists>b s'. sfs_balloc env s = Inr (Done b, s') \<and> vol_ok s' \<and> unat b \<notin> used s \<and> (\<forall>j<unat b. j \<in> used s) \<and>
      used s' = insert (unat b) (used s) \<and> lh_disk s' = (lh_disk s)(b := zeros))"
proof (cases "used s = {..<bitmap_size (sfs_freemap s)}")
  case True
  then show ?thesis
    using sfs_balloc_full vol_okD(2) [OF assms(2)] by simp
next
  case False
  then show ?thesis
    using sfs_balloc_free [OF assms False] by force
qed

lemma example_vol_ok: "vol_ok example_fs"
proof -
  have "bitmap_wf \<lparr>bm_nbits = 8, bm_v = [15]\<rparr>" "0 \<in> bitmap_bits \<lparr>bm_nbits = 8, bm_v = [15]\<rparr>"
    by (simp_all add: bitmap_wf_def bitmap_bits_def)
  then show ?thesis
    using example_fs_ready by (simp add: vol_ok_def) (simp add: example_fs_def)
qed

lemma example_used: "used example_fs = {0, 1, 2, 3}"
proof -
  have mask: "(15 :: u8) = mask 4"
    by (simp add: mask_eq_exp_minus_1)
  have bits: "bit (15 :: u8) i \<longleftrightarrow> i < 4" for i
    unfolding mask bit_mask_iff by auto
  have fm: "sfs_freemap example_fs = \<lparr>bm_nbits = 8, bm_v = [15]\<rparr>"
    by (simp add: example_fs_def)
  have mem: "i \<in> used example_fs \<longleftrightarrow> i < 4" for i
    unfolding fm bitmap_bits_def using bits [of i] by (cases "i < 8") simp_all
  have "i < 4 \<longleftrightarrow> i \<in> {0, 1, 2, 3}" for i :: nat
    by auto
  then show ?thesis
    by (intro set_eqI) (simp only: mem)
qed

theorem sfs_balloc_correct_witness:
  "\<exists>b s'. sfs_balloc example_sfs_env example_fs = Inr (Done b, s') \<and> unat b \<notin> {0, 1, 2, 3 :: nat} \<and>
     used s' = insert (unat b) {0, 1, 2, 3}"
proof -
  have "7 \<in> {..<bitmap_size (sfs_freemap example_fs)}" "7 \<notin> used example_fs"
    unfolding example_used by (simp_all add: example_fs_def)
  then have "used example_fs \<noteq> {..<bitmap_size (sfs_freemap example_fs)}"
    by metis
  then show ?thesis
    using sfs_balloc_correct [OF example_env_works example_vol_ok] unfolding example_used by auto
qed

section \<open>Files\<close>

abbreviation SFS_MAXBLOCKS :: nat where "SFS_MAXBLOCKS \<equiv> SFS_NDIRECT + SFS_DBPERIDB"

definition inode_block :: "(u32 \<Rightarrow> u8 list) \<Rightarrow> sfs_dinode \<Rightarrow> nat \<Rightarrow> u32" where
  "inode_block d i fb =
     (if fb < SFS_NDIRECT then sfi_direct i ! fb
      else if sfi_indirect i = 0 then 0
      else words_of 0 SFS_DBPERIDB (d (sfi_indirect i)) ! (fb - SFS_NDIRECT))"

text \<open>
  A well-formed file: its blocks and its indirect block are blocks of the volume that are marked in
  use, no two of them are the same.
\<close>

definition block_ok :: "sfs_fs \<Rightarrow> u32 \<Rightarrow> bool" where
  "block_ok s b \<longleftrightarrow> b < nblocks s \<and> unat b \<in> used s"

definition inode_ok :: "sfs_fs \<Rightarrow> sfs_dinode \<Rightarrow> bool" where
  "inode_ok s i \<longleftrightarrow> length (sfi_direct i) = SFS_NDIRECT \<and> (sfi_indirect i \<noteq> 0 \<longrightarrow> block_ok s (sfi_indirect i)) \<and>
     (\<forall>fb<SFS_MAXBLOCKS. inode_block (lh_disk s) i fb \<noteq> 0 \<longrightarrow>
        block_ok s (inode_block (lh_disk s) i fb) \<and> inode_block (lh_disk s) i fb \<noteq> sfi_indirect i) \<and>
     (\<forall>fb<SFS_MAXBLOCKS. \<forall>gb<SFS_MAXBLOCKS. inode_block (lh_disk s) i fb = inode_block (lh_disk s) i gb \<longrightarrow>
        fb = gb \<or> inode_block (lh_disk s) i fb = 0)"

lemma hand_back_ok:
  assumes "vol_ok s" "b = 0 \<or> block_ok s b"
  shows "hand_back b s = Inr (Done b, s)"
proof (cases "b = 0")
  case False
  then have b: "b < nblocks s" "unat b \<in> used s"
    using assms(2) by (simp_all add: block_ok_def)
  obtain x where x: "bitmap_isset (sfs_freemap s) b = Inr x" "x \<noteq> 0"
    using bm.fm_isset [OF vol_okD(2) [OF assms(1)] vol_okD(6) [OF assms(1) b(1)]] b(2) by blast
  then show ?thesis
    using b(1) False by (simp add: hand_back_def sfs_bused_def kop_simps not_le)
qed (simp add: hand_back_def kop_simps)

lemma sv_get_eval [simp]: "sfs_heap s p = Some sv \<Longrightarrow> kbind (sv_get p) f s = f sv s"
  by (simp add: sv_get_def)

lemma sv_update_eval [simp]:
  "sfs_heap s p = Some sv \<Longrightarrow> sv_update p g s = Inr (Done (), s\<lparr>sfs_heap := (sfs_heap s)(p \<mapsto> g sv)\<rparr>)"
  by (simp add: sv_update_def kop_simps)

lemma lock_check [simp]: "kbind (kcheck vfs_biglock_do_i_hold) f s = f () s"
  by (simp add: vfs_biglock_do_i_hold_def lock_do_i_hold_def)

text \<open>The position of a block past the direct ones in the indirect block.\<close>

lemma indirect_position:
  assumes "\<not> unat fb < SFS_NDIRECT" "unat fb < SFS_MAXBLOCKS"
  shows "\<not> (fb :: u32) < of_nat SFS_NDIRECT" "\<not> (fb - of_nat SFS_NDIRECT) div of_nat SFS_DBPERIDB \<ge> SFS_NINDIRECT"
    "unat ((fb - of_nat SFS_NDIRECT) mod of_nat SFS_DBPERIDB) = unat fb - SFS_NDIRECT"
proof -
  show "\<not> fb < of_nat SFS_NDIRECT"
    using assms(1) by (simp add: word_less_nat_alt)
  then have "unat (fb - of_nat SFS_NDIRECT) = unat fb - SFS_NDIRECT"
    by (simp add: unat_sub not_less)
  then show "\<not> (fb - of_nat SFS_NDIRECT) div of_nat SFS_DBPERIDB \<ge> SFS_NINDIRECT"
    "unat ((fb - of_nat SFS_NDIRECT) mod of_nat SFS_DBPERIDB) = unat fb - SFS_NDIRECT"
    using assms(2) by (simp_all add: word_le_nat_alt unat_div unat_mod)
qed

subsection \<open>Looking a block up\<close>

text \<open>A state that differs at most in what the driver remembers of its last request.\<close>

definition calm :: "sfs_fs \<Rightarrow> sfs_fs \<Rightarrow> bool" where
  "calm s s' \<longleftrightarrow> sfs_ready s' \<and>
     s' = s\<lparr>lh_buf := lh_buf s', lh_result := lh_result s', lh_stat := lh_stat s', lh_reqs := lh_reqs s'\<rparr>"

lemma calm_fields:
  assumes "calm s s'"
  shows "lh_disk s' = lh_disk s" "d_blocks s' = d_blocks s" "sfs_sb s' = sfs_sb s" "sfs_freemap s' = sfs_freemap s"
    "sfs_heap s' = sfs_heap s" "sfs_vnodes s' = sfs_vnodes s" "vfs_biglock_depth s' = vfs_biglock_depth s"
    "sfs_freemapdirty s' = sfs_freemapdirty s" "sfs_fresh s' = sfs_fresh s" "mem_reqs s' = mem_reqs s"
    "sfs_superdirty s' = sfs_superdirty s"
proof -
  obtain b r st n where "s' = s\<lparr>lh_buf := b, lh_result := r, lh_stat := st, lh_reqs := n\<rparr>"
    using assms unfolding calm_def by blast
  then show "lh_disk s' = lh_disk s" "d_blocks s' = d_blocks s" "sfs_sb s' = sfs_sb s" "sfs_freemap s' = sfs_freemap s"
    "sfs_heap s' = sfs_heap s" "sfs_vnodes s' = sfs_vnodes s" "vfs_biglock_depth s' = vfs_biglock_depth s"
    "sfs_freemapdirty s' = sfs_freemapdirty s" "sfs_fresh s' = sfs_fresh s" "mem_reqs s' = mem_reqs s"
    "sfs_superdirty s' = sfs_superdirty s"
    by simp_all
qed

lemma calm_refl: "sfs_ready s \<Longrightarrow> calm s s"
  by (simp add: calm_def)

lemma calm_trans:
  assumes "calm s s'" "calm s' s''"
  shows "calm s s''"
proof -
  obtain b r st n where "s' = s\<lparr>lh_buf := b, lh_result := r, lh_stat := st, lh_reqs := n\<rparr>"
    using assms(1) unfolding calm_def by blast
  moreover obtain b' r' st' n' where "s'' = s'\<lparr>lh_buf := b', lh_result := r', lh_stat := st', lh_reqs := n'\<rparr>"
    using assms(2) unfolding calm_def by blast
  ultimately show ?thesis
    using assms(2) by (simp add: calm_def)
qed

lemma calm_vol_ok: "calm s s' \<Longrightarrow> vol_ok s \<Longrightarrow> vol_ok s'"
  using calm_fields [of s s'] by (simp add: vol_ok_def calm_def)

lemma calm_inode_ok: "calm s s' \<Longrightarrow> inode_ok s' i = inode_ok s i"
  using calm_fields [of s s'] by (simp add: inode_ok_def block_ok_def)

lemma calm_read: "vol_ok s \<Longrightarrow> calm s (tick n e (s\<lparr>lh_buf := lh_disk s b\<rparr>))"
  using vol_okD(1) [of s] vol_okD(7) [of s b] by (simp add: calm_def) (simp add: tick_def)

lemma readblock_calm:
  assumes "hw_works (env_hw env)" "vol_ok s" "b < nblocks s"
  shows "\<exists>s'. sfs_readblock env b s = Inr (Done (lh_disk s b), s') \<and> calm s s'"
  using sfs_readblock_works [OF assms(1) vol_okD(1) [OF assms(2)] vol_okD(4) [OF assms(2,3)]] calm_read [OF assms(2)] by blast

lemma sfs_bmap_lookup:
  assumes "hw_works (env_hw env)" "vol_ok s" "sfs_heap s p = Some sv" "inode_ok s (sv_i sv)" "unat fb < SFS_MAXBLOCKS"
    and "doalloc \<longrightarrow> inode_block (lh_disk s) (sv_i sv) (unat fb) \<noteq> 0"
  shows "\<exists>s'. sfs_bmap env p fb doalloc s = Inr (Done (inode_block (lh_disk s) (sv_i sv) (unat fb)), s') \<and> calm s s'"
proof -
  let ?b = "inode_block (lh_disk s) (sv_i sv) (unat fb)"
  have ok: "?b = 0 \<or> block_ok s ?b"
    using assms(4,5) by (auto simp: inode_ok_def)
  have len: "length (sfi_direct (sv_i sv)) = SFS_NDIRECT"
    using assms(4) by (simp add: inode_ok_def)
  show ?thesis
  proof (cases "unat fb < SFS_NDIRECT")
    case True
    then have "fb < of_nat SFS_NDIRECT" "?b = sfi_direct (sv_i sv) ! unat fb"
      by (simp_all add: word_less_nat_alt inode_block_def)
    then have "sfs_bmap env p fb doalloc s = Inr (Done ?b, s)"
      using assms(3,6) True len hand_back_ok [OF assms(2) ok] by (auto simp: sfs_bmap_def kop_simps)
    then show ?thesis
      using calm_refl [OF vol_okD(1) [OF assms(2)]] by blast
  next
    case False
    note pos = indirect_position [OF False assms(5)]
    show ?thesis
    proof (cases "sfi_indirect (sv_i sv) = 0")
      case True
      then have "?b = 0" "\<not> doalloc"
        using False assms(6) by (auto simp: inode_block_def)
      then show ?thesis
        using True pos assms(3) calm_refl [OF vol_okD(1) [OF assms(2)]]
        by (intro exI [of _ s]) (simp add: sfs_bmap_def kop_simps Let_def)
    next
      case nz: False
      then have "sfi_indirect (sv_i sv) < nblocks s"
        using assms(4) by (simp add: inode_ok_def block_ok_def)
      then obtain t where t: "sfs_readblock env (sfi_indirect (sv_i sv)) s = Inr (Done (lh_disk s (sfi_indirect (sv_i sv))), t)"
          and calm: "calm s t"
        using readblock_calm [OF assms(1,2)] by blast
      have b: "?b = words_of 0 SFS_DBPERIDB (lh_disk s (sfi_indirect (sv_i sv))) ! (unat fb - SFS_NDIRECT)"
        using False nz by (simp add: inode_block_def)
      have "hand_back ?b t = Inr (Done ?b, t)"
        using hand_back_ok [OF calm_vol_ok [OF calm assms(2)]] ok calm_fields [OF calm] by (simp add: block_ok_def)
      then have "sfs_bmap env p fb doalloc s = Inr (Done ?b, t)"
        using assms(3,5,6) nz pos t b by (auto simp: sfs_bmap_def kop_simps Let_def)
      then show ?thesis
        using calm by blast
    qed
  qed
qed

end
