(* ===== verification/Sfs_Bmap.thy ===== *)
theory Sfs_Bmap
  imports Sfs_Map
begin

text \<open>
  Correctness of \<open>sfs_bmap\<close> when it has to allocate: exactly one block of the file changes, from a hole to a
  fresh zeroed block.
\<close>

section \<open>A file with one more block\<close>

lemma inode_ok_extend:
  assumes "inode_ok s i" "vol_ok s" "used s \<subseteq> used s'" "nblocks s' = nblocks s"
    and "unat b \<notin> used s" "block_ok s' b" "length (sfi_direct i') = SFS_NDIRECT"
    and ind: "sfi_indirect i' = sfi_indirect i \<or> unat (sfi_indirect i') \<notin> used s \<and> block_ok s' (sfi_indirect i') \<and> sfi_indirect i' \<noteq> b"
    and blocks: "\<And>g. g < SFS_MAXBLOCKS \<Longrightarrow>
      inode_block (lh_disk s') i' g = (if g = fb then b else inode_block (lh_disk s) i g)"
  shows "inode_ok s' i'"
proof -
  let ?f = "inode_block (lh_disk s) i"
  have mono: "block_ok s c \<Longrightarrow> block_ok s' c" for c
    using assms(3,4) by (auto simp: block_ok_def)
  have old: "?f g = 0 \<or> block_ok s (?f g) \<and> ?f g \<noteq> sfi_indirect i" if "g < SFS_MAXBLOCKS" for g
    using that assms(1) by (auto simp: inode_ok_def)
  have inj: "?f g = ?f h \<Longrightarrow> g = h \<or> ?f g = 0" if "g < SFS_MAXBLOCKS" "h < SFS_MAXBLOCKS" for g h
    using that assms(1) unfolding inode_ok_def by blast
  have ind_old: "sfi_indirect i = 0 \<or> block_ok s (sfi_indirect i)"
    using assms(1) by (auto simp: inode_ok_def)
  have fresh: "b \<noteq> 0" "\<not> block_ok s b"
    using assms(5) vol_okD(3) [OF assms(2)] by (auto simp: block_ok_def)
  have ind_new: "sfi_indirect i' = 0 \<or> block_ok s' (sfi_indirect i')"
    using ind ind_old mono by auto
  have ind_b: "sfi_indirect i' \<noteq> b"
    using ind ind_old fresh by auto
  have ind_f: "?f g \<noteq> 0 \<Longrightarrow> ?f g \<noteq> sfi_indirect i'" if "g < SFS_MAXBLOCKS" for g
    using ind old [OF that] by (auto simp: block_ok_def)
  show ?thesis
    unfolding inode_ok_def
  proof (intro conjI allI impI)
    show "length (sfi_direct i') = SFS_NDIRECT"
      by (rule assms(7))
    show "block_ok s' (sfi_indirect i')" if "sfi_indirect i' \<noteq> 0"
      using that ind_new by blast
    fix g assume g: "g < SFS_MAXBLOCKS"
    show "block_ok s' (inode_block (lh_disk s') i' g)" "inode_block (lh_disk s') i' g \<noteq> sfi_indirect i'"
      if "inode_block (lh_disk s') i' g \<noteq> 0"
      using that g old [OF g] mono assms(6) ind_b ind_f [OF g] by (auto simp: blocks [OF g] split: if_splits)
    fix h assume h: "h < SFS_MAXBLOCKS" "inode_block (lh_disk s') i' g = inode_block (lh_disk s') i' h"
    have neq: "?f x \<noteq> b" if "x < SFS_MAXBLOCKS" for x
      using old [OF that] fresh by metis
    show "g = h \<or> inode_block (lh_disk s') i' g = 0"
      using h(2) inj [OF g h(1)] neq [OF g] neq [OF h(1)] unfolding blocks [OF g] blocks [OF h(1)] by metis
  qed
qed

text \<open>
  The state in which block \<open>fb\<close> of the file at \<open>p\<close> is the new block \<open>b\<close>: nothing else of the file
  changed, and every block that was in use keeps its contents, the indirect block apart.
\<close>

definition file_extended :: "sfs_fs \<Rightarrow> nat \<Rightarrow> sfs_vnode \<Rightarrow> nat \<Rightarrow> u32 \<Rightarrow> sfs_fs \<Rightarrow> bool" where
  "file_extended s p sv fb b s' \<longleftrightarrow>
     vol_ok s' \<and> unat b \<notin> used s \<and> used s \<subseteq> used s' \<and> lh_disk s' b = zeros \<and> sfs_sb s' = sfs_sb s \<and>
     sfs_vnodes s' = sfs_vnodes s \<and> vfs_biglock_depth s' = vfs_biglock_depth s \<and> sfs_fresh s' = sfs_fresh s \<and>
     mem_reqs s' = mem_reqs s \<and>
     (\<forall>c. unat c \<in> used s \<and> c \<noteq> sfi_indirect (sv_i sv) \<longrightarrow> lh_disk s' c = lh_disk s c) \<and>
     (\<exists>sv'. sfs_heap s' = (sfs_heap s)(p \<mapsto> sv') \<and> inode_ok s' (sv_i sv') \<and> sv_ino sv' = sv_ino sv \<and>
        vn_refcount sv' = vn_refcount sv \<and> sfi_size (sv_i sv') = sfi_size (sv_i sv) \<and> sfi_type (sv_i sv') = sfi_type (sv_i sv) \<and>
        sfi_linkcount (sv_i sv') = sfi_linkcount (sv_i sv) \<and>
        (sfi_indirect (sv_i sv') = sfi_indirect (sv_i sv) \<or> unat (sfi_indirect (sv_i sv')) \<notin> used s) \<and>
        (\<forall>g<SFS_MAXBLOCKS. inode_block (lh_disk s') (sv_i sv') g =
           (if g = fb then b else inode_block (lh_disk s) (sv_i sv) g)))"

lemma balloc_room:
  assumes "hw_works (env_hw env)" "vol_ok s" "card (used s) < bitmap_size (sfs_freemap s)"
  obtains b fm where "sfs_balloc env s = Inr (Done b, allocated b fm s)" "vol_ok (allocated b fm s)" "unat b \<notin> used s"
    "b < nblocks s" "bitmap_size fm = bitmap_size (sfs_freemap s)" "bitmap_bits fm = insert (unat b) (used s)" "b \<noteq> 0"
proof -
  have "used s \<noteq> {..<bitmap_size (sfs_freemap s)}"
    using assms(3) by (metis card_lessThan less_irrefl)
  then obtain b fm where "sfs_balloc env s = Inr (Done b, allocated b fm s)" "vol_ok (allocated b fm s)" "unat b \<notin> used s"
    "b < nblocks s" "bitmap_size fm = bitmap_size (sfs_freemap s)" "bitmap_bits fm = insert (unat b) (used s)"
    using sfs_balloc_free [OF assms(1,2)] by blast
  moreover from this have "b \<noteq> 0"
    using vol_okD(3) [OF assms(2)] by auto
  ultimately show thesis
    by (rule that)
qed

lemma vol_ok_heap [simp]: "vol_ok (s\<lparr>sfs_heap := h\<rparr>) = vol_ok s"
  by (simp add: vol_ok_def)

lemma sfs_bmap_alloc_direct:
  assumes "hw_works (env_hw env)" "vol_ok s" "sfs_heap s p = Some sv" "inode_ok s (sv_i sv)" "unat fb < SFS_NDIRECT"
    and "inode_block (lh_disk s) (sv_i sv) (unat fb) = 0" "card (used s) < bitmap_size (sfs_freemap s)"
  shows "\<exists>b s'. sfs_bmap env p fb True s = Inr (Done b, s') \<and> file_extended s p sv (unat fb) b s'"
proof -
  obtain b fm where b: "sfs_balloc env s = Inr (Done b, allocated b fm s)" "vol_ok (allocated b fm s)" "unat b \<notin> used s"
      "b < nblocks s" "bitmap_bits fm = insert (unat b) (used s)"
    using balloc_room [OF assms(1,2,7)] by metis
  let ?i = "(sv_i sv)\<lparr>sfi_direct := (sfi_direct (sv_i sv))[unat fb := b]\<rparr>"
  let ?sv = "sv\<lparr>sv_i := ?i, sv_dirty := True\<rparr>"
  let ?s = "(allocated b fm s)\<lparr>sfs_heap := (sfs_heap s)(p \<mapsto> ?sv)\<rparr>"
  have len: "length (sfi_direct (sv_i sv)) = SFS_NDIRECT"
    using assms(4) by (simp add: inode_ok_def)
  have fb: "fb < of_nat SFS_NDIRECT" "sfi_direct (sv_i sv) ! unat fb = 0"
    using assms(5,6) by (simp_all add: word_less_nat_alt inode_block_def)
  have "hand_back b ?s = Inr (Done b, ?s)"
    using hand_back_ok [of ?s b] b by (simp add: block_ok_def)
  then have "sfs_bmap env p fb True s = Inr (Done b, ?s)"
    using assms(3,5) fb len b(1) by (simp add: sfs_bmap_def kop_simps)
  moreover have ind: "sfi_indirect (sv_i sv) \<noteq> 0 \<Longrightarrow> sfi_indirect (sv_i sv) \<noteq> b"
    using assms(4) b(3) by (auto simp: inode_ok_def block_ok_def)
  have blocks: "inode_block (lh_disk ?s) ?i g = (if g = unat fb then b else inode_block (lh_disk s) (sv_i sv) g)" for g
    using assms(5) len ind by (auto simp: inode_block_def)
  then have "inode_ok ?s ?i"
    by (intro inode_ok_extend [OF assms(4,2)]) (use b len in \<open>auto simp: block_ok_def\<close>)
  then have "file_extended s p sv (unat fb) b ?s"
    unfolding file_extended_def using b blocks by (intro conjI exI [of _ ?sv]) auto
  ultimately show ?thesis
    by blast
qed

section \<open>Blocks in the indirect block\<close>

definition id_written :: "u32 \<Rightarrow> u8 list \<Rightarrow> sfs_fs \<Rightarrow> sfs_fs" where
  "id_written b data s = tick 1 0 (s\<lparr>lh_buf := data, lh_disk := (lh_disk s)(b := data)\<rparr>)"

lemma id_written_fields [simp]:
  "lh_disk (id_written b data s) = (lh_disk s)(b := data)" "sfs_freemap (id_written b data s) = sfs_freemap s"
  "sfs_heap (id_written b data s) = sfs_heap s" "sfs_sb (id_written b data s) = sfs_sb s" "d_blocks (id_written b data s) = d_blocks s"
  "sfs_vnodes (id_written b data s) = sfs_vnodes s" "vfs_biglock_depth (id_written b data s) = vfs_biglock_depth s"
  "sfs_fresh (id_written b data s) = sfs_fresh s" "mem_reqs (id_written b data s) = mem_reqs s"
  by (simp_all add: id_written_def)

lemma id_written_vol_ok: "vol_ok s \<Longrightarrow> length data = 512 \<Longrightarrow> vol_ok (id_written b data s)"
  using sfs_ready_write(1) [of s data b] by (simp add: vol_ok_def id_written_def)

lemma writeblock_id:
  assumes "hw_works (env_hw env)" "vol_ok s" "b < nblocks s" "length data = 512"
  shows "sfs_writeblock env b data s = Inr (Done (), id_written b data s)"
  using sfs_writeblock_works [OF assms(1) vol_okD(1) [OF assms(2)] vol_okD(4) [OF assms(2,3)] assms(4)]
  by (simp add: id_written_def)

text \<open>The end of \<open>sfs_bmap\<close>, from the moment the indirect block is in the buffer, when the entry is a hole.\<close>

lemma indirect_tail:
  assumes "hw_works (env_hw env)" "vol_ok u" "card (used u) < bitmap_size (sfs_freemap u)" "idb < nblocks u"
    and "length ws = SFS_DBPERIDB" "off < SFS_DBPERIDB" "ws ! off = 0"
  obtains b fm where
    "kbind (klift (\<lambda>s. arr_get ws off)) (\<lambda>block.
       kbind (if block = 0 \<and> True then
                kbind (sfs_balloc env) (\<lambda>block.
                kbind (sfs_writeblock env idb (bytes_of (ws[off := block]))) (\<lambda>_. kret block))
              else kret block) hand_back) u =
     Inr (Done b, id_written idb (bytes_of (ws[off := b])) (allocated b fm u))"
    "vol_ok (id_written idb (bytes_of (ws[off := b])) (allocated b fm u))" "unat b \<notin> used u" "b < nblocks u"
    "bitmap_bits fm = insert (unat b) (used u)"
proof -
  obtain b fm where b: "sfs_balloc env u = Inr (Done b, allocated b fm u)" "vol_ok (allocated b fm u)" "unat b \<notin> used u"
      "b < nblocks u" "bitmap_bits fm = insert (unat b) (used u)"
    using balloc_room [OF assms(1-3)] by metis
  let ?d = "bytes_of (ws[off := b])"
  have len: "length ?d = 512"
    using assms(5) by simp
  then have w: "sfs_writeblock env idb ?d (allocated b fm u) = Inr (Done (), id_written idb ?d (allocated b fm u))"
    using writeblock_id [OF assms(1) b(2)] assms(4) by simp
  have ok: "vol_ok (id_written idb ?d (allocated b fm u))"
    using id_written_vol_ok [OF b(2) len] .
  then have "hand_back b (id_written idb ?d (allocated b fm u)) = Inr (Done b, id_written idb ?d (allocated b fm u))"
    using hand_back_ok [OF ok, of b] b by (simp add: block_ok_def)
  then show thesis
    using that [OF _ ok b(3-5)] assms(5-7) b(1) w by (simp add: kop_simps)
qed

lemma sfs_bmap_alloc_indirect:
  assumes "hw_works (env_hw env)" "vol_ok s" "sfs_heap s p = Some sv" "inode_ok s (sv_i sv)" "\<not> unat fb < SFS_NDIRECT"
    and "unat fb < SFS_MAXBLOCKS" "sfi_indirect (sv_i sv) \<noteq> 0"
    and "inode_block (lh_disk s) (sv_i sv) (unat fb) = 0" "card (used s) < bitmap_size (sfs_freemap s)"
  shows "\<exists>b s'. sfs_bmap env p fb True s = Inr (Done b, s') \<and> file_extended s p sv (unat fb) b s'"
proof -
  let ?id = "sfi_indirect (sv_i sv)" and ?off = "unat fb - SFS_NDIRECT"
  let ?ws = "words_of 0 SFS_DBPERIDB (lh_disk s ?id)"
  note pos = indirect_position [OF assms(5,6)]
  have id: "?id < nblocks s" "unat ?id \<in> used s"
    using assms(4,7) by (simp_all add: inode_ok_def block_ok_def)
  obtain t where t: "sfs_readblock env ?id s = Inr (Done (lh_disk s ?id), t)" and calm: "calm s t"
    using readblock_calm [OF assms(1,2) id(1)] by blast
  note cf = calm_fields [OF calm]
  have ws: "?ws ! ?off = 0" "?off < SFS_DBPERIDB"
    using assms(5-8) by (simp_all add: inode_block_def)
  have "card (used t) < bitmap_size (sfs_freemap t)" "?id < nblocks t" "length ?ws = SFS_DBPERIDB"
    using assms(9) id cf by simp_all
  from indirect_tail [OF assms(1) calm_vol_ok [OF calm assms(2)] this ws(2,1)]
  obtain b fm where run: "kbind (klift (\<lambda>s. arr_get ?ws ?off)) (\<lambda>block.
       kbind (if block = 0 \<and> True then
                kbind (sfs_balloc env) (\<lambda>block.
                kbind (sfs_writeblock env ?id (bytes_of (?ws[?off := block]))) (\<lambda>_. kret block))
              else kret block) hand_back) t =
     Inr (Done b, id_written ?id (bytes_of (?ws[?off := b])) (allocated b fm t))"
    and ok: "vol_ok (id_written ?id (bytes_of (?ws[?off := b])) (allocated b fm t))"
    and bt: "unat b \<notin> used t" "b < nblocks t" "bitmap_bits fm = insert (unat b) (used t)" .
  note b = bt [unfolded cf]
  let ?s = "id_written ?id (bytes_of (?ws[?off := b])) (allocated b fm t)"
  have "sfs_bmap env p fb True s = Inr (Done b, ?s)"
    using assms(3,7) pos t run by (simp add: sfs_bmap_def kop_simps Let_def cong: if_cong)
  moreover have "?id \<noteq> b"
    using id(2) b(1) by auto
  have blocks: "inode_block (lh_disk ?s) (sv_i sv) g = (if g = unat fb then b else inode_block (lh_disk s) (sv_i sv) g)"
    if "g < SFS_MAXBLOCKS" for g
    using that assms(5-7) by (auto simp: inode_block_def nth_list_update)
  then have "inode_ok ?s (sv_i sv)"
    by (intro inode_ok_extend [OF assms(4,2)]) (use b cf assms(4) in \<open>auto simp: block_ok_def inode_ok_def\<close>)
  then have "file_extended s p sv (unat fb) b ?s"
    unfolding file_extended_def using b blocks ok cf assms(3) \<open>?id \<noteq> b\<close>
    by (intro conjI exI [of _ sv]) (auto simp: fun_upd_idem)
  ultimately show ?thesis
    by blast
qed

lemma sfs_bmap_alloc_new_indirect:
  assumes "hw_works (env_hw env)" "vol_ok s" "sfs_heap s p = Some sv" "inode_ok s (sv_i sv)" "\<not> unat fb < SFS_NDIRECT"
    and "unat fb < SFS_MAXBLOCKS" "sfi_indirect (sv_i sv) = 0" "card (used s) + 1 < bitmap_size (sfs_freemap s)"
  shows "\<exists>b s'. sfs_bmap env p fb True s = Inr (Done b, s') \<and> file_extended s p sv (unat fb) b s'"
proof -
  let ?off = "unat fb - SFS_NDIRECT" and ?ws = "replicate SFS_DBPERIDB 0 :: u32 list"
  note pos = indirect_position [OF assms(5,6)]
  obtain c fm1 where c: "sfs_balloc env s = Inr (Done c, allocated c fm1 s)" "vol_ok (allocated c fm1 s)" "unat c \<notin> used s"
      "c < nblocks s" "bitmap_size fm1 = bitmap_size (sfs_freemap s)" "bitmap_bits fm1 = insert (unat c) (used s)" "c \<noteq> 0"
    using balloc_room [OF assms(1,2)] assms(8) by (metis add_lessD1)
  let ?i = "(sv_i sv)\<lparr>sfi_indirect := c\<rparr>"
  let ?sv = "sv\<lparr>sv_i := ?i, sv_dirty := True\<rparr>"
  let ?t = "(allocated c fm1 s)\<lparr>sfs_heap := (sfs_heap s)(p \<mapsto> ?sv)\<rparr>"
  have "finite (used s)"
    using bm.fm_bits_subset [of "sfs_freemap s"] finite_subset by blast
  then have "card (used ?t) < bitmap_size (sfs_freemap ?t)" "c < nblocks ?t" "length ?ws = SFS_DBPERIDB" "vol_ok ?t"
      "?off < SFS_DBPERIDB" "?ws ! ?off = 0"
    using c assms(5,6,8) by simp_all
  from indirect_tail [OF assms(1) this(4) this(1-3,5,6)]
  obtain b fm where run: "kbind (klift (\<lambda>s. arr_get ?ws ?off)) (\<lambda>block.
       kbind (if block = 0 \<and> True then
                kbind (sfs_balloc env) (\<lambda>block.
                kbind (sfs_writeblock env c (bytes_of (?ws[?off := block]))) (\<lambda>_. kret block))
              else kret block) hand_back) ?t =
     Inr (Done b, id_written c (bytes_of (?ws[?off := b])) (allocated b fm ?t))"
    and ok: "vol_ok (id_written c (bytes_of (?ws[?off := b])) (allocated b fm ?t))"
    and bt: "unat b \<notin> used ?t" "b < nblocks ?t" "bitmap_bits fm = insert (unat b) (used ?t)" .
  have b: "unat b \<notin> used s" "b \<noteq> c" "b < nblocks s" "bitmap_bits fm = insert (unat b) (insert (unat c) (used s))"
    using bt c by auto
  let ?s = "id_written c (bytes_of (?ws[?off := b])) (allocated b fm ?t)"
  have "sfs_bmap env p fb True s = Inr (Done b, ?s)"
    using assms(3,7) pos c(1) run by (simp add: sfs_bmap_def kop_simps Let_def cong: if_cong)
  moreover have blocks: "inode_block (lh_disk ?s) ?i g = (if g = unat fb then b else inode_block (lh_disk s) (sv_i sv) g)"
    if "g < SFS_MAXBLOCKS" for g
    using that assms(5-7) c(7) by (auto simp: inode_block_def nth_list_update)
  then have "inode_ok ?s ?i"
    by (intro inode_ok_extend [OF assms(4,2)]) (use b c assms(4) in \<open>auto simp: block_ok_def inode_ok_def\<close>)
  then have "file_extended s p sv (unat fb) b ?s"
    unfolding file_extended_def using b c blocks ok assms(3)
    by (intro conjI exI [of _ ?sv]) auto
  ultimately show ?thesis
    by blast
qed

text \<open>
  C7: \<open>sfs_bmap\<close> reads the map of a file and extends it. For a block number below 143 it returns
  the disk block when there is one or when it may not allocate (0 for a hole) and changes nothing of the volume; when it
  may allocate and two blocks are free, a hole becomes a fresh block of zeros and no other block
  of the file changes, wherever the number is stored. From 143 on it returns \<open>EFBIG\<close>.
\<close>

theorem sfs_bmap_correct:
  assumes "hw_works (env_hw env)" "vol_ok s" "sfs_heap s p = Some sv" "inode_ok s (sv_i sv)"
    and "card (used s) + 1 < bitmap_size (sfs_freemap s)"
  shows "if unat fb \<ge> SFS_MAXBLOCKS then sfs_bmap env p fb doalloc s = Inr (Fail EFBIG, s)
    else if doalloc \<and> inode_block (lh_disk s) (sv_i sv) (unat fb) = 0
    then \<exists>b s'. sfs_bmap env p fb doalloc s = Inr (Done b, s') \<and> file_extended s p sv (unat fb) b s'
    else \<exists>s'. sfs_bmap env p fb doalloc s = Inr (Done (inode_block (lh_disk s) (sv_i sv) (unat fb)), s') \<and> calm s s'"
proof -
  consider (big) "unat fb \<ge> SFS_MAXBLOCKS" | (new) "unat fb < SFS_MAXBLOCKS" "doalloc" "inode_block (lh_disk s) (sv_i sv) (unat fb) = 0"
    | (old) "unat fb < SFS_MAXBLOCKS" "doalloc \<longrightarrow> inode_block (lh_disk s) (sv_i sv) (unat fb) \<noteq> 0"
    by linarith
  then show ?thesis
  proof cases
    case big
    then have "\<not> fb < of_nat SFS_NDIRECT" "(fb - of_nat SFS_NDIRECT) div of_nat SFS_DBPERIDB \<ge> SFS_NINDIRECT"
      by (simp_all add: word_less_nat_alt word_le_nat_alt unat_sub unat_div)
    then show ?thesis
      using big assms(3) by (simp add: sfs_bmap_def kop_simps Let_def)
  next
    case new
    then show ?thesis
      using sfs_bmap_alloc_direct [OF assms(1-4), of fb] sfs_bmap_alloc_indirect [OF assms(1-4), of fb]
        sfs_bmap_alloc_new_indirect [OF assms(1-4), of fb] assms(5)
      by (cases "unat fb < SFS_NDIRECT"; cases "sfi_indirect (sv_i sv) = 0") simp_all
  next
    case old
    then show ?thesis
      using sfs_bmap_lookup [OF assms(1-4) old] by auto
  qed
qed

lemma example_inode_ok: "inode_ok s example_inode"
proof -
  have "inode_block d example_inode g = 0" for d g
    by (simp add: inode_block_def example_inode_def)
  then show ?thesis
    by (simp add: inode_ok_def) (simp add: example_inode_def)
qed

theorem sfs_bmap_correct_witness:
  "\<exists>b s'. sfs_bmap example_sfs_env 1 20 True example_fs = Inr (Done b, s') \<and> unat b \<notin> {0, 1, 2, 3 :: nat} \<and> lh_disk s' b = zeros"
proof -
  have sv: "sfs_heap example_fs 1 = Some \<lparr>vn_refcount = 1, sv_i = example_inode, sv_ino = 1, sv_dirty = False\<rparr>"
    and "bitmap_size (sfs_freemap example_fs) = 8"
    by (simp_all add: example_fs_def)
  then show ?thesis
    using sfs_bmap_correct [OF example_env_works example_vol_ok sv, of 20 True] example_inode_ok [of example_fs]
    by (auto simp: example_used file_extended_def inode_block_def example_inode_def)
qed

end
