(* ===== verification/Sfs_Meta.thy ===== *)
theory Sfs_Meta
  imports Sfs_Bmap
begin

text \<open>
  Correctness of metadata I/O: a file as a sequence of bytes, holes read as zeros. \<open>sfs_metaio\<close> reads a piece of
  this sequence and replaces a piece of it.
\<close>

section \<open>The bytes of a file\<close>

abbreviation SFS_MAXBYTES :: nat where "SFS_MAXBYTES \<equiv> SFS_MAXBLOCKS * SFS_BLOCKSIZE"

definition file_byte :: "(u32 \<Rightarrow> u8 list) \<Rightarrow> sfs_dinode \<Rightarrow> nat \<Rightarrow> u8" where
  "file_byte d i off =
     (let b = inode_block d i (off div SFS_BLOCKSIZE) in if b = 0 then 0 else d b ! (off mod SFS_BLOCKSIZE))"

definition file_bytes :: "sfs_fs \<Rightarrow> sfs_dinode \<Rightarrow> nat \<Rightarrow> nat \<Rightarrow> u8 list" where
  "file_bytes s i pos len = map (file_byte (lh_disk s) i) [pos..<pos + len]"

lemma length_file_bytes [simp]: "length (file_bytes s i pos len) = len"
  by (simp add: file_bytes_def)

text \<open>What no operation on one file touches, and what no operation on a file's contents touches.\<close>

definition vol_frame :: "sfs_fs \<Rightarrow> sfs_fs \<Rightarrow> bool" where
  "vol_frame s s' \<longleftrightarrow> vol_ok s' \<and> used s \<subseteq> used s' \<and> sfs_sb s' = sfs_sb s \<and> sfs_vnodes s' = sfs_vnodes s \<and>
     vfs_biglock_depth s' = vfs_biglock_depth s \<and> sfs_fresh s' = sfs_fresh s \<and> mem_reqs s' = mem_reqs s"

definition vnode_frame :: "sfs_vnode \<Rightarrow> sfs_vnode \<Rightarrow> bool" where
  "vnode_frame sv sv' \<longleftrightarrow> sv_ino sv' = sv_ino sv \<and> vn_refcount sv' = vn_refcount sv \<and>
     sfi_type (sv_i sv') = sfi_type (sv_i sv) \<and> sfi_linkcount (sv_i sv') = sfi_linkcount (sv_i sv)"

lemma vol_frame_trans: "vol_frame s t \<Longrightarrow> vol_frame t u \<Longrightarrow> vol_frame s u"
  by (auto simp: vol_frame_def)

lemma calm_frame: "calm s t \<Longrightarrow> vol_ok s \<Longrightarrow> vol_frame s t"
  using calm_vol_ok calm_fields by (simp add: vol_frame_def)

text \<open>The blocks outside a file: in use, but neither a block of the file nor its indirect block.\<close>

definition outside :: "sfs_fs \<Rightarrow> sfs_dinode \<Rightarrow> u32 \<Rightarrow> bool" where
  "outside s i c \<longleftrightarrow> unat c \<in> used s \<and> c \<noteq> sfi_indirect i \<and> (\<forall>g<SFS_MAXBLOCKS. c \<noteq> inode_block (lh_disk s) i g)"

text \<open>Block \<open>fb\<close> of the file is there, or the volume has room for it and for a new indirect block.\<close>

definition room :: "sfs_fs \<Rightarrow> sfs_dinode \<Rightarrow> nat \<Rightarrow> bool" where
  "room s i fb \<longleftrightarrow> inode_block (lh_disk s) i fb \<noteq> 0 \<or> card (used s) + 1 < bitmap_size (sfs_freemap s)"

text \<open>
  After \<open>sfs_bmap\<close> with allocation: block \<open>fb\<close> is there, and the file reads as before, since a new
  block holds zeros like the hole it fills.
\<close>

lemma sfs_bmap_write:
  assumes "hw_works (env_hw env)" "vol_ok s" "sfs_heap s p = Some sv" "inode_ok s (sv_i sv)"
    and "room s (sv_i sv) (unat fb)" "unat fb < SFS_MAXBLOCKS"
  obtains b s' sv' where "sfs_bmap env p fb True s = Inr (Done b, s')" "b \<noteq> 0" "vol_frame s s'"
    "sfs_heap s' = (sfs_heap s)(p \<mapsto> sv')" "vnode_frame sv sv'" "sfi_size (sv_i sv') = sfi_size (sv_i sv)" "inode_ok s' (sv_i sv')"
    "inode_block (lh_disk s') (sv_i sv') (unat fb) = b"
    "\<And>off. off < SFS_MAXBYTES \<Longrightarrow> file_byte (lh_disk s') (sv_i sv') off = file_byte (lh_disk s) (sv_i sv) off"
    "\<And>c. outside s (sv_i sv) c \<Longrightarrow> lh_disk s' c = lh_disk s c \<and> outside s' (sv_i sv') c"
proof (cases "inode_block (lh_disk s) (sv_i sv) (unat fb) = 0")
  case False
  then obtain s' where s': "sfs_bmap env p fb True s = Inr (Done (inode_block (lh_disk s) (sv_i sv) (unat fb)), s')" "calm s s'"
    using sfs_bmap_lookup [OF assms(1-4,6), of True] by auto
  show thesis
    by (rule that [of _ s' sv])
      (use s' False assms calm_fields [OF s'(2)] calm_inode_ok [OF s'(2)] calm_frame [OF s'(2)] in
        \<open>auto simp: vnode_frame_def outside_def fun_upd_idem\<close>)
next
  case True
  then obtain b s' where b: "sfs_bmap env p fb True s = Inr (Done b, s')" and ext: "file_extended s p sv (unat fb) b s'"
    using sfs_bmap_alloc_direct [OF assms(1-4)] sfs_bmap_alloc_indirect [OF assms(1-4) _ assms(6)]
      sfs_bmap_alloc_new_indirect [OF assms(1-4) _ assms(6)] assms(5) unfolding room_def by (metis add_lessD1)
  then obtain sv' where sv': "sfs_heap s' = (sfs_heap s)(p \<mapsto> sv')" "inode_ok s' (sv_i sv')" "vnode_frame sv sv'"
      "sfi_size (sv_i sv') = sfi_size (sv_i sv)" "sfi_indirect (sv_i sv') = sfi_indirect (sv_i sv) \<or> unat (sfi_indirect (sv_i sv')) \<notin> used s"
      and blocks: "\<And>g. g < SFS_MAXBLOCKS \<Longrightarrow> inode_block (lh_disk s') (sv_i sv') g =
        (if g = unat fb then b else inode_block (lh_disk s) (sv_i sv) g)"
    unfolding file_extended_def vnode_frame_def by auto
  have keep: "lh_disk s' c = lh_disk s c" if "unat c \<in> used s" "c \<noteq> sfi_indirect (sv_i sv)" for c
    using that ext by (simp add: file_extended_def)
  have new: "unat b \<notin> used s" "lh_disk s' b = zeros" and frame: "vol_frame s s'"
    using ext by (simp_all add: file_extended_def vol_frame_def)
  then have "b \<noteq> 0"
    using vol_okD(3) [OF assms(2)] by auto
  have bytes: "file_byte (lh_disk s') (sv_i sv') off = file_byte (lh_disk s) (sv_i sv) off" if "off < SFS_MAXBYTES" for off
  proof -
    have g: "off div SFS_BLOCKSIZE < SFS_MAXBLOCKS"
      using that by (simp add: less_mult_imp_div_less)
    have "inode_block (lh_disk s) (sv_i sv) (off div SFS_BLOCKSIZE) \<noteq> 0 \<Longrightarrow>
        unat (inode_block (lh_disk s) (sv_i sv) (off div SFS_BLOCKSIZE)) \<in> used s \<and>
        inode_block (lh_disk s) (sv_i sv) (off div SFS_BLOCKSIZE) \<noteq> sfi_indirect (sv_i sv)"
      using g assms(4) by (auto simp: inode_ok_def block_ok_def)
    then show ?thesis
      using blocks [OF g] keep new(2) True by (auto simp: file_byte_def Let_def)
  qed
  have "lh_disk s' c = lh_disk s c \<and> outside s' (sv_i sv') c" if "outside s (sv_i sv) c" for c
  proof -
    have "c \<noteq> sfi_indirect (sv_i sv')"
      using that sv'(5) by (auto simp: outside_def)
    then show ?thesis
      using that keep blocks new(1) frame by (auto simp: outside_def vol_frame_def)
  qed
  then show thesis
    using that [OF b \<open>b \<noteq> 0\<close> frame sv'(1,3,4,2)] blocks [OF assms(6)] bytes by auto
qed

section \<open>Reading and writing a piece\<close>

text \<open>A piece of a file that lies in one block.\<close>

definition in_block :: "nat \<Rightarrow> nat \<Rightarrow> bool" where
  "in_block pos len \<longleftrightarrow> pos mod SFS_BLOCKSIZE + len \<le> SFS_BLOCKSIZE \<and> pos < SFS_MAXBYTES"

lemma block_position:
  assumes "pos < SFS_MAXBYTES"
  shows "unat (of_int (int pos sdiv int SFS_BLOCKSIZE) :: u32) = pos div SFS_BLOCKSIZE" "pos div SFS_BLOCKSIZE < SFS_MAXBLOCKS"
    "nat (int pos smod int SFS_BLOCKSIZE) = pos mod SFS_BLOCKSIZE"
proof -
  have "int pos sdiv int SFS_BLOCKSIZE = int (pos div SFS_BLOCKSIZE)"
    by (simp add: sdiv_nonneg zdiv_int del: of_nat_numeral)
  then have "of_int (int pos sdiv int SFS_BLOCKSIZE) = (of_nat (pos div SFS_BLOCKSIZE) :: u32)"
    by simp
  then show "unat (of_int (int pos sdiv int SFS_BLOCKSIZE) :: u32) = pos div SFS_BLOCKSIZE"
    using assms by (simp add: unat_of_nat)
  show "pos div SFS_BLOCKSIZE < SFS_MAXBLOCKS"
    using assms by (simp add: less_mult_imp_div_less)
  show "nat (int pos smod int SFS_BLOCKSIZE) = pos mod SFS_BLOCKSIZE"
    by (simp add: smod_nonneg zmod_int [symmetric] del: of_nat_numeral)
qed

lemma in_block_same:
  assumes "in_block pos len" "off < len"
  shows "(pos + off) div SFS_BLOCKSIZE = pos div SFS_BLOCKSIZE" "(pos + off) mod SFS_BLOCKSIZE = pos mod SFS_BLOCKSIZE + off"
proof -
  have "pos mod SFS_BLOCKSIZE + off < SFS_BLOCKSIZE"
    using assms by (simp add: in_block_def)
  moreover have "pos + off = pos div SFS_BLOCKSIZE * SFS_BLOCKSIZE + (pos mod SFS_BLOCKSIZE + off)"
    by simp
  ultimately show "(pos + off) div SFS_BLOCKSIZE = pos div SFS_BLOCKSIZE" "(pos + off) mod SFS_BLOCKSIZE = pos mod SFS_BLOCKSIZE + off"
    by (metis div_less div_mult_self3 add.right_neutral add.commute zero_neq_numeral, metis mod_less mod_mult_self3)
qed

lemma file_bytes_in_block:
  assumes "in_block pos len" "length (d b) = SFS_BLOCKSIZE" "b = inode_block d i (pos div SFS_BLOCKSIZE)"
  shows "map (file_byte d i) [pos..<pos + len] =
    (if b = 0 then replicate len 0 else take len (drop (pos mod SFS_BLOCKSIZE) (d b)))"
proof (rule nth_equalityI)
  show "length (map (file_byte d i) [pos..<pos + len]) =
      length (if b = 0 then replicate len 0 else take len (drop (pos mod SFS_BLOCKSIZE) (d b)))"
    using assms(1,2) by (auto simp: in_block_def)
  fix k assume "k < length (map (file_byte d i) [pos..<pos + len])"
  then show "map (file_byte d i) [pos..<pos + len] ! k =
      (if b = 0 then replicate len 0 else take len (drop (pos mod SFS_BLOCKSIZE) (d b))) ! k"
    using assms in_block_same [OF assms(1), of k] by (simp add: file_byte_def Let_def in_block_def)
qed

lemma sfs_metaio_read:
  assumes "hw_works (env_hw env)" "vol_ok s" "sfs_heap s p = Some sv" "inode_ok s (sv_i sv)" "in_block pos (length buf)"
  shows "\<exists>s'. sfs_metaio env p (int pos) buf UIO_READ s = Inr (Done (file_bytes s (sv_i sv) pos (length buf)), s') \<and> calm s s'"
proof -
  let ?fb = "of_int (int pos sdiv int SFS_BLOCKSIZE) :: u32" and ?b = "inode_block (lh_disk s) (sv_i sv) (pos div SFS_BLOCKSIZE)"
  have pos: "pos < SFS_MAXBYTES"
    using assms(5) by (simp add: in_block_def)
  note bp = block_position [OF pos]
  obtain t where t: "sfs_bmap env p ?fb False s = Inr (Done ?b, t)" and calm: "calm s t"
    using sfs_bmap_lookup [OF assms(1-4), of ?fb False] bp by auto
  have bytes: "file_bytes s (sv_i sv) pos (length buf) =
      (if ?b = 0 then replicate (length buf) 0 else take (length buf) (drop (pos mod SFS_BLOCKSIZE) (lh_disk s ?b)))"
    unfolding file_bytes_def using file_bytes_in_block [OF assms(5) vol_okD(7) [OF assms(2)] refl] .
  show ?thesis
  proof (cases "?b = 0")
    case True
    then show ?thesis
      using t calm bytes by (intro exI [of _ t]) (simp add: sfs_metaio_def kop_simps Let_def)
  next
    case False
    then have "?b < nblocks t"
      using assms(4) bp(2) calm_fields [OF calm] by (simp add: inode_ok_def block_ok_def)
    then obtain u where u: "sfs_readblock env ?b t = Inr (Done (lh_disk t ?b), u)" and calm': "calm t u"
      using readblock_calm [OF assms(1) calm_vol_ok [OF calm assms(2)]] by blast
    moreover have "pos mod SFS_BLOCKSIZE + length buf \<le> SFS_BLOCKSIZE"
      using assms(5) by (simp add: in_block_def)
    ultimately show ?thesis
      using False t bytes bp(3) calm_fields [OF calm] calm_trans [OF calm calm']
      by (intro exI [of _ u]) (simp add: sfs_metaio_def kop_simps Let_def)
  qed
qed

text \<open>
  After a write of \<open>data\<close> at \<open>pos\<close>: the bytes there are the data, all others are as before, and the
  size grows when the piece ends past it.
\<close>

definition file_written :: "sfs_fs \<Rightarrow> nat \<Rightarrow> sfs_vnode \<Rightarrow> nat \<Rightarrow> u8 list \<Rightarrow> sfs_fs \<Rightarrow> bool" where
  "file_written s p sv pos data s' \<longleftrightarrow> vol_frame s s' \<and>
     (\<exists>sv'. sfs_heap s' = (sfs_heap s)(p \<mapsto> sv') \<and> vnode_frame sv sv' \<and> inode_ok s' (sv_i sv') \<and>
        unat (sfi_size (sv_i sv')) = max (unat (sfi_size (sv_i sv))) (pos + length data) \<and>
        (\<forall>off<SFS_MAXBYTES. file_byte (lh_disk s') (sv_i sv') off =
           (if pos \<le> off \<and> off < pos + length data then data ! (off - pos) else file_byte (lh_disk s) (sv_i sv) off)) \<and>
        (\<forall>c. outside s (sv_i sv) c \<longrightarrow> lh_disk s' c = lh_disk s c \<and> outside s' (sv_i sv') c))"

text \<open>Overwriting part of one block of a file.\<close>

lemma overwrite_block:
  assumes "inode_ok s i" "in_block pos (length data)" "b = inode_block (lh_disk s) i (pos div SFS_BLOCKSIZE)" "b \<noteq> 0"
    and "length (lh_disk s b) = SFS_BLOCKSIZE" "lh_disk s' = (lh_disk s)(b :=
      take (pos mod SFS_BLOCKSIZE) (lh_disk s b) @ data @ drop (pos mod SFS_BLOCKSIZE + length data) (lh_disk s b))"
  shows "g < SFS_MAXBLOCKS \<Longrightarrow> inode_block (lh_disk s') i g = inode_block (lh_disk s) i g"
    and "off < SFS_MAXBYTES \<Longrightarrow> file_byte (lh_disk s') i off =
      (if pos \<le> off \<and> off < pos + length data then data ! (off - pos) else file_byte (lh_disk s) i off)"
proof -
  have fb: "pos div SFS_BLOCKSIZE < SFS_MAXBLOCKS"
    using assms(2) block_position(2) by (simp add: in_block_def)
  then have "b \<noteq> sfi_indirect i"
    using assms(1,3,4) by (auto simp: inode_ok_def)
  then show blocks: "inode_block (lh_disk s') i g = inode_block (lh_disk s) i g" for g
    using assms(6) by (simp add: inode_block_def)
  assume off: "off < SFS_MAXBYTES"
  have g: "off div SFS_BLOCKSIZE < SFS_MAXBLOCKS"
    using off by (rule block_position(2))
  have inj: "inode_block (lh_disk s) i (off div SFS_BLOCKSIZE) = b \<longleftrightarrow> off div SFS_BLOCKSIZE = pos div SFS_BLOCKSIZE"
    using assms(1,3,4) fb g unfolding inode_ok_def by metis
  show "file_byte (lh_disk s') i off =
      (if pos \<le> off \<and> off < pos + length data then data ! (off - pos) else file_byte (lh_disk s) i off)"
  proof (cases "pos \<le> off \<and> off < pos + length data")
    case True
    then obtain k where k: "off = pos + k" "k < length data"
      by (metis add_less_cancel_left le_Suc_ex)
    then show ?thesis
      using in_block_same [OF assms(2) k(2)] assms(2-6) blocks
      by (simp add: file_byte_def Let_def in_block_def nth_append)
  next
    case False
    have "(take (pos mod SFS_BLOCKSIZE) (lh_disk s b) @ data @ drop (pos mod SFS_BLOCKSIZE + length data) (lh_disk s b)) ! (off mod SFS_BLOCKSIZE) =
        lh_disk s b ! (off mod SFS_BLOCKSIZE)" if same: "off div SFS_BLOCKSIZE = pos div SFS_BLOCKSIZE"
    proof -
      have "pos = SFS_BLOCKSIZE * (pos div SFS_BLOCKSIZE) + pos mod SFS_BLOCKSIZE" "off = SFS_BLOCKSIZE * (pos div SFS_BLOCKSIZE) + off mod SFS_BLOCKSIZE"
        using same mult_div_mod_eq [of SFS_BLOCKSIZE off] by simp_all
      then have "off mod SFS_BLOCKSIZE < pos mod SFS_BLOCKSIZE \<or> pos mod SFS_BLOCKSIZE + length data \<le> off mod SFS_BLOCKSIZE"
        using False by linarith
      then show ?thesis
        using assms(2,5) by (auto simp: nth_append in_block_def)
    qed
    then show ?thesis
      using False inj assms(4,6) unfolding file_byte_def Let_def blocks by auto
  qed
qed

lemma inode_ok_same_blocks:
  assumes "inode_ok s i" "used s' = used s" "nblocks s' = nblocks s" "sfi_direct i' = sfi_direct i" "sfi_indirect i' = sfi_indirect i"
    and "\<And>g. g < SFS_MAXBLOCKS \<Longrightarrow> inode_block (lh_disk s') i' g = inode_block (lh_disk s) i g"
  shows "inode_ok s' i'"
  using assms unfolding inode_ok_def block_ok_def by metis

text \<open>The update of the size at the end of a write.\<close>

definition grown :: "nat \<Rightarrow> sfs_vnode \<Rightarrow> sfs_vnode" where
  "grown endpos sv = (if unat (sfi_size (sv_i sv)) < endpos then sv\<lparr>sv_i := (sv_i sv)\<lparr>sfi_size := of_nat endpos\<rparr>, sv_dirty := True\<rparr> else sv)"

lemma inode_size_irrelevant [simp]:
  "inode_block d (i\<lparr>sfi_size := x\<rparr>) = inode_block d i" "file_byte d (i\<lparr>sfi_size := x\<rparr>) = file_byte d i"
proof -
  show "inode_block d (i\<lparr>sfi_size := x\<rparr>) = inode_block d i"
    by (rule ext) (simp add: inode_block_def)
  then show "file_byte d (i\<lparr>sfi_size := x\<rparr>) = file_byte d i"
    by (intro ext) (simp add: file_byte_def)
qed

lemma grown_fields [simp]:
  "sv_ino (grown n sv) = sv_ino sv" "vn_refcount (grown n sv) = vn_refcount sv" "sfi_type (sv_i (grown n sv)) = sfi_type (sv_i sv)"
  "sfi_linkcount (sv_i (grown n sv)) = sfi_linkcount (sv_i sv)" "sfi_direct (sv_i (grown n sv)) = sfi_direct (sv_i sv)"
  "sfi_indirect (sv_i (grown n sv)) = sfi_indirect (sv_i sv)" "inode_block d (sv_i (grown n sv)) = inode_block d (sv_i sv)"
  "file_byte d (sv_i (grown n sv)) = file_byte d (sv_i sv)"
  "n < 2 ^ 32 \<Longrightarrow> unat (sfi_size (sv_i (grown n sv))) = max (unat (sfi_size (sv_i sv))) n"
  by (simp_all add: grown_def max_def)

lemma heap_idem: "sfs_heap w = h \<Longrightarrow> w\<lparr>sfs_heap := h\<rparr> = w"
  by (cases w) simp

lemma uint_less_iff: "uint (w :: u32) < int n \<longleftrightarrow> unat w < n"
  by (metis nat_less_iff unat_eq_nat_uint unsigned_greater_eq)

lemma sfs_metaio_write:
  assumes "hw_works (env_hw env)" "vol_ok s" "sfs_heap s p = Some sv" "inode_ok s (sv_i sv)" "in_block pos (length data)"
    and "room s (sv_i sv) (pos div SFS_BLOCKSIZE)"
  shows "\<exists>s'. sfs_metaio env p (int pos) data UIO_WRITE s = Inr (Done data, s') \<and> file_written s p sv pos data s'"
proof -
  let ?fb = "of_int (int pos sdiv int SFS_BLOCKSIZE) :: u32"
  have pos: "pos < SFS_MAXBYTES" "pos mod SFS_BLOCKSIZE + length data \<le> SFS_BLOCKSIZE"
    using assms(5) by (simp_all add: in_block_def)
  note bp = block_position [OF pos(1)]
  have "room s (sv_i sv) (unat ?fb)" "unat ?fb < SFS_MAXBLOCKS"
    using bp assms(6) by simp_all
  from sfs_bmap_write [OF assms(1-4) this]
  obtain b t tv where t: "sfs_bmap env p ?fb True s = Inr (Done b, t)" "b \<noteq> 0" and frame: "vol_frame s t"
    and heap: "sfs_heap t = (sfs_heap s)(p \<mapsto> tv)" and vf: "vnode_frame sv tv" and size: "sfi_size (sv_i tv) = sfi_size (sv_i sv)"
    and ok: "inode_ok t (sv_i tv)" and b: "inode_block (lh_disk t) (sv_i tv) (unat ?fb) = b"
    and bytes: "\<And>off. off < SFS_MAXBYTES \<Longrightarrow> file_byte (lh_disk t) (sv_i tv) off = file_byte (lh_disk s) (sv_i sv) off"
    and out: "\<And>c. outside s (sv_i sv) c \<Longrightarrow> lh_disk t c = lh_disk s c \<and> outside t (sv_i tv) c"
    by blast
  have vt: "vol_ok t"
    using frame by (simp add: vol_frame_def)
  have b': "b = inode_block (lh_disk t) (sv_i tv) (pos div SFS_BLOCKSIZE)" "b < nblocks t"
    using b bp ok t(2) by (auto simp: inode_ok_def block_ok_def)
  obtain u where u: "sfs_readblock env b t = Inr (Done (lh_disk t b), u)" and calm: "calm t u"
    using readblock_calm [OF assms(1) vt b'(2)] by blast
  note cf = calm_fields [OF calm]
  let ?data = "take (pos mod SFS_BLOCKSIZE) (lh_disk t b) @ data @ drop (pos mod SFS_BLOCKSIZE + length data) (lh_disk t b)"
  let ?w = "id_written b ?data u" and ?sv = "grown (pos + length data) tv"
  let ?s = "?w\<lparr>sfs_heap := (sfs_heap s)(p \<mapsto> ?sv)\<rparr>"
  have len: "length ?data = 512"
    using pos(2) vol_okD(7) [OF vt, of b] by simp
  have w: "sfs_writeblock env b ?data u = Inr (Done (), ?w)" "vol_ok ?w"
    using writeblock_id [OF assms(1) calm_vol_ok [OF calm vt] _ len] id_written_vol_ok [OF calm_vol_ok [OF calm vt] len] b'(2) cf by simp_all
  have small: "pos + length data < 2 ^ 32"
    using pos by (simp add: le_less_trans)
  have idem: "?w\<lparr>sfs_heap := (sfs_heap s)(p \<mapsto> tv)\<rparr> = ?w"
    by (rule heap_idem) (simp add: heap cf)
  have grow: "uint (sfi_size (sv_i tv)) < int pos + int (length data) \<longleftrightarrow> unat (sfi_size (sv_i tv)) < pos + length data"
    using uint_less_iff [of "sfi_size (sv_i tv)" "pos + length data"] by simp
  have hw: "sfs_heap ?w = (sfs_heap s)(p \<mapsto> tv)"
    by (simp add: heap cf)
  have run: "sfs_metaio env p (int pos) data UIO_WRITE s = Inr (Done data, ?s)"
  proof (cases "unat (sfi_size (sv_i tv)) < pos + length data")
    case True
    then show ?thesis
      using t u w(1) pos(2) bp(3) hw grow by (simp add: sfs_metaio_def kop_simps Let_def grown_def)
  next
    case False
    then show ?thesis
      using t u w(1) pos(2) bp(3) hw grow idem by (simp add: sfs_metaio_def kop_simps Let_def grown_def)
  qed
  have over: "g < SFS_MAXBLOCKS \<Longrightarrow> inode_block (lh_disk ?s) (sv_i tv) g = inode_block (lh_disk t) (sv_i tv) g"
    "off < SFS_MAXBYTES \<Longrightarrow> file_byte (lh_disk ?s) (sv_i tv) off =
      (if pos \<le> off \<and> off < pos + length data then data ! (off - pos) else file_byte (lh_disk t) (sv_i tv) off)" for g off
    using overwrite_block [OF ok assms(5) b'(1) t(2) vol_okD(7) [OF vt], of ?s] cf by simp_all
  moreover have "inode_ok ?s (sv_i ?sv)"
    by (rule inode_ok_same_blocks [OF ok]) (use cf over(1) in simp_all)
  moreover have "outside ?s (sv_i ?sv) c \<and> lh_disk ?s c = lh_disk s c" if "outside s (sv_i sv) c" for c
  proof -
    have "c \<noteq> b"
      using out [OF that] b' bp(2) by (auto simp: outside_def)
    then show ?thesis
      using out [OF that] over(1) cf by (simp add: outside_def)
  qed
  ultimately have "file_written s p sv pos data ?s"
    unfolding file_written_def using frame vf size bytes cf w(2) small
    by (intro conjI exI [of _ ?sv]) (auto simp: vol_frame_def vnode_frame_def)
  then show ?thesis
    using run by blast
qed

text \<open>
  C5: \<open>sfs_metaio\<close> works on the bytes of a file. A read of a piece inside one block returns these
  bytes, zeros where the file has a hole, and changes nothing; a write, when its block is there or two blocks are free, replaces exactly the bytes
  of the piece, keeps every other byte of the file and all blocks outside it, extends the size to the
  end of the piece if needed, and leaves a well-formed file and volume.
\<close>

theorem sfs_metaio_correct:
  assumes "hw_works (env_hw env)" "vol_ok s" "sfs_heap s p = Some sv" "inode_ok s (sv_i sv)" "in_block pos (length data)"
    and "room s (sv_i sv) (pos div SFS_BLOCKSIZE)"
  shows "(\<exists>s'. sfs_metaio env p (int pos) data UIO_READ s = Inr (Done (file_bytes s (sv_i sv) pos (length data)), s') \<and> calm s s') \<and>
    (\<exists>s'. sfs_metaio env p (int pos) data UIO_WRITE s = Inr (Done data, s') \<and> file_written s p sv pos data s')"
  using sfs_metaio_read [OF assms(1-5)] sfs_metaio_write [OF assms] by blast

theorem sfs_metaio_correct_witness:
  "\<exists>s'. sfs_metaio example_sfs_env 1 8000 [1, 2, 3] UIO_WRITE example_fs = Inr (Done [1, 2, 3], s') \<and>
     file_written example_fs 1 \<lparr>vn_refcount = 1, sv_i = example_inode, sv_ino = 1, sv_dirty = False\<rparr> 8000 [1, 2, 3] s'"
proof -
  have sv: "sfs_heap example_fs 1 = Some \<lparr>vn_refcount = 1, sv_i = example_inode, sv_ino = 1, sv_dirty = False\<rparr>"
    and "room example_fs example_inode 15" "in_block 8000 (length [1, 2, 3 :: u8])"
    unfolding example_used room_def by (simp_all add: example_fs_def in_block_def)
  then show ?thesis
    using sfs_metaio_correct [OF example_env_works example_vol_ok sv, of 8000 "[1, 2, 3]"] example_inode_ok [of example_fs] by simp
qed

end
