(* ===== verification/Sfs_Dir_Correct.thy ===== *)
theory Sfs_Dir_Correct
  imports Sfs_Dir Sfs_Meta
begin

text \<open>
  Correctness of directories: a directory file is a list of entries, and the entries stand for a map
  from names to inode numbers. Looking a name up is the application of this map, linking and
  unlinking are its updates.
\<close>

section \<open>Entries\<close>

lemma decode_encode_direntry: "length (sfd_name e) = SFS_NAMELEN \<Longrightarrow> decode_direntry (encode_direntry e) = e"
proof -
  assume len: "length (sfd_name e) = SFS_NAMELEN"
  have "be32 (put32 (sfd_ino e) @ sfd_name e) 0 = sfd_ino e"
    using be32_at [of 0 "[]" "sfd_ino e"] by simp
  then show ?thesis
    using len by (simp add: decode_direntry_def encode_direntry_def)
qed

lemma length_encode_direntry: "length (sfd_name e) = SFS_NAMELEN \<Longrightarrow> length (encode_direntry e) = DIRENT_SIZE"
  by (simp add: encode_direntry_def)

definition entry_name :: "sfs_direntry \<Rightarrow> u8 list" where
  "entry_name e = cstring (take (SFS_NAMELEN - 1) (sfd_name e))"

text \<open>A name the file system can store: no terminator inside, and room for one after it.\<close>

definition name_ok :: "u8 list \<Rightarrow> bool" where
  "name_ok name \<longleftrightarrow> 0 \<notin> set name \<and> length name < SFS_NAMELEN"

lemma entry_name_buffer:
  assumes "name_ok name"
  shows "entry_name \<lparr>sfd_ino = ino, sfd_name = name_buffer name\<rparr> = name" "length (name_buffer name) = SFS_NAMELEN"
proof -
  have "takeWhile (\<lambda>c. c \<noteq> 0) (name @ replicate k 0) = name" for k
  proof -
    have "\<forall>c\<in>set name. c \<noteq> 0"
      using assms by (auto simp: name_ok_def)
    then show ?thesis
      by (cases k) (simp_all add: takeWhile_append2)
  qed
  then show "entry_name \<lparr>sfd_ino = ino, sfd_name = name_buffer name\<rparr> = name"
    using assms by (simp add: entry_name_def cstring_def name_buffer_def name_ok_def)
  show "length (name_buffer name) = SFS_NAMELEN"
    using assms by (simp add: name_buffer_def name_ok_def)
qed

section \<open>Directories as maps\<close>

definition dir_entries :: "sfs_fs \<Rightarrow> sfs_dinode \<Rightarrow> sfs_direntry list" where
  "dir_entries s i = map (\<lambda>k. decode_direntry (file_bytes s i (k * DIRENT_SIZE) DIRENT_SIZE)) [0..<unat (sfi_size i) div DIRENT_SIZE]"

definition has_name :: "sfs_direntry list \<Rightarrow> u8 list \<Rightarrow> nat \<Rightarrow> bool" where
  "has_name es name k \<longleftrightarrow> sfd_ino (es ! k) \<noteq> SFS_NOINO \<and> entry_name (es ! k) = name"

definition dir_slot :: "sfs_direntry list \<Rightarrow> u8 list \<Rightarrow> nat option" where
  "dir_slot es name = find (has_name es name) [0..<length es]"

definition dir_map :: "sfs_direntry list \<Rightarrow> u8 list \<Rightarrow> u32 option" where
  "dir_map es name = map_option (\<lambda>k. sfd_ino (es ! k)) (dir_slot es name)"

text \<open>No name appears twice.\<close>

definition unique_names :: "sfs_direntry list \<Rightarrow> bool" where
  "unique_names es \<longleftrightarrow> (\<forall>name. \<forall>j<length es. \<forall>k<length es. has_name es name j \<and> has_name es name k \<longrightarrow> j = k)"

lemma dir_slot_iff:
  assumes "unique_names es"
  shows "dir_slot es name = Some k \<longleftrightarrow> k < length es \<and> has_name es name k"
  using assms unfolding dir_slot_def find_upt_Some_iff unique_names_def by (metis less_trans nat_less_le)

lemma dir_slot_None: "dir_slot es name = None \<longleftrightarrow> (\<forall>k<length es. \<not> has_name es name k)"
  unfolding dir_slot_def find_upt_None_iff ..

text \<open>Overwriting an empty slot, appending an entry, and erasing an entry.\<close>

lemma has_name_update:
  "k < length es \<Longrightarrow> j < length es \<Longrightarrow> has_name (es[k := e]) name j \<longleftrightarrow>
     (if j = k then sfd_ino e \<noteq> SFS_NOINO \<and> entry_name e = name else has_name es name j)"
  by (simp add: has_name_def)

lemma dir_update:
  assumes "unique_names es" "k < length es"
    and new: "sfd_ino e = SFS_NOINO \<or> dir_slot es (entry_name e) = None"
  shows "unique_names (es[k := e])"
    and "dir_map (es[k := e]) name =
      (if sfd_ino e \<noteq> SFS_NOINO \<and> name = entry_name e then Some (sfd_ino e)
       else if has_name es name k then None else dir_map es name)"
proof -
  show u: "unique_names (es[k := e])"
    using assms(1,2) new unfolding unique_names_def dir_slot_None by (auto simp: has_name_update)
  show "dir_map (es[k := e]) name =
      (if sfd_ino e \<noteq> SFS_NOINO \<and> name = entry_name e then Some (sfd_ino e)
       else if has_name es name k then None else dir_map es name)"
  proof (cases "sfd_ino e \<noteq> SFS_NOINO \<and> name = entry_name e")
    case True
    then have "dir_slot (es[k := e]) name = Some k"
      using assms(2) by (simp add: dir_slot_iff [OF u] has_name_update)
    then show ?thesis
      using True assms(2) by (simp add: dir_map_def)
  next
    case other: False
    show ?thesis
    proof (cases "has_name es name k")
      case True
      then have "dir_slot (es[k := e]) name = None"
        using assms(1,2) other unfolding dir_slot_None unique_names_def by (auto simp: has_name_update)
      then show ?thesis
        using True other by (simp add: dir_map_def)
    next
      case False
      have "dir_slot (es[k := e]) name = Some j \<longleftrightarrow> dir_slot es name = Some j" for j
        unfolding dir_slot_iff [OF u] dir_slot_iff [OF assms(1)] using assms(2) False other by (auto simp: has_name_update split: if_splits)
      then have "dir_slot (es[k := e]) name = dir_slot es name"
        by (metis not_Some_eq)
      moreover have "dir_slot es name = Some j \<Longrightarrow> j \<noteq> k" for j
        using False by (auto simp: dir_slot_iff [OF assms(1)])
      ultimately show ?thesis
        using other False by (cases "dir_slot es name") (auto simp: dir_map_def)
    qed
  qed
qed

lemma has_name_append:
  "j < length es \<Longrightarrow> has_name (es @ [e]) name j = has_name es name j"
  "has_name (es @ [e]) name (length es) \<longleftrightarrow> sfd_ino e \<noteq> SFS_NOINO \<and> entry_name e = name"
  by (simp_all add: has_name_def nth_append)

lemma dir_append:
  assumes "unique_names es" "sfd_ino e \<noteq> SFS_NOINO" "dir_slot es (entry_name e) = None"
  shows "unique_names (es @ [e])" "dir_map (es @ [e]) = (dir_map es)(entry_name e \<mapsto> sfd_ino e)"
proof -
  show u: "unique_names (es @ [e])"
    using assms unfolding unique_names_def dir_slot_None by (auto simp: has_name_append less_Suc_eq)
  show "dir_map (es @ [e]) = (dir_map es)(entry_name e \<mapsto> sfd_ino e)"
  proof (rule ext)
    fix name
    show "dir_map (es @ [e]) name = ((dir_map es)(entry_name e \<mapsto> sfd_ino e)) name"
    proof (cases "name = entry_name e")
      case True
      then have "dir_slot (es @ [e]) name = Some (length es)"
        using assms(2) by (simp add: dir_slot_iff [OF u] has_name_append)
      then show ?thesis
        using True by (simp add: dir_map_def)
    next
      case False
      then have "dir_slot (es @ [e]) name = Some j \<longleftrightarrow> dir_slot es name = Some j" for j
        unfolding dir_slot_iff [OF u] dir_slot_iff [OF assms(1)] by (auto simp: has_name_append less_Suc_eq)
      then have "dir_slot (es @ [e]) name = dir_slot es name"
        by (metis not_Some_eq)
      moreover have "dir_slot es name = Some j \<Longrightarrow> j < length es" for j
        by (simp add: dir_slot_iff [OF assms(1)])
      ultimately show ?thesis
        using False by (cases "dir_slot es name") (simp_all add: dir_map_def nth_append)
    qed
  qed
qed

section \<open>Looking names up\<close>

text \<open>A directory in memory.\<close>

definition dir_ok :: "sfs_fs \<Rightarrow> sfs_vnode \<Rightarrow> bool" where
  "dir_ok s sv \<longleftrightarrow> inode_ok s (sv_i sv) \<and> sfi_type (sv_i sv) = SFS_TYPE_DIR \<and>
     unat (sfi_size (sv_i sv)) mod DIRENT_SIZE = 0 \<and> unat (sfi_size (sv_i sv)) \<le> SFS_MAXBYTES \<and>
     unique_names (dir_entries s (sv_i sv))"

lemma length_dir_entries [simp]: "length (dir_entries s i) = unat (sfi_size i) div DIRENT_SIZE"
  by (simp add: dir_entries_def)

lemma slot_below: "k < n div DIRENT_SIZE \<Longrightarrow> k * DIRENT_SIZE + DIRENT_SIZE \<le> n"
  using less_eq_div_iff_mult_less_eq [of DIRENT_SIZE "Suc k" n] by simp

lemma slot_in_block: "k * DIRENT_SIZE < SFS_MAXBYTES \<Longrightarrow> in_block (k * DIRENT_SIZE) DIRENT_SIZE"
proof -
  have "k * 64 mod 512 = (k mod 8) * 64"
    using mult_mod_left [of k 64 8] mod_mult_mult2 [of k 64 8] by simp
  moreover have "k mod 8 < 8"
    by simp
  ultimately show "k * DIRENT_SIZE < SFS_MAXBYTES \<Longrightarrow> in_block (k * DIRENT_SIZE) DIRENT_SIZE"
    unfolding in_block_def by linarith
qed

lemma sfs_readdir_spec:
  assumes "hw_works (env_hw env)" "vol_ok s" "sfs_heap s p = Some sv" "dir_ok s sv" "k < length (dir_entries s (sv_i sv))"
  shows "\<exists>s'. sfs_readdir env p k s = Inr (Done (dir_entries s (sv_i sv) ! k), s') \<and> calm s s'"
proof -
  have "k * DIRENT_SIZE + DIRENT_SIZE \<le> unat (sfi_size (sv_i sv))"
    using assms(5) slot_below by simp
  then have "k * DIRENT_SIZE < SFS_MAXBYTES"
    using assms(4) by (simp add: dir_ok_def)
  then have "in_block (k * DIRENT_SIZE) (length (replicate DIRENT_SIZE (0 :: u8)))"
    using slot_in_block by simp
  then obtain s' where "sfs_metaio env p (int (k * DIRENT_SIZE)) (replicate DIRENT_SIZE 0) UIO_READ s =
      Inr (Done (file_bytes s (sv_i sv) (k * DIRENT_SIZE) DIRENT_SIZE), s')" "calm s s'"
    using sfs_metaio_read [OF assms(1-3), of "k * DIRENT_SIZE" "replicate DIRENT_SIZE 0"] assms(4) by (auto simp: dir_ok_def)
  then show ?thesis
    using assms(5) by (intro exI [of _ s']) (simp add: sfs_readdir_def kop_simps dir_entries_def del: of_nat_mult)
qed

lemma calm_dir:
  assumes "calm s t"
  shows "dir_entries t i = dir_entries s i" "dir_ok t sv = dir_ok s sv"
  using calm_fields [OF assms] calm_inode_ok [OF assms]
  by (simp_all add: dir_ok_def dir_entries_def file_bytes_def)

text \<open>The search loop: after \<open>n\<close> slots it knows the name and the last empty slot among them.\<close>

abbreviation empty_slot :: "sfs_direntry list \<Rightarrow> nat \<Rightarrow> bool" where
  "empty_slot es k \<equiv> sfd_ino (es ! k) = SFS_NOINO"

lemma last_empty:
  assumes "find (empty_slot es) (rev [0..<n]) = Some k"
  shows "k < n" "sfd_ino (es ! k) = SFS_NOINO"
proof -
  have "k \<in> set (rev [0..<n])" "sfd_ino (es ! k) = SFS_NOINO"
    using assms unfolding find_Some_iff by (auto simp del: set_rev)
  then show "k < n" "sfd_ino (es ! k) = SFS_NOINO"
    by simp_all
qed

lemma findname_loop:
  assumes "hw_works (env_hw env)" "vol_ok s" "sfs_heap s p = Some sv" "dir_ok s sv" "n \<le> length (dir_entries s (sv_i sv))"
  shows "\<exists>t. kfold (findname_step env p name) [0..<n] (None, None) s =
    Inr (Done (map_option (\<lambda>k. (sfd_ino (dir_entries s (sv_i sv) ! k), k)) (find (has_name (dir_entries s (sv_i sv)) name) [0..<n]),
      find (empty_slot (dir_entries s (sv_i sv))) (rev [0..<n])), t) \<and> calm s t"
  using assms(5)
proof (induction n)
  case 0
  then show ?case
    using calm_refl [OF vol_okD(1) [OF assms(2)]] by (auto simp: kop_simps)
next
  case (Suc n)
  let ?es = "dir_entries s (sv_i sv)"
  let ?f = "map_option (\<lambda>k. (sfd_ino (?es ! k), k)) (find (has_name ?es name) [0..<n])"
  obtain t where t: "kfold (findname_step env p name) [0..<n] (None, None) s = Inr (Done (?f, find (empty_slot ?es) (rev [0..<n])), t)"
      and calm: "calm s t"
    using Suc by auto
  have n: "n < length ?es"
    using Suc.prems by simp
  then obtain u where u: "sfs_readdir env p n t = Inr (Done (?es ! n), u)" and calm': "calm t u"
    using sfs_readdir_spec [OF assms(1) calm_vol_ok [OF calm assms(2)], of p sv n] assms(3,4) calm_fields [OF calm] calm_dir [OF calm]
    by auto
  have first: "find (has_name ?es name) [0..<n] = None" if "has_name ?es name n"
    using that n assms(4) unfolding find_upt_None_iff dir_ok_def unique_names_def by (metis less_imp_le_nat less_irrefl order.strict_trans2 order.strict_trans)
  have "findname_step env p name n (?f, find (empty_slot ?es) (rev [0..<n])) t =
      Inr (Done (map_option (\<lambda>k. (sfd_ino (?es ! k), k)) (find (has_name ?es name) [0..<Suc n]), find (empty_slot ?es) (rev [0..<Suc n])), u)"
    using u first by (cases "find (has_name ?es name) [0..<n]")
      (auto simp: findname_step_def kop_simps has_name_def entry_name_def find_append kcheck_def)
  then show ?case
    using t calm_trans [OF calm calm'] unfolding upt_Suc_append [OF le0] kfold_snoc by (auto simp: kop_simps)
qed

lemma sfs_dir_nentries_spec:
  assumes "sfs_heap s p = Some sv" "dir_ok s sv"
  shows "sfs_dir_nentries p s = Inr (Done (length (dir_entries s (sv_i sv))), s)"
  using assms by (simp add: sfs_dir_nentries_def kop_simps dir_ok_def)

lemma sfs_dir_findname_spec:
  assumes "hw_works (env_hw env)" "vol_ok s" "sfs_heap s p = Some sv" "dir_ok s sv"
  shows "\<exists>t. sfs_dir_findname env p name s =
    Inr (Done (case dir_slot (dir_entries s (sv_i sv)) name of None \<Rightarrow> Fail ENOENT | Some k \<Rightarrow> Done (sfd_ino (dir_entries s (sv_i sv) ! k), k),
      find (empty_slot (dir_entries s (sv_i sv))) (rev [0..<length (dir_entries s (sv_i sv))])), t) \<and> calm s t"
proof -
  let ?es = "dir_entries s (sv_i sv)"
  obtain t where "kfold (findname_step env p name) [0..<length ?es] (None, None) s =
      Inr (Done (map_option (\<lambda>k. (sfd_ino (?es ! k), k)) (dir_slot ?es name), find (empty_slot ?es) (rev [0..<length ?es])), t)" "calm s t"
    using findname_loop [OF assms order.refl, of name] unfolding dir_slot_def by blast
  then show ?thesis
    using sfs_dir_nentries_spec [OF assms(3,4)]
    by (intro exI [of _ t]) (cases "dir_slot ?es name"; simp add: sfs_dir_findname_def kop_simps)
qed

section \<open>Changing a directory\<close>

definition put_entry :: "nat \<Rightarrow> sfs_direntry \<Rightarrow> sfs_direntry list \<Rightarrow> sfs_direntry list" where
  "put_entry slot e es = (if slot < length es then es[slot := e] else es @ [e])"

lemma written_entry:
  assumes "file_written s p sv (slot * DIRENT_SIZE) (encode_direntry e) s'" "sfs_heap s' p = Some sv'"
    and "length (sfd_name e) = SFS_NAMELEN" "k * DIRENT_SIZE + DIRENT_SIZE \<le> SFS_MAXBYTES"
  shows "decode_direntry (file_bytes s' (sv_i sv') (k * DIRENT_SIZE) DIRENT_SIZE) =
    (if k = slot then e else decode_direntry (file_bytes s (sv_i sv) (k * DIRENT_SIZE) DIRENT_SIZE))"
proof -
  have len: "length (encode_direntry e) = DIRENT_SIZE"
    using length_encode_direntry [OF assms(3)] .
  have byte: "file_byte (lh_disk s') (sv_i sv') off =
      (if slot * DIRENT_SIZE \<le> off \<and> off < slot * DIRENT_SIZE + DIRENT_SIZE then encode_direntry e ! (off - slot * DIRENT_SIZE)
       else file_byte (lh_disk s) (sv_i sv) off)" if "off < SFS_MAXBYTES" for off
    using assms(1,2) that len unfolding file_written_def by auto
  have "file_bytes s' (sv_i sv') (k * DIRENT_SIZE) DIRENT_SIZE =
      (if k = slot then encode_direntry e else file_bytes s (sv_i sv) (k * DIRENT_SIZE) DIRENT_SIZE)"
  proof (rule nth_equalityI)
    fix j assume "j < length (file_bytes s' (sv_i sv') (k * DIRENT_SIZE) DIRENT_SIZE)"
    then have j: "j < DIRENT_SIZE"
      by simp
    then have "k * DIRENT_SIZE + j < SFS_MAXBYTES"
      using assms(4) by simp
    moreover have "slot * DIRENT_SIZE \<le> k * DIRENT_SIZE + j \<and> k * DIRENT_SIZE + j < slot * DIRENT_SIZE + DIRENT_SIZE \<longleftrightarrow> k = slot"
      using j by (cases k slot rule: linorder_cases) auto
    ultimately show "file_bytes s' (sv_i sv') (k * DIRENT_SIZE) DIRENT_SIZE ! j =
        (if k = slot then encode_direntry e else file_bytes s (sv_i sv) (k * DIRENT_SIZE) DIRENT_SIZE) ! j"
      using byte [of "k * DIRENT_SIZE + j"] j by (simp add: file_bytes_def)
  qed (simp add: len)
  then show ?thesis
    using decode_encode_direntry [OF assms(3)] by simp
qed

lemma sfs_writedir_spec:
  assumes "hw_works (env_hw env)" "vol_ok s" "sfs_heap s p = Some sv" "dir_ok s sv" "room s (sv_i sv) (slot * DIRENT_SIZE div SFS_BLOCKSIZE)"
    and "slot \<le> length (dir_entries s (sv_i sv))" "slot * DIRENT_SIZE < SFS_MAXBYTES" "length (sfd_name e) = SFS_NAMELEN"
    and unique: "unique_names (put_entry slot e (dir_entries s (sv_i sv)))"
  obtains s' sv' where "sfs_writedir env p slot e s = Inr (Done (), s')" "vol_frame s s'" "sfs_heap s' = (sfs_heap s)(p \<mapsto> sv')"
    "vnode_frame sv sv'" "dir_ok s' sv'" "dir_entries s' (sv_i sv') = put_entry slot e (dir_entries s (sv_i sv))"
    "\<And>c. outside s (sv_i sv) c \<Longrightarrow> lh_disk s' c = lh_disk s c \<and> outside s' (sv_i sv') c"
proof -
  let ?es = "dir_entries s (sv_i sv)" and ?n = "unat (sfi_size (sv_i sv)) div DIRENT_SIZE"
  have len: "length (encode_direntry e) = DIRENT_SIZE"
    using length_encode_direntry [OF assms(8)] .
  have "in_block (slot * DIRENT_SIZE) (length (encode_direntry e))"
    using slot_in_block [OF assms(7)] len by simp
  then obtain s' where run: "sfs_metaio env p (int (slot * DIRENT_SIZE)) (encode_direntry e) UIO_WRITE s = Inr (Done (encode_direntry e), s')"
      and w: "file_written s p sv (slot * DIRENT_SIZE) (encode_direntry e) s'"
    using sfs_metaio_write [OF assms(1-3) _ _ assms(5)] assms(4) unfolding dir_ok_def by blast
  from w obtain sv' where sv': "vol_frame s s'" "sfs_heap s' = (sfs_heap s)(p \<mapsto> sv')" "vnode_frame sv sv'" "inode_ok s' (sv_i sv')"
      "unat (sfi_size (sv_i sv')) = max (unat (sfi_size (sv_i sv))) (slot * DIRENT_SIZE + DIRENT_SIZE)"
      and out: "\<And>c. outside s (sv_i sv) c \<Longrightarrow> lh_disk s' c = lh_disk s c \<and> outside s' (sv_i sv') c"
    unfolding file_written_def len by blast
  have size: "unat (sfi_size (sv_i sv)) = ?n * DIRENT_SIZE" "?n * DIRENT_SIZE \<le> SFS_MAXBYTES" "sfi_type (sv_i sv) = SFS_TYPE_DIR"
    using assms(4) by (auto simp: dir_ok_def)
  have top: "slot * DIRENT_SIZE + DIRENT_SIZE \<le> SFS_MAXBYTES"
    using assms(7) by simp
  have size': "unat (sfi_size (sv_i sv')) = (if slot < ?n then ?n else ?n + 1) * DIRENT_SIZE"
    using sv'(5) size(1) assms(6) by (cases "slot < ?n") auto
  have entry: "decode_direntry (file_bytes s' (sv_i sv') (k * DIRENT_SIZE) DIRENT_SIZE) =
      (if k = slot then e else decode_direntry (file_bytes s (sv_i sv) (k * DIRENT_SIZE) DIRENT_SIZE))"
    if "k * DIRENT_SIZE + DIRENT_SIZE \<le> SFS_MAXBYTES" for k
    using written_entry [OF w _ assms(8) that] sv'(2) by simp
  have entries: "dir_entries s' (sv_i sv') = put_entry slot e ?es"
  proof (rule nth_equalityI)
    show "length (dir_entries s' (sv_i sv')) = length (put_entry slot e ?es)"
      using size' by (simp add: put_entry_def)
    fix k assume "k < length (dir_entries s' (sv_i sv'))"
    then have k: "k < (if slot < ?n then ?n else ?n + 1)"
      using size' by simp
    then have "k * DIRENT_SIZE + DIRENT_SIZE \<le> SFS_MAXBYTES"
      using size(2) top assms(6) by (cases "slot < ?n") auto
    then show "dir_entries s' (sv_i sv') ! k = put_entry slot e ?es ! k"
      using k size' entry [of k] assms(6)
      by (cases "slot < ?n"; cases "k = ?n") (auto simp: dir_entries_def put_entry_def nth_append nth_list_update)
  qed
  have "dir_ok s' sv'"
    unfolding dir_ok_def using sv'(3,4) size size' entries unique top assms(6) by (auto simp: vnode_frame_def)
  then show thesis
    using that [of s' sv'] run sv' entries out by (simp add: sfs_writedir_def kop_simps del: of_nat_mult)
qed

text \<open>
  C16: \<open>sfs_dir_findname\<close> looks a name up in the directory: it returns the inode number the directory
  maps the name to and the slot holding it, or \<open>ENOENT\<close> when the directory does not have the name;
  if there is an empty slot it reports one; it changes nothing but the clock and the drive.
\<close>

theorem sfs_dir_findname_correct:
  assumes "hw_works (env_hw env)" "vol_ok s" "sfs_heap s p = Some sv" "dir_ok s sv"
  defines "es \<equiv> dir_entries s (sv_i sv)"
  shows "\<exists>t r emptyslot. sfs_dir_findname env p name s = Inr (Done (r, emptyslot), t) \<and> calm s t \<and>
    (case r of Fail e \<Rightarrow> e = ENOENT \<and> dir_map es name = None
     | Done (ino, k) \<Rightarrow> dir_map es name = Some ino \<and> k < length es \<and> has_name es name k \<and> sfd_ino (es ! k) = ino) \<and>
    (case emptyslot of None \<Rightarrow> \<forall>k<length es. sfd_ino (es ! k) \<noteq> SFS_NOINO | Some k \<Rightarrow> k < length es \<and> sfd_ino (es ! k) = SFS_NOINO)"
proof -
  let ?r = "case dir_slot es name of None \<Rightarrow> Fail ENOENT | Some k \<Rightarrow> Done (sfd_ino (es ! k), k)"
  let ?e = "find (empty_slot es) (rev [0..<length es])"
  from sfs_dir_findname_spec [OF assms(1-4), of name, folded es_def]
  obtain t where t: "sfs_dir_findname env p name s = Inr (Done (?r, ?e), t) \<and> calm s t" ..
  have u: "unique_names es"
    using assms(4) by (simp add: dir_ok_def es_def)
  have r: "case ?r of Fail e \<Rightarrow> e = ENOENT \<and> dir_map es name = None
     | Done (ino, k) \<Rightarrow> dir_map es name = Some ino \<and> k < length es \<and> has_name es name k \<and> sfd_ino (es ! k) = ino"
  proof (cases "dir_slot es name")
    case (Some k)
    then show ?thesis
      using dir_slot_iff [OF u, of name k] by (simp add: dir_map_def)
  qed (simp add: dir_map_def)
  have e: "case ?e of None \<Rightarrow> \<forall>k<length es. sfd_ino (es ! k) \<noteq> SFS_NOINO | Some k \<Rightarrow> k < length es \<and> sfd_ino (es ! k) = SFS_NOINO"
  proof (cases ?e)
    case None
    then have "\<forall>k<length es. sfd_ino (es ! k) \<noteq> SFS_NOINO"
      by (simp add: find_None_iff)
    then show ?thesis
      using None by simp
  next
    case (Some k)
    then show ?thesis
      using last_empty [OF Some] by simp
  qed
  show ?thesis
    by (intro exI [of _ t] exI [of _ ?r] exI [of _ ?e] conjI) (use t in blast, use t in blast, rule r, rule e)
qed

section \<open>Linking and unlinking\<close>

text \<open>The directory at \<open>p\<close> stands for the map \<open>m\<close>.\<close>

definition dir_at :: "sfs_fs \<Rightarrow> nat \<Rightarrow> (u8 list \<Rightarrow> u32 option) \<Rightarrow> bool" where
  "dir_at s p m \<longleftrightarrow> (case sfs_heap s p of None \<Rightarrow> False | Some sv \<Rightarrow> dir_ok s sv \<and> dir_map (dir_entries s (sv_i sv)) = m)"

text \<open>A step that replaced the map of the directory at \<open>p\<close> and kept all other vnodes.\<close>

definition dir_changed :: "sfs_fs \<Rightarrow> nat \<Rightarrow> (u8 list \<Rightarrow> u32 option) \<Rightarrow> sfs_fs \<Rightarrow> bool" where
  "dir_changed s p m s' \<longleftrightarrow> vol_frame s s' \<and> dir_at s' p m \<and> (\<forall>q. q \<noteq> p \<longrightarrow> sfs_heap s' q = sfs_heap s q)"

lemma writedir_changes:
  assumes "hw_works (env_hw env)" "vol_ok s" "sfs_heap s p = Some sv" "dir_ok s sv" "room s (sv_i sv) (slot * DIRENT_SIZE div SFS_BLOCKSIZE)"
    and "slot \<le> length (dir_entries s (sv_i sv))" "slot * DIRENT_SIZE < SFS_MAXBYTES" "length (sfd_name e) = SFS_NAMELEN"
    and "unique_names (put_entry slot e (dir_entries s (sv_i sv)))" "dir_map (put_entry slot e (dir_entries s (sv_i sv))) = m"
  shows "\<exists>s'. sfs_writedir env p slot e s = Inr (Done (), s') \<and> dir_changed s p m s'"
proof -
  from sfs_writedir_spec [OF assms(1-9)] obtain s' sv' where "sfs_writedir env p slot e s = Inr (Done (), s')" "vol_frame s s'"
      "sfs_heap s' = (sfs_heap s)(p \<mapsto> sv')" "dir_ok s' sv'" "dir_entries s' (sv_i sv') = put_entry slot e (dir_entries s (sv_i sv))" .
  then show ?thesis
    using assms(10) by (intro exI [of _ s']) (simp add: dir_changed_def dir_at_def)
qed

lemma entry_block:
  assumes "dir_ok s sv" "k < length (dir_entries s (sv_i sv))" "sfd_ino (dir_entries s (sv_i sv) ! k) \<noteq> SFS_NOINO"
  shows "room s (sv_i sv) (k * DIRENT_SIZE div SFS_BLOCKSIZE)"
proof (rule ccontr)
  assume "\<not> room s (sv_i sv) (k * DIRENT_SIZE div SFS_BLOCKSIZE)"
  then have hole: "inode_block (lh_disk s) (sv_i sv) (k * DIRENT_SIZE div SFS_BLOCKSIZE) = 0"
    by (simp add: room_def)
  have "k * DIRENT_SIZE + DIRENT_SIZE \<le> unat (sfi_size (sv_i sv))"
    using assms(2) slot_below by simp
  then have inside: "in_block (k * DIRENT_SIZE) DIRENT_SIZE"
    using slot_in_block [of k] assms(1) by (simp add: dir_ok_def)
  have "file_byte (lh_disk s) (sv_i sv) (k * DIRENT_SIZE + j) = 0" if "j < DIRENT_SIZE" for j
  proof -
    have "(k * DIRENT_SIZE + j) div SFS_BLOCKSIZE = k * DIRENT_SIZE div SFS_BLOCKSIZE"
      using in_block_same(1) [OF inside that] .
    then show ?thesis
      using hole by (simp add: file_byte_def)
  qed
  then have "file_bytes s (sv_i sv) (k * DIRENT_SIZE) DIRENT_SIZE = replicate DIRENT_SIZE 0"
    by (intro nth_equalityI) (simp_all add: file_bytes_def)
  then have "sfd_ino (dir_entries s (sv_i sv) ! k) = SFS_NOINO"
    using assms(2) by (simp add: dir_entries_def decode_direntry_def be32_def)
  then show False
    using assms(3) by simp
qed

lemma dir_slot_map: "dir_slot es name = None \<longleftrightarrow> dir_map es name = None"
  by (simp add: dir_map_def)

lemma put_entry_link:
  assumes "unique_names es" "name_ok name" "ino \<noteq> SFS_NOINO" "dir_map es name = None"
    and "slot = length es \<or> slot < length es \<and> sfd_ino (es ! slot) = SFS_NOINO"
  shows "unique_names (put_entry slot \<lparr>sfd_ino = ino, sfd_name = name_buffer name\<rparr> es)"
    "dir_map (put_entry slot \<lparr>sfd_ino = ino, sfd_name = name_buffer name\<rparr> es) = (dir_map es)(name \<mapsto> ino)"
proof -
  let ?e = "\<lparr>sfd_ino = ino, sfd_name = name_buffer name\<rparr>"
  have e: "entry_name ?e = name" "dir_slot es (entry_name ?e) = None"
    using entry_name_buffer [OF assms(2)] assms(4) by (simp_all add: dir_slot_map)
  have empty: "\<not> has_name es n slot" if "slot < length es" for n
    using that assms(5) by (auto simp: has_name_def)
  show "unique_names (put_entry slot ?e es)"
    using dir_update(1) [OF assms(1) _ disjI2 [OF e(2)]] dir_append(1) [OF assms(1) _ e(2)] assms(3) by (simp add: put_entry_def)
  show "dir_map (put_entry slot ?e es) = (dir_map es)(name \<mapsto> ino)"
    using dir_update(2) [OF assms(1) _ disjI2 [OF e(2)]] dir_append(2) [OF assms(1) _ e(2)] assms(3) empty e(1)
    by (auto simp: put_entry_def fun_eq_iff)
qed

text \<open>
  C6: \<open>sfs_dir_link\<close> adds a name to a directory. If the directory already has the name it fails
  with \<open>EEXIST\<close>, if the name does not fit an entry with \<open>ENAMETOOLONG\<close>, in both cases
  changing nothing but the clock and the drive; otherwise the map the directory stands for gains exactly this
  name, in an empty slot or at the end, and the directory and the volume stay well-formed.
\<close>

theorem sfs_dir_link_correct:
  assumes "hw_works (env_hw env)" "vol_ok s" "sfs_heap s p = Some sv" "dir_ok s sv" "card (used s) + 1 < bitmap_size (sfs_freemap s)"
    and "unat (sfi_size (sv_i sv)) < SFS_MAXBYTES" "0 \<notin> set name" "ino \<noteq> SFS_NOINO"
  defines "m \<equiv> dir_map (dir_entries s (sv_i sv))"
  shows "\<exists>r s'. sfs_dir_link env p name ino s = Inr (r, s') \<and>
    (if m name \<noteq> None then r = Fail EEXIST \<and> calm s s'
     else if SFS_NAMELEN \<le> length name then r = Fail ENAMETOOLONG \<and> calm s s'
     else (\<exists>slot. r = Done slot) \<and> dir_changed s p (m(name \<mapsto> ino)) s')"
proof -
  let ?es = "dir_entries s (sv_i sv)" and ?e = "\<lparr>sfd_ino = ino, sfd_name = name_buffer name\<rparr>"
  let ?slot = "find (empty_slot (dir_entries s (sv_i sv))) (rev [0..<length (dir_entries s (sv_i sv))])"
  obtain t where t: "sfs_dir_findname env p name s =
      Inr (Done (case dir_slot ?es name of None \<Rightarrow> Fail ENOENT | Some k \<Rightarrow> Done (sfd_ino (?es ! k), k), ?slot), t)" and calm: "calm s t"
    using sfs_dir_findname_spec [OF assms(1-4), of name] by blast
  note cf = calm_fields [OF calm]
  show ?thesis
  proof (cases "m name = None \<and> length name < SFS_NAMELEN")
    case False
    then show ?thesis
      using t calm by (intro exI [of _ "if m name \<noteq> None then Fail EEXIST else Fail ENAMETOOLONG"] exI [of _ t])
        (cases "dir_slot ?es name"; simp add: sfs_dir_link_def kop_simps m_def dir_map_def)
  next
    case True
    let ?k = "case ?slot of None \<Rightarrow> length ?es | Some k \<Rightarrow> k"
    have at: "sfs_heap t p = Some sv" "dir_ok t sv" "dir_entries t (sv_i sv) = ?es" "vol_ok t"
      using assms(2-4) cf calm_dir [OF calm] calm_vol_ok [OF calm] by simp_all
    have k: "?k = length ?es \<or> ?k < length ?es \<and> sfd_ino (?es ! ?k) = SFS_NOINO"
      using last_empty [of ?es "length ?es"] by (cases ?slot) simp_all
    have "?k * DIRENT_SIZE < SFS_MAXBYTES"
      using k assms(4,6) by (auto simp: dir_ok_def)
    moreover have "room t (sv_i sv) (?k * DIRENT_SIZE div SFS_BLOCKSIZE)"
      using assms(5) cf by (simp add: room_def)
    moreover have "name_ok name" "dir_map ?es name = None" "unique_names ?es"
      using True assms(4,7) by (simp_all add: name_ok_def m_def dir_ok_def)
    moreover note put_entry_link [OF this(3,1) assms(8) this(2) k] entry_name_buffer(2) [OF this(1)]
    ultimately obtain u where u: "sfs_writedir env p ?k ?e t = Inr (Done (), u)" "dir_changed t p (m(name \<mapsto> ino)) u"
      using writedir_changes [OF assms(1) at(4,1,2), of ?k ?e] k at(3) by (auto simp: m_def)
    have slot: "(case ?slot of None \<Rightarrow> sfs_dir_nentries p | Some i \<Rightarrow> kret i) t = Inr (Done ?k, t)"
      using sfs_dir_nentries_spec [OF at(1,2)] at(3) by (cases ?slot) (simp_all add: kop_simps)
    have "dir_changed s p (m(name \<mapsto> ino)) u"
      using u(2) vol_frame_trans [OF calm_frame [OF calm assms(2)]] cf by (simp add: dir_changed_def)
    moreover have "sfs_dir_link env p name ino s = Inr (Done ?k, u)"
      using True t u(1) slot by (simp add: sfs_dir_link_def kbind_def kret_def m_def dir_slot_map [symmetric])
    ultimately show ?thesis
      using True by auto
  qed
qed

text \<open>
  C15: \<open>sfs_dir_unlink\<close> removes a name: erasing the slot that holds it takes exactly this name out of the
  map the directory stands for. It needs no free block and cannot fail on a working disk.
\<close>

theorem sfs_dir_unlink_correct:
  assumes "hw_works (env_hw env)" "vol_ok s" "sfs_heap s p = Some sv" "dir_ok s sv"
    and "slot < length (dir_entries s (sv_i sv))" "has_name (dir_entries s (sv_i sv)) name slot"
  shows "\<exists>s'. sfs_dir_unlink env p slot s = Inr (Done (), s') \<and>
    dir_changed s p ((dir_map (dir_entries s (sv_i sv)))(name := None)) s'"
proof -
  let ?es = "dir_entries s (sv_i sv)" and ?e = "\<lparr>sfd_ino = SFS_NOINO, sfd_name = replicate SFS_NAMELEN 0\<rparr>"
  have u: "unique_names ?es" "room s (sv_i sv) (slot * DIRENT_SIZE div SFS_BLOCKSIZE)"
    using assms(4-6) entry_block [OF assms(4,5)] by (simp_all add: dir_ok_def has_name_def)
  have other: "has_name ?es n slot \<longleftrightarrow> n = name" for n
    using assms(6) by (auto simp: has_name_def)
  have put: "put_entry slot ?e ?es = ?es[slot := ?e]"
    using assms(5) unfolding put_entry_def by simp
  have "dir_map (put_entry slot ?e ?es) = (dir_map ?es)(name := None)" "unique_names (put_entry slot ?e ?es)"
    unfolding put using dir_update [OF u(1) assms(5), of ?e] other by auto
  moreover have "slot * DIRENT_SIZE < SFS_MAXBYTES"
    using slot_below [of slot] assms(4,5) by (fastforce simp: dir_ok_def)
  ultimately show ?thesis
    unfolding sfs_dir_unlink_def using writedir_changes [OF assms(1-4) u(2), of ?e] assms(5) by simp
qed

section \<open>An example directory\<close>

text \<open>One entry: the name \<open>a\<close> (97) for inode 2, in block 3 of the example volume.\<close>

definition example_entry :: sfs_direntry where
  "example_entry = \<lparr>sfd_ino = 2, sfd_name = name_buffer [97]\<rparr>"

definition example_dir :: sfs_vnode where
  "example_dir = \<lparr>vn_refcount = 1, sv_i = example_inode\<lparr>sfi_size := 64, sfi_direct := 3 # replicate 14 0\<rparr>, sv_ino = 1, sv_dirty = False\<rparr>"

definition example_dir_fs :: sfs_fs where
  "example_dir_fs = example_fs\<lparr>lh_disk := (lh_disk example_fs)(3 := encode_direntry example_entry @ replicate 448 0),
     sfs_heap := [1 \<mapsto> example_dir]\<rparr>"

lemma example_dir_fs_ok: "vol_ok example_dir_fs"
proof -
  have "length (encode_direntry example_entry @ replicate 448 0) = 512"
    by (simp add: encode_direntry_def example_entry_def name_buffer_def)
  then show ?thesis
    using example_vol_ok by (simp add: vol_ok_def sfs_ready_def lhd_inv_def lhd_idle_def example_dir_fs_def)
qed

lemma example_block: "inode_block d (sv_i example_dir) g = (if g = 0 then 3 else 0)"
  by (cases "g < 15") (auto simp: inode_block_def example_dir_def example_inode_def nth_Cons split: nat.split)

lemma example_entries: "dir_entries example_dir_fs (sv_i example_dir) = [example_entry]"
proof -
  have len: "length (sfd_name example_entry) = SFS_NAMELEN"
    by (simp add: example_entry_def name_buffer_def)
  have "file_bytes example_dir_fs (sv_i example_dir) 0 DIRENT_SIZE = encode_direntry example_entry"
    using length_encode_direntry [OF len]
    by (intro nth_equalityI) (simp_all add: file_bytes_def file_byte_def example_block example_dir_fs_def nth_append)
  then show ?thesis
    using decode_encode_direntry [OF len] by (simp add: dir_entries_def example_dir_def)
qed

lemma example_dir_ok: "dir_ok example_dir_fs example_dir"
proof -
  have "used example_dir_fs = {0, 1, 2, 3}" "nblocks example_dir_fs = 8"
    using example_used by (simp_all add: example_dir_fs_def example_fs_def)
  then have "inode_ok example_dir_fs (sv_i example_dir)"
    unfolding inode_ok_def example_block block_ok_def by (simp add: example_dir_def example_inode_def)
  moreover have "unique_names [example_entry]"
    by (simp add: unique_names_def)
  ultimately show ?thesis
    unfolding dir_ok_def example_entries by (simp add: example_dir_def example_inode_def)
qed

lemma example_dir_heap: "sfs_heap example_dir_fs 1 = Some example_dir"
  by (simp add: example_dir_fs_def)

lemma example_has_name: "has_name [example_entry] name 0 \<longleftrightarrow> name = [97]"
  using entry_name_buffer(1) [of "[97]" 2] by (auto simp: has_name_def name_ok_def example_entry_def)

lemma example_map: "dir_map [example_entry] = [[97] \<mapsto> 2]"
  by (auto simp: dir_map_def dir_slot_def example_has_name fun_eq_iff) (simp add: example_entry_def)

theorem sfs_dir_findname_correct_witness:
  "\<exists>t emptyslot. sfs_dir_findname example_sfs_env 1 [98] example_dir_fs = Inr (Done (Fail ENOENT, emptyslot), t)"
proof -
  obtain t r emptyslot where "sfs_dir_findname example_sfs_env 1 [98] example_dir_fs = Inr (Done (r, emptyslot), t)"
      "case r of Fail e \<Rightarrow> e = ENOENT \<and> dir_map [example_entry] [98] = None
       | Done (ino, k) \<Rightarrow> dir_map [example_entry] [98] = Some ino \<and> k < length [example_entry] \<and>
           has_name [example_entry] [98] k \<and> sfd_ino ([example_entry] ! k) = ino"
    using sfs_dir_findname_correct [OF example_env_works example_dir_fs_ok example_dir_heap example_dir_ok, of "[98]"]
    unfolding example_entries by blast
  then show ?thesis
    by (cases r) (auto simp: example_map)
qed

theorem sfs_dir_link_correct_witness:
  "\<exists>slot s'. sfs_dir_link example_sfs_env 1 [98] 3 example_dir_fs = Inr (Done slot, s') \<and>
     dir_changed example_dir_fs 1 [[97] \<mapsto> 2, [98] \<mapsto> 3] s'"
proof -
  have "card (used example_dir_fs) + 1 < bitmap_size (sfs_freemap example_dir_fs)"
    using example_used by (simp add: example_dir_fs_def example_fs_def)
  moreover have "unat (sfi_size (sv_i example_dir)) < SFS_MAXBYTES"
    by (simp add: example_dir_def)
  ultimately show ?thesis
    using sfs_dir_link_correct [OF example_env_works example_dir_fs_ok example_dir_heap example_dir_ok, of "[98]" 3]
    unfolding example_entries example_map by auto
qed

theorem sfs_dir_unlink_correct_witness:
  "\<exists>s'. sfs_dir_unlink example_sfs_env 1 0 example_dir_fs = Inr (Done (), s') \<and> dir_changed example_dir_fs 1 (\<lambda>name. None) s'"
proof -
  have "([[97 :: u8] \<mapsto> 2 :: u32])([97] := None) = (\<lambda>name. None)"
    by auto
  then show ?thesis
    using sfs_dir_unlink_correct [OF example_env_works example_dir_fs_ok example_dir_heap example_dir_ok, of 0 "[97]"]
    unfolding example_entries example_map by (simp add: example_has_name)
qed

end
