(* ===== verification/Threadlist.thy ===== *)
theory Threadlist
  imports Kernel_Prelude
begin

text \<open>
  Lists of threads, thread/threadlist.c: doubly linked lists through the \<open>t_listnode\<close> of the
  threads, with a head and a tail node as bookends. The links are kept in a store of nodes, so a
  thread that is put on two lists breaks both. The lists refine lists of HOL.
\<close>

section \<open>State\<close>

text \<open>The lists of the kernel by their place: per cpu, per wait channel, or a local variable.\<close>

datatype tlist = Runqueue nat | Zombies nat | Wchan nat | LocalList

text \<open>Addresses of nodes: \<open>&tl->tl_head\<close>, \<open>&tl->tl_tail\<close>, \<open>&t->t_listnode\<close>.\<close>

datatype nodeptr = Head tlist | Tail tlist | Listnode nat

record threadlistnode =
  tln_prev :: "nodeptr option"
  tln_next :: "nodeptr option"
  tln_self :: "nat option"

record thread_lists =
  tln :: "nodeptr \<Rightarrow> threadlistnode"
  tl_count :: "tlist \<Rightarrow> u32"

definition set_next :: "nodeptr \<Rightarrow> nodeptr option \<Rightarrow> 'a thread_lists_scheme \<Rightarrow> 'a thread_lists_scheme" where
  "set_next p q s = s\<lparr>tln := (tln s)(p := (tln s p)\<lparr>tln_next := q\<rparr>)\<rparr>"

definition set_prev :: "nodeptr \<Rightarrow> nodeptr option \<Rightarrow> 'a thread_lists_scheme \<Rightarrow> 'a thread_lists_scheme" where
  "set_prev p q s = s\<lparr>tln := (tln s)(p := (tln s p)\<lparr>tln_prev := q\<rparr>)\<rparr>"

definition add_count :: "tlist \<Rightarrow> u32 \<Rightarrow> 'a thread_lists_scheme \<Rightarrow> 'a thread_lists_scheme" where
  "add_count l n s = s\<lparr>tl_count := (tl_count s)(l := tl_count s l + n)\<rparr>"

section \<open>Operations\<close>

text \<open>The \<open>DEBUGASSERT\<close>s are compiled out, so they are not part of the model.\<close>

definition threadlistnode_init :: "nat \<Rightarrow> 'a thread_lists_scheme \<Rightarrow> 'a thread_lists_scheme" where
  "threadlistnode_init t s =
     s\<lparr>tln := (tln s)(Listnode t := \<lparr>tln_prev = None, tln_next = None, tln_self = Some t\<rparr>)\<rparr>"

definition threadlistnode_cleanup :: "nat \<Rightarrow> 'a thread_lists_scheme \<Rightarrow> unit res" where
  "threadlistnode_cleanup t s =
     kassert (tln_next (tln s (Listnode t)) = None) (
     kassert (tln_prev (tln s (Listnode t)) = None) (
     kassert (tln_self (tln s (Listnode t)) \<noteq> None) (Inr ())))"

definition threadlist_init :: "tlist \<Rightarrow> 'a thread_lists_scheme \<Rightarrow> 'a thread_lists_scheme" where
  "threadlist_init l s =
     s\<lparr>tln := (tln s)(Head l := \<lparr>tln_prev = None, tln_next = Some (Tail l), tln_self = None\<rparr>,
                      Tail l := \<lparr>tln_prev = Some (Head l), tln_next = None, tln_self = None\<rparr>),
       tl_count := (tl_count s)(l := 0)\<rparr>"

definition threadlist_isempty :: "tlist \<Rightarrow> 'a thread_lists_scheme \<Rightarrow> bool" where
  "threadlist_isempty l s \<longleftrightarrow> tl_count s l = 0"

definition threadlist_cleanup :: "tlist \<Rightarrow> 'a thread_lists_scheme \<Rightarrow> unit res" where
  "threadlist_cleanup l s = kassert (threadlist_isempty l s) (kassert (tl_count s l = 0) (Inr ()))"

definition threadlist_insertafternode ::
    "nodeptr \<Rightarrow> nat \<Rightarrow> 'a thread_lists_scheme \<Rightarrow> 'a thread_lists_scheme res" where
  "threadlist_insertafternode onlist t s =
     (let addee = Listnode t;
          s = set_prev addee (Some onlist) s;
          s = set_next addee (tln_next (tln s onlist)) s
      in rbind (deref (tln_prev (tln s addee))) (\<lambda>p.
         let s = set_next p (Some addee) s
         in rbind (deref (tln_next (tln s addee))) (\<lambda>n.
            Inr (set_prev n (Some addee) s))))"

definition threadlist_insertbeforenode ::
    "nat \<Rightarrow> nodeptr \<Rightarrow> 'a thread_lists_scheme \<Rightarrow> 'a thread_lists_scheme res" where
  "threadlist_insertbeforenode t onlist s =
     (let addee = Listnode t;
          s = set_prev addee (tln_prev (tln s onlist)) s;
          s = set_next addee (Some onlist) s
      in rbind (deref (tln_prev (tln s addee))) (\<lambda>p.
         let s = set_next p (Some addee) s
         in rbind (deref (tln_next (tln s addee))) (\<lambda>n.
            Inr (set_prev n (Some addee) s))))"

definition threadlist_removenode :: "nodeptr \<Rightarrow> 'a thread_lists_scheme \<Rightarrow> 'a thread_lists_scheme res" where
  "threadlist_removenode n s =
     rbind (deref (tln_prev (tln s n))) (\<lambda>p.
     let s = set_next p (tln_next (tln s n)) s
     in rbind (deref (tln_next (tln s n))) (\<lambda>q.
        let s = set_prev q (tln_prev (tln s n)) s
        in Inr (set_next n None (set_prev n None s))))"

definition threadlist_addhead :: "tlist \<Rightarrow> nat \<Rightarrow> 'a thread_lists_scheme \<Rightarrow> 'a thread_lists_scheme res" where
  "threadlist_addhead l t s = rbind (threadlist_insertafternode (Head l) t s) (\<lambda>s. Inr (add_count l 1 s))"

definition threadlist_addtail :: "tlist \<Rightarrow> nat \<Rightarrow> 'a thread_lists_scheme \<Rightarrow> 'a thread_lists_scheme res" where
  "threadlist_addtail l t s = rbind (threadlist_insertbeforenode t (Tail l) s) (\<lambda>s. Inr (add_count l 1 s))"

definition threadlist_remhead :: "tlist \<Rightarrow> 'a thread_lists_scheme \<Rightarrow> (nat option \<times> 'a thread_lists_scheme) res" where
  "threadlist_remhead l s =
     rbind (deref (tln_next (tln s (Head l)))) (\<lambda>n.
     if tln_next (tln s n) = None then Inr (None, s)
     else
       rbind (threadlist_removenode n s) (\<lambda>s.
       let s = add_count l (- 1) s in Inr (tln_self (tln s n), s)))"

definition threadlist_remtail :: "tlist \<Rightarrow> 'a thread_lists_scheme \<Rightarrow> (nat option \<times> 'a thread_lists_scheme) res" where
  "threadlist_remtail l s =
     rbind (deref (tln_prev (tln s (Tail l)))) (\<lambda>n.
     if tln_prev (tln s n) = None then Inr (None, s)
     else
       rbind (threadlist_removenode n s) (\<lambda>s.
       let s = add_count l (- 1) s in Inr (tln_self (tln s n), s)))"

definition threadlist_insertafter :: "tlist \<Rightarrow> nat \<Rightarrow> nat \<Rightarrow> 'a thread_lists_scheme \<Rightarrow> 'a thread_lists_scheme res" where
  "threadlist_insertafter l onlist addee s =
     rbind (threadlist_insertafternode (Listnode onlist) addee s) (\<lambda>s. Inr (add_count l 1 s))"

definition threadlist_insertbefore :: "tlist \<Rightarrow> nat \<Rightarrow> nat \<Rightarrow> 'a thread_lists_scheme \<Rightarrow> 'a thread_lists_scheme res" where
  "threadlist_insertbefore l addee onlist s =
     rbind (threadlist_insertbeforenode addee (Listnode onlist) s) (\<lambda>s. Inr (add_count l 1 s))"

definition threadlist_remove :: "tlist \<Rightarrow> nat \<Rightarrow> 'a thread_lists_scheme \<Rightarrow> 'a thread_lists_scheme res" where
  "threadlist_remove l t s = rbind (threadlist_removenode (Listnode t) s) (\<lambda>s. Inr (add_count l (- 1) s))"

text \<open>
  The loop \<open>while ((t = threadlist_remhead(l)) != NULL) body(t)\<close>, for at most \<open>n\<close> rounds.
\<close>

primrec while_remhead :: "nat \<Rightarrow> ('s \<Rightarrow> (nat option \<times> 's) res) \<Rightarrow> (nat \<Rightarrow> 's \<Rightarrow> 's res) \<Rightarrow> 's \<Rightarrow> 's res" where
  "while_remhead 0 remhead body s = Inl OutOfFuel"
| "while_remhead (Suc n) remhead body s =
     rbind (remhead s) (\<lambda>(t, s).
     case t of None \<Rightarrow> Inr s | Some t \<Rightarrow> rbind (body t s) (while_remhead n remhead body))"

section \<open>Links\<close>

fun linked :: "'a thread_lists_scheme \<Rightarrow> nodeptr list \<Rightarrow> bool" where
  "linked s (p # q # ns) \<longleftrightarrow> tln_next (tln s p) = Some q \<and> tln_prev (tln s q) = Some p \<and> linked s (q # ns)"
| "linked s ns \<longleftrightarrow> True"

lemma in_set_tl: "n \<in> set (tl ns) \<Longrightarrow> n \<in> set ns"
  by (cases ns) auto

lemma linked_frame:
  assumes "\<And>n. n \<in> set (butlast ns) \<Longrightarrow> tln_next (tln s' n) = tln_next (tln s n)"
    and "\<And>n. n \<in> set (tl ns) \<Longrightarrow> tln_prev (tln s' n) = tln_prev (tln s n)"
  shows "linked s' ns = linked s ns"
  using assms
proof (induction s ns rule: linked.induct)
  case (1 s p q ns)
  then have "linked s' (q # ns) = linked s (q # ns)"
    by (cases ns) auto
  then show ?case
    using 1 by auto
qed simp_all

lemma linked_append: "linked s (xs @ p # ys) \<longleftrightarrow> linked s (xs @ [p]) \<and> linked s (p # ys)"
proof (induction xs)
  case (Cons x xs)
  then show ?case
    by (cases xs) auto
qed simp

text \<open>What the two link operations do to a chain.\<close>

definition between :: "nodeptr \<Rightarrow> nodeptr \<Rightarrow> nodeptr \<Rightarrow> 'a thread_lists_scheme \<Rightarrow> 'a thread_lists_scheme" where
  "between p a q s = set_prev q (Some a) (set_next p (Some a) (set_next a (Some q) (set_prev a (Some p) s)))"

lemmas link_defs = set_next_def set_prev_def add_count_def

lemma insert_links:
  assumes "linked s (xs @ p # q # ys)" "distinct (xs @ p # q # ys)" "a \<notin> set (xs @ p # q # ys)"
  shows "linked (between p a q s) (xs @ p # a # q # ys)"
proof -
  let ?s = "between p a q s"
  have "linked s (xs @ [p])" "linked s (q # ys)"
    using assms(1) unfolding linked_append [of s xs p "q # ys"] by auto
  moreover have "linked ?s (xs @ [p]) = linked s (xs @ [p])"
    by (rule linked_frame) (use assms(2,3) in \<open>auto simp: between_def link_defs dest: in_set_tl in_set_butlastD\<close>)
  moreover have "linked ?s (q # ys) = linked s (q # ys)"
    by (rule linked_frame) (use assms(2,3) in \<open>auto simp: between_def link_defs dest: in_set_butlastD split: if_splits\<close>)
  ultimately show ?thesis
    using assms(2,3) unfolding linked_append [of _ xs p "a # q # ys"] by (auto simp: between_def link_defs)
qed

definition unlinked :: "nodeptr \<Rightarrow> nodeptr \<Rightarrow> nodeptr \<Rightarrow> 'a thread_lists_scheme \<Rightarrow> 'a thread_lists_scheme" where
  "unlinked p a q s = set_next a None (set_prev a None (set_prev q (Some p) (set_next p (Some q) s)))"

lemma remove_links:
  assumes "linked s (xs @ p # a # q # ys)" "distinct (xs @ p # a # q # ys)"
  shows "linked (unlinked p a q s) (xs @ p # q # ys)"
proof -
  let ?s = "unlinked p a q s"
  have "linked s (xs @ [p])" "linked s (q # ys)"
    using assms(1) unfolding linked_append [of s xs p "a # q # ys"] by auto
  moreover have "linked ?s (xs @ [p]) = linked s (xs @ [p])"
    by (rule linked_frame) (use assms(2) in \<open>auto simp: unlinked_def link_defs dest: in_set_tl in_set_butlastD\<close>)
  moreover have "linked ?s (q # ys) = linked s (q # ys)"
    by (rule linked_frame) (use assms(2) in \<open>auto simp: unlinked_def link_defs dest: in_set_butlastD split: if_splits\<close>)
  ultimately show ?thesis
    using assms(2) unfolding linked_append [of _ xs p "q # ys"] by (auto simp: unlinked_def link_defs)
qed

section \<open>Refinement of lists\<close>

text \<open>
  The store holds the lists \<open>L\<close> of the threads \<open>T\<close>: every initialised list is a chain of its
  threads, a thread is on at most one list, and a thread that is on none has no links.
\<close>

definition on_list :: "(tlist \<Rightarrow> nat list option) \<Rightarrow> nat \<Rightarrow> bool" where
  "on_list L t \<longleftrightarrow> (\<exists>l ts. L l = Some ts \<and> t \<in> set ts)"

definition chain :: "tlist \<Rightarrow> nat list \<Rightarrow> nodeptr list" where
  "chain l ts = Head l # map Listnode ts @ [Tail l]"

definition list_ok :: "'a thread_lists_scheme \<Rightarrow> tlist \<Rightarrow> nat list \<Rightarrow> bool" where
  "list_ok s l ts \<longleftrightarrow> linked s (chain l ts) \<and> tln_prev (tln s (Head l)) = None \<and> tln_next (tln s (Tail l)) = None \<and>
     tl_count s l = of_nat (length ts) \<and> length ts < 2 ^ 32 \<and> distinct ts"

definition lists_ok :: "'a thread_lists_scheme \<Rightarrow> nat set \<Rightarrow> (tlist \<Rightarrow> nat list option) \<Rightarrow> bool" where
  "lists_ok s T L \<longleftrightarrow> (\<forall>l ts. L l = Some ts \<longrightarrow> list_ok s l ts \<and> set ts \<subseteq> T) \<and>
     (\<forall>l l' ts ts'. L l = Some ts \<and> L l' = Some ts' \<and> l \<noteq> l' \<longrightarrow> set ts \<inter> set ts' = {}) \<and>
     (\<forall>t\<in>T. tln_self (tln s (Listnode t)) = Some t) \<and>
     (\<forall>t\<in>T. \<not> on_list L t \<longrightarrow> tln_next (tln s (Listnode t)) = None \<and> tln_prev (tln s (Listnode t)) = None)"

lemma distinct_chain: "distinct (chain l ts) = distinct ts"
  by (auto simp: chain_def distinct_map inj_on_def)

lemma chain_disjoint: "l \<noteq> l' \<Longrightarrow> set ts \<inter> set ts' = {} \<Longrightarrow> set (chain l ts) \<inter> set (chain l' ts') = {}"
  by (auto simp: chain_def)

lemma lists_okD:
  assumes "lists_ok s T L" "L l = Some ts"
  shows "linked s (chain l ts)" "tln_prev (tln s (Head l)) = None" "tln_next (tln s (Tail l)) = None"
    "tl_count s l = of_nat (length ts)" "length ts < 2 ^ 32" "distinct ts" "set ts \<subseteq> T"
    "t \<in> set ts \<Longrightarrow> on_list L t"
  using assms by (auto simp: lists_ok_def list_ok_def on_list_def)

lemma on_list_upd: "on_list (L(l \<mapsto> ts)) t \<longleftrightarrow> t \<in> set ts \<or> (\<exists>k us. k \<noteq> l \<and> L k = Some us \<and> t \<in> set us)"
  by (auto simp: on_list_def)

lemma lists_ok_apart: "lists_ok s T L \<Longrightarrow> L k = Some us \<Longrightarrow> L k' = Some us' \<Longrightarrow> k \<noteq> k' \<Longrightarrow> set us \<inter> set us' = {}"
  unfolding lists_ok_def by blast

text \<open>A step that changes one list and keeps all nodes of the others.\<close>

lemma lists_ok_step:
  assumes ok: "lists_ok s T L" and l: "L l = Some ts" and new: "list_ok s' l ts'" "set ts' \<subseteq> T"
    and fresh: "\<And>t. t \<in> set ts' \<Longrightarrow> t \<in> set ts \<or> \<not> on_list L t"
    and other: "\<And>n. n \<notin> set (chain l ts) \<Longrightarrow> n \<notin> Listnode ` set ts' \<Longrightarrow> tln s' n = tln s n"
    and count: "\<And>l'. l' \<noteq> l \<Longrightarrow> tl_count s' l' = tl_count s l'"
    and self: "\<And>n. tln_self (tln s' n) = tln_self (tln s n)"
    and off: "\<And>t. t \<in> set ts \<Longrightarrow> t \<notin> set ts' \<Longrightarrow> tln_next (tln s' (Listnode t)) = None \<and> tln_prev (tln s' (Listnode t)) = None"
  shows "lists_ok s' T (L(l \<mapsto> ts'))"
proof -
  have disj: "set us \<inter> set ts = {}" "set us \<inter> set ts' = {}" if "L k = Some us" "k \<noteq> l" for k us
  proof -
    show "set us \<inter> set ts = {}"
      using lists_ok_apart [OF ok that(1) l that(2)] .
    then show "set us \<inter> set ts' = {}"
      using fresh that unfolding on_list_def by blast
  qed
  have keep: "tln s' n = tln s n" if "L k = Some us" "k \<noteq> l" "n \<in> set (chain k us)" for k us n
    using chain_disjoint [OF that(2) disj(1) [OF that(1,2)]] disj(2) [OF that(1,2)] that(2,3)
    by (intro other) (auto simp: chain_def)
  have rest: "list_ok s' k us \<and> set us \<subseteq> T" if "L k = Some us" "k \<noteq> l" for k us
  proof -
    have "linked s' (chain k us) = linked s (chain k us)"
      by (rule linked_frame) (use keep [OF that] in \<open>auto dest: in_set_butlastD in_set_tl\<close>)
    then show ?thesis
      using ok that keep [OF that] count by (auto simp: lists_ok_def list_ok_def chain_def)
  qed
  have away: "tln_next (tln s' (Listnode t)) = None \<and> tln_prev (tln s' (Listnode t)) = None"
    if "t \<in> T" "\<not> on_list (L(l \<mapsto> ts')) t" for t
  proof (cases "t \<in> set ts")
    case True
    then show ?thesis
      using off that by (auto simp: on_list_upd)
  next
    case False
    then have "\<not> on_list L t" "t \<notin> set ts'"
      using that(2) l False unfolding on_list_upd unfolding on_list_def by (metis option.inject)+
    moreover from this have "tln s' (Listnode t) = tln s (Listnode t)"
      using False by (intro other) (auto simp: chain_def)
    ultimately show ?thesis
      using ok that(1) unfolding lists_ok_def by simp
  qed
  have apart: "set us \<inter> set us' = {}" if "(L(l \<mapsto> ts')) k = Some us" "(L(l \<mapsto> ts')) k' = Some us'" "k \<noteq> k'" for k k' us us'
    using disj(2) [of k us] disj(2) [of k' us'] that lists_ok_apart [OF ok, of k us k' us']
    by (cases "k = l"; cases "k' = l") (simp_all add: Int_commute)
  have "list_ok s' k us \<and> set us \<subseteq> T" if "(L(l \<mapsto> ts')) k = Some us" for k us
    using that rest new by (cases "k = l") simp_all
  then show ?thesis
    using apart away ok self unfolding lists_ok_def by (intro conjI) metis+
qed

section \<open>The operations as list operations\<close>

text \<open>Inserting at a place of a list, and taking a thread out.\<close>

lemma chain_split:
  "chain l (ts @ us) = (Head l # map Listnode ts) @ map Listnode us @ [Tail l]"
  by (simp add: chain_def)

lemma insert_ok:
  assumes ok: "lists_ok s T L" and l: "L l = Some (ts @ us)" and t: "t \<in> T" "\<not> on_list L t"
    and room: "Suc (length (ts @ us)) < 2 ^ 32"
    and p: "p = last (Head l # map Listnode ts)" and q: "q = hd (map Listnode us @ [Tail l])"
  shows "lists_ok (add_count l 1 (between p (Listnode t) q s)) T (L(l \<mapsto> ts @ t # us))"
proof -
  let ?s = "add_count l 1 (between p (Listnode t) q s)"
  note D = lists_okD [OF ok l]
  have t_off: "t \<notin> set (ts @ us)"
    using t(2) l unfolding on_list_def by blast
  obtain xs where xs: "Head l # map Listnode ts = xs @ [p]"
    using p append_butlast_last_id [of "Head l # map Listnode ts"] by (metis list.distinct(1))
  obtain ys where ys: "map Listnode us @ [Tail l] = q # ys"
    using q by (cases us) auto
  have old: "chain l (ts @ us) = xs @ p # q # ys"
    unfolding chain_split xs ys by simp
  have new: "chain l (ts @ t # us) = xs @ p # Listnode t # q # ys"
    using xs ys unfolding chain_split [of l ts "t # us"] by simp
  have dist: "distinct (xs @ p # q # ys)" and fresh: "Listnode t \<notin> set (xs @ p # q # ys)"
    using D(6) t_off distinct_chain [of l "ts @ us"] unfolding old [symmetric] by (auto simp: chain_def)
  have "linked (between p (Listnode t) q s) (xs @ p # Listnode t # q # ys)"
    using insert_links [OF D(1) [unfolded old] dist fresh] .
  moreover have "linked ?s ns = linked (between p (Listnode t) q s) ns" for ns
    by (rule linked_frame) (simp_all add: add_count_def)
  moreover have "p \<in> set (Head l # map Listnode ts)" "q \<in> set (map Listnode us @ [Tail l])"
    unfolding xs ys by simp_all
  then have "p \<noteq> Tail l" "q \<noteq> Head l"
    by auto
  ultimately have "list_ok ?s l (ts @ t # us)"
    using D t_off room unfolding list_ok_def new by (auto simp: between_def link_defs)
  moreover have "tln ?s n = tln s n" if "n \<notin> set (chain l (ts @ us))" "n \<noteq> Listnode t" for n
    using that unfolding old by (simp add: between_def link_defs)
  moreover have "tln_self (tln ?s n) = tln_self (tln s n)" for n
    by (simp add: between_def link_defs)
  ultimately show ?thesis
    using t D(7) by (intro lists_ok_step [OF ok l]) (auto simp: between_def link_defs)
qed

lemma remove_ok:
  assumes ok: "lists_ok s T L" and l: "L l = Some (ts @ t # us)"
    and p: "p = last (Head l # map Listnode ts)" and q: "q = hd (map Listnode us @ [Tail l])"
  shows "lists_ok (add_count l (- 1) (unlinked p (Listnode t) q s)) T (L(l \<mapsto> ts @ us))"
proof -
  let ?s = "add_count l (- 1) (unlinked p (Listnode t) q s)"
  note D = lists_okD [OF ok l]
  obtain xs where xs: "Head l # map Listnode ts = xs @ [p]"
    using p append_butlast_last_id [of "Head l # map Listnode ts"] by (metis list.distinct(1))
  obtain ys where ys: "map Listnode us @ [Tail l] = q # ys"
    using q by (cases us) auto
  have new: "chain l (ts @ us) = xs @ p # q # ys"
    unfolding chain_split xs ys by simp
  have old: "chain l (ts @ t # us) = xs @ p # Listnode t # q # ys"
    using xs ys unfolding chain_split [of l ts "t # us"] by simp
  have dist: "distinct (xs @ p # Listnode t # q # ys)"
    using D(6) distinct_chain [of l "ts @ t # us"] unfolding old by simp
  have "linked (unlinked p (Listnode t) q s) (xs @ p # q # ys)"
    using remove_links [OF D(1) [unfolded old] dist] .
  moreover have "linked ?s ns = linked (unlinked p (Listnode t) q s) ns" for ns
    by (rule linked_frame) (simp_all add: add_count_def)
  moreover have "p \<in> set (Head l # map Listnode ts)" "q \<in> set (map Listnode us @ [Tail l])"
    unfolding xs ys by simp_all
  then have "p \<noteq> Tail l" "q \<noteq> Head l"
    by auto
  ultimately have new_ok: "list_ok ?s l (ts @ us)"
    using D dist unfolding list_ok_def new by (auto simp: unlinked_def link_defs)
  have keep: "tln ?s n = tln s n" if "n \<notin> set (chain l (ts @ t # us))" for n
    using that unfolding old by (simp add: unlinked_def link_defs)
  have self: "tln_self (tln ?s n) = tln_self (tln s n)" for n
    by (simp add: unlinked_def link_defs)
  have off: "tln_next (tln ?s (Listnode t)) = None" "tln_prev (tln ?s (Listnode t)) = None"
    by (simp_all add: unlinked_def link_defs)
  show ?thesis
  proof (rule lists_ok_step [OF ok l new_ok _ _ keep _ self])
    show "tln_next (tln ?s (Listnode u)) = None \<and> tln_prev (tln ?s (Listnode u)) = None"
      if "u \<in> set (ts @ t # us)" "u \<notin> set (ts @ us)" for u
      using that off by (cases "u = t") simp_all
    show "tl_count ?s l' = tl_count s l'" if "l' \<noteq> l" for l'
      using that by (simp add: unlinked_def link_defs)
  qed (use D(7) in auto)
qed

lemma linked_pair: "linked s (xs @ p # q # ys) \<Longrightarrow> tln_next (tln s p) = Some q \<and> tln_prev (tln s q) = Some p"
  unfolding linked_append [of s xs p "q # ys"] by simp

lemma chain_pair:
  assumes "lists_ok s T L" "L l = Some (ts @ us)" "p = last (Head l # map Listnode ts)" "q = hd (map Listnode us @ [Tail l])"
  shows "tln_next (tln s p) = Some q" "tln_prev (tln s q) = Some p"
proof -
  obtain xs where xs: "Head l # map Listnode ts = xs @ [p]"
    using assms(3) append_butlast_last_id [of "Head l # map Listnode ts"] by (metis list.distinct(1))
  obtain ys where ys: "map Listnode us @ [Tail l] = q # ys"
    using assms(4) by (cases us) auto
  have "chain l (ts @ us) = xs @ p # q # ys"
    unfolding chain_split xs ys by simp
  then show "tln_next (tln s p) = Some q" "tln_prev (tln s q) = Some p"
    using linked_pair [of s xs p q ys] lists_okD(1) [OF assms(1,2)] by simp_all
qed

lemma neighbours:
  "t \<notin> set ts \<Longrightarrow> last (Head l # map Listnode ts) \<noteq> Listnode t" "t \<notin> set us \<Longrightarrow> hd (map Listnode us @ [Tail l]) \<noteq> Listnode t"
  by (cases ts rule: rev_cases; auto) (cases us; auto)

lemma insert_between:
  "tln_next (tln s p) = Some q \<Longrightarrow> p \<noteq> Listnode t \<Longrightarrow> q \<noteq> Listnode t \<Longrightarrow> threadlist_insertafternode p t s = Inr (between p (Listnode t) q s)"
  "tln_prev (tln s q) = Some p \<Longrightarrow> p \<noteq> Listnode t \<Longrightarrow> q \<noteq> Listnode t \<Longrightarrow> threadlist_insertbeforenode t q s = Inr (between p (Listnode t) q s)"
  by (simp_all add: threadlist_insertafternode_def threadlist_insertbeforenode_def between_def link_defs Let_def)

lemma remove_unlinked:
  "tln_prev (tln s n) = Some p \<Longrightarrow> tln_next (tln s n) = Some q \<Longrightarrow> p \<noteq> n \<Longrightarrow> q \<noteq> n \<Longrightarrow>
    threadlist_removenode n s = Inr (unlinked p n q s)"
  by (simp add: threadlist_removenode_def unlinked_def link_defs Let_def)

lemma links_more [simp]:
  "thread_lists.more (between p a q s) = thread_lists.more s" "thread_lists.more (unlinked p a q s) = thread_lists.more s"
  "thread_lists.more (add_count l n s) = thread_lists.more s"
  by (simp_all add: between_def unlinked_def link_defs)

text \<open>The neighbours of a place are nodes of the list.\<close>

lemma off_list_nodes:
  assumes "L l = Some (ts @ us)" "\<not> on_list L t"
  shows "last (Head l # map Listnode ts) \<noteq> Listnode t" "hd (map Listnode us @ [Tail l]) \<noteq> Listnode t"
proof -
  have "t \<notin> set (ts @ us)"
    using assms unfolding on_list_def by blast
  then show "last (Head l # map Listnode ts) \<noteq> Listnode t" "hd (map Listnode us @ [Tail l]) \<noteq> Listnode t"
    using neighbours by simp_all
qed

lemma insert_spec:
  assumes "lists_ok s T L" "L l = Some (ts @ us)" "t \<in> T" "\<not> on_list L t" "Suc (length (ts @ us)) < 2 ^ 32"
  obtains s' where "lists_ok s' T (L(l \<mapsto> ts @ t # us))" "thread_lists.more s' = thread_lists.more s"
    "rbind (threadlist_insertafternode (last (Head l # map Listnode ts)) t s) (\<lambda>s. Inr (add_count l 1 s)) = Inr s'"
    "rbind (threadlist_insertbeforenode t (hd (map Listnode us @ [Tail l])) s) (\<lambda>s. Inr (add_count l 1 s)) = Inr s'"
proof -
  let ?p = "last (Head l # map Listnode ts)" and ?q = "hd (map Listnode us @ [Tail l])"
  show thesis
    by (rule that [of "add_count l 1 (between ?p (Listnode t) ?q s)"])
      (use insert_ok [OF assms refl refl] insert_between(1) [of s ?p ?q t] insert_between(2) [of s ?q ?p t] chain_pair [OF assms(1,2) refl refl]
        off_list_nodes [OF assms(2,4)] in simp_all)
qed

lemma remove_spec:
  assumes "lists_ok s T L" "L l = Some (ts @ t # us)"
  obtains s' where "lists_ok s' T (L(l \<mapsto> ts @ us))" "thread_lists.more s' = thread_lists.more s"
    "rbind (threadlist_removenode (Listnode t) s) (\<lambda>s. Inr (add_count l (- 1) s)) = Inr s'"
    "tln_self (tln s' (Listnode t)) = Some t"
proof -
  let ?p = "last (Head l # map Listnode ts)" and ?q = "hd (map Listnode us @ [Tail l])"
  note D = lists_okD [OF assms]
  have "t \<in> T"
    using D(7) by simp
  have "tln_prev (tln s (Listnode t)) = Some ?p"
    using chain_pair(2) [OF assms, of ?p "Listnode t"] by simp
  moreover have "tln_next (tln s (Listnode t)) = Some ?q"
    using chain_pair(1) [of s T L l "ts @ [t]" us "Listnode t" ?q] assms by simp
  moreover have "?p \<noteq> Listnode t" "?q \<noteq> Listnode t"
    using D(6) neighbours by simp_all
  ultimately have "threadlist_removenode (Listnode t) s = Inr (unlinked ?p (Listnode t) ?q s)"
    by (rule remove_unlinked)
  then show thesis
    using that [of "add_count l (- 1) (unlinked ?p (Listnode t) ?q s)"] remove_ok [OF assms refl refl] \<open>t \<in> T\<close>
    by (simp add: lists_ok_def)
qed

text \<open>The public operations.\<close>

lemma threadlist_init_spec:
  assumes "lists_ok s T L" "L l = None"
  shows "lists_ok (threadlist_init l s) T (L(l \<mapsto> []))" "thread_lists.more (threadlist_init l s) = thread_lists.more s"
proof -
  let ?s = "threadlist_init l s"
  have keep: "tln ?s n = tln s n" if "n \<noteq> Head l" "n \<noteq> Tail l" for n
    using that by (simp add: threadlist_init_def)
  have on: "on_list (L(l \<mapsto> [])) t = on_list L t" for t
    using assms(2) unfolding on_list_upd unfolding on_list_def by (metis empty_iff list.set(1) option.distinct(1))
  have rest: "list_ok ?s k us" if "L k = Some us" for k us
  proof -
    have "k \<noteq> l"
      using that assms(2) by auto
    then have same: "n \<in> set (chain k us) \<Longrightarrow> tln ?s n = tln s n" for n
      by (intro keep) (auto simp: chain_def)
    then have "linked ?s (chain k us) = linked s (chain k us)"
      by (intro linked_frame) (auto dest: in_set_butlastD in_set_tl)
    then show ?thesis
      using assms(1) that same \<open>k \<noteq> l\<close> by (auto simp: lists_ok_def list_ok_def chain_def threadlist_init_def)
  qed
  have new: "list_ok ?s l []"
    by (simp add: list_ok_def chain_def threadlist_init_def)
  show "lists_ok ?s T (L(l \<mapsto> []))"
    unfolding lists_ok_def on using rest new keep assms(1) by (auto simp: lists_ok_def)
  show "thread_lists.more ?s = thread_lists.more s"
    by (simp add: threadlist_init_def)
qed

lemma threadlist_isempty_spec:
  assumes "lists_ok s T L" "L l = Some ts"
  shows "threadlist_isempty l s \<longleftrightarrow> ts = []"
proof -
  have "unat (tl_count s l) = length ts"
    using lists_okD(4,5) [OF assms] by simp
  then show ?thesis
    unfolding threadlist_isempty_def by (metis length_0_conv unat_eq_zero)
qed

lemma threadlist_addtail_spec:
  assumes "lists_ok s T L" "L l = Some ts" "t \<in> T" "\<not> on_list L t" "Suc (length ts) < 2 ^ 32"
  obtains s' where "threadlist_addtail l t s = Inr s'" "lists_ok s' T (L(l \<mapsto> ts @ [t]))" "thread_lists.more s' = thread_lists.more s"
  using insert_spec [of s T L l ts "[]" t] assms unfolding threadlist_addtail_def by auto

lemma threadlist_addhead_spec:
  assumes "lists_ok s T L" "L l = Some ts" "t \<in> T" "\<not> on_list L t" "Suc (length ts) < 2 ^ 32"
  obtains s' where "threadlist_addhead l t s = Inr s'" "lists_ok s' T (L(l \<mapsto> t # ts))" "thread_lists.more s' = thread_lists.more s"
  using insert_spec [of s T L l "[]" ts t] assms unfolding threadlist_addhead_def by auto

lemma threadlist_insertafter_spec:
  assumes "lists_ok s T L" "L l = Some (ts @ u # us)" "t \<in> T" "\<not> on_list L t" "Suc (length (ts @ u # us)) < 2 ^ 32"
  obtains s' where "threadlist_insertafter l u t s = Inr s'" "lists_ok s' T (L(l \<mapsto> ts @ u # t # us))" "thread_lists.more s' = thread_lists.more s"
  using insert_spec [of s T L l "ts @ [u]" us t] assms unfolding threadlist_insertafter_def by auto

lemma threadlist_insertbefore_spec:
  assumes "lists_ok s T L" "L l = Some (ts @ u # us)" "t \<in> T" "\<not> on_list L t" "Suc (length (ts @ u # us)) < 2 ^ 32"
  obtains s' where "threadlist_insertbefore l t u s = Inr s'" "lists_ok s' T (L(l \<mapsto> ts @ t # u # us))" "thread_lists.more s' = thread_lists.more s"
  using insert_spec [of s T L l ts "u # us" t] assms unfolding threadlist_insertbefore_def by auto

lemma threadlist_remove_spec:
  assumes "lists_ok s T L" "L l = Some (ts @ t # us)"
  obtains s' where "threadlist_remove l t s = Inr s'" "lists_ok s' T (L(l \<mapsto> ts @ us))" "thread_lists.more s' = thread_lists.more s"
  using remove_spec [OF assms] unfolding threadlist_remove_def by metis

lemma threadlist_remhead_empty:
  assumes "lists_ok s T L" "L l = Some []"
  shows "threadlist_remhead l s = Inr (None, s)" "threadlist_remtail l s = Inr (None, s)"
  using chain_pair [of s T L l "[]" "[]"] lists_okD(2,3) [OF assms] assms
  by (simp_all add: threadlist_remhead_def threadlist_remtail_def)

lemma threadlist_remhead_spec:
  assumes "lists_ok s T L" "L l = Some (t # ts)"
  obtains s' where "threadlist_remhead l s = Inr (Some t, s')" "lists_ok s' T (L(l \<mapsto> ts))" "thread_lists.more s' = thread_lists.more s"
proof -
  from remove_spec [of s T L l "[]" t ts] assms
  obtain s' where s': "lists_ok s' T (L(l \<mapsto> ts))" "thread_lists.more s' = thread_lists.more s"
      "rbind (threadlist_removenode (Listnode t) s) (\<lambda>s. Inr (add_count l (- 1) s)) = Inr s'" "tln_self (tln s' (Listnode t)) = Some t"
    by auto
  have "tln_next (tln s (Head l)) = Some (Listnode t)"
    using chain_pair(1) [of s T L l "[]" "t # ts"] assms by simp
  moreover have "tln_next (tln s (Listnode t)) \<noteq> None"
    using chain_pair(1) [of s T L l "[t]" ts] assms by simp
  ultimately have "threadlist_remhead l s = Inr (Some t, s')"
    using s'(3,4) by (auto simp: threadlist_remhead_def rbind_eq_Inr Let_def)
  then show thesis
    using that s' by blast
qed

lemma threadlist_remtail_spec:
  assumes "lists_ok s T L" "L l = Some (ts @ [t])"
  obtains s' where "threadlist_remtail l s = Inr (Some t, s')" "lists_ok s' T (L(l \<mapsto> ts))" "thread_lists.more s' = thread_lists.more s"
proof -
  from remove_spec [of s T L l ts t "[]"] assms
  obtain s' where s': "lists_ok s' T (L(l \<mapsto> ts))" "thread_lists.more s' = thread_lists.more s"
      "rbind (threadlist_removenode (Listnode t) s) (\<lambda>s. Inr (add_count l (- 1) s)) = Inr s'" "tln_self (tln s' (Listnode t)) = Some t"
    by auto
  have "tln_prev (tln s (Tail l)) = Some (Listnode t)"
    using chain_pair(2) [of s T L l "ts @ [t]" "[]"] assms by simp
  moreover have "tln_prev (tln s (Listnode t)) \<noteq> None"
    using chain_pair(2) [of s T L l ts "[t]"] assms by simp
  ultimately have "threadlist_remtail l s = Inr (Some t, s')"
    using s'(3,4) by (auto simp: threadlist_remtail_def rbind_eq_Inr Let_def)
  then show thesis
    using that s' by blast
qed

section \<open>The interface of thread lists\<close>

text \<open>
  What the thread system relies on: the store \<open>s\<close> holds the lists \<open>L\<close> of the threads \<open>T\<close>, the
  operations are the list operations on \<open>L\<close>, and they keep the rest of the state.
\<close>

locale thread_store =
  fixes rep :: "'s \<Rightarrow> nat set \<Rightarrow> (tlist \<Rightarrow> nat list option) \<Rightarrow> bool"
    and rest :: "'s \<Rightarrow> 'r"
    and addhead :: "tlist \<Rightarrow> nat \<Rightarrow> 's \<Rightarrow> 's res"
    and addtail :: "tlist \<Rightarrow> nat \<Rightarrow> 's \<Rightarrow> 's res"
    and remhead :: "tlist \<Rightarrow> 's \<Rightarrow> (nat option \<times> 's) res"
    and remtail :: "tlist \<Rightarrow> 's \<Rightarrow> (nat option \<times> 's) res"
  assumes addhead_law: "rep s T L \<Longrightarrow> L l = Some ts \<Longrightarrow> t \<in> T \<Longrightarrow> \<not> on_list L t \<Longrightarrow> Suc (length ts) < 2 ^ 32 \<Longrightarrow>
      \<exists>s'. addhead l t s = Inr s' \<and> rep s' T (L(l \<mapsto> t # ts)) \<and> rest s' = rest s"
    and addtail_law: "rep s T L \<Longrightarrow> L l = Some ts \<Longrightarrow> t \<in> T \<Longrightarrow> \<not> on_list L t \<Longrightarrow> Suc (length ts) < 2 ^ 32 \<Longrightarrow>
      \<exists>s'. addtail l t s = Inr s' \<and> rep s' T (L(l \<mapsto> ts @ [t])) \<and> rest s' = rest s"
    and remhead_law: "rep s T L \<Longrightarrow> L l = Some (t # ts) \<Longrightarrow>
      \<exists>s'. remhead l s = Inr (Some t, s') \<and> rep s' T (L(l \<mapsto> ts)) \<and> rest s' = rest s"
    and remtail_law: "rep s T L \<Longrightarrow> L l = Some (ts @ [t]) \<Longrightarrow>
      \<exists>s'. remtail l s = Inr (Some t, s') \<and> rep s' T (L(l \<mapsto> ts)) \<and> rest s' = rest s"
    and empty_law: "rep s T L \<Longrightarrow> L l = Some [] \<Longrightarrow> remhead l s = Inr (None, s) \<and> remtail l s = Inr (None, s)"
    and apart_law: "rep s T L \<Longrightarrow> L k = Some us \<Longrightarrow> L k' = Some us' \<Longrightarrow> k \<noteq> k' \<Longrightarrow> set us \<inter> set us' = {}"
    and member_law: "rep s T L \<Longrightarrow> L k = Some us \<Longrightarrow> distinct us \<and> set us \<subseteq> T"
begin

text \<open>A thread taken from its list is on no list.\<close>

lemma taken_off:
  assumes "rep s T L" "L l = Some (ts @ t # us)"
  shows "\<not> on_list (L(l \<mapsto> ts @ us)) t"
proof -
  have "t \<notin> set ts" "t \<notin> set us"
    using member_law [OF assms] by auto
  moreover have "t \<notin> set vs" if "L k = Some vs" "k \<noteq> l" for k vs
    using apart_law [OF assms(1) that(1) assms(2) that(2)] by auto
  ultimately show ?thesis
    unfolding on_list_upd by auto
qed

text \<open>
  A loop that takes the threads of a list from the head and hands each to a body returns after
  one round per thread, if the body keeps its part of the invariant and the list.
\<close>

lemma drain:
  assumes body: "\<And>t ts s L. rep s T L \<Longrightarrow> I L s \<Longrightarrow> L l = Some (t # ts) \<Longrightarrow>
      \<exists>s1 s2 L2. remhead l s = Inr (Some t, s1) \<and> body t s1 = Inr s2 \<and> rep s2 T L2 \<and> I L2 s2 \<and> L2 l = Some ts"
  shows "rep s T L \<Longrightarrow> I L s \<Longrightarrow> L l = Some ts \<Longrightarrow> length ts < n \<Longrightarrow>
    \<exists>s' L'. while_remhead n (remhead l) body s = Inr s' \<and> rep s' T L' \<and> I L' s' \<and> L' l = Some []"
proof (induction ts arbitrary: n s L)
  case Nil
  then show ?case
    using empty_law [of s T L l] by (cases n) auto
next
  case (Cons t ts)
  obtain m where n: "n = Suc m"
    using Cons.prems(4) by (cases n) auto
  obtain s1 s2 L2 where s2: "remhead l s = Inr (Some t, s1)" "body t s1 = Inr s2" "rep s2 T L2" "I L2 s2" "L2 l = Some ts"
    using body [OF Cons.prems(1-3)] by blast
  then show ?case
    using Cons.IH [OF s2(3-5), of m] Cons.prems(4) n by simp
qed

end

interpretation tl: thread_store lists_ok thread_lists.more threadlist_addhead threadlist_addtail threadlist_remhead threadlist_remtail
proof unfold_locales
  fix s :: "'a thread_lists_scheme" and T L l ts t
  show "\<exists>s'. threadlist_addhead l t s = Inr s' \<and> lists_ok s' T (L(l \<mapsto> t # ts)) \<and> thread_lists.more s' = thread_lists.more s"
    if "lists_ok s T L" "L l = Some ts" "t \<in> T" "\<not> on_list L t" "Suc (length ts) < 2 ^ 32"
    using threadlist_addhead_spec [OF that] by metis
  show "\<exists>s'. threadlist_addtail l t s = Inr s' \<and> lists_ok s' T (L(l \<mapsto> ts @ [t])) \<and> thread_lists.more s' = thread_lists.more s"
    if "lists_ok s T L" "L l = Some ts" "t \<in> T" "\<not> on_list L t" "Suc (length ts) < 2 ^ 32"
    using threadlist_addtail_spec [OF that] by metis
  show "\<exists>s'. threadlist_remhead l s = Inr (Some t, s') \<and> lists_ok s' T (L(l \<mapsto> ts)) \<and> thread_lists.more s' = thread_lists.more s"
    if "lists_ok s T L" "L l = Some (t # ts)"
    using threadlist_remhead_spec [OF that] by metis
  show "\<exists>s'. threadlist_remtail l s = Inr (Some t, s') \<and> lists_ok s' T (L(l \<mapsto> ts)) \<and> thread_lists.more s' = thread_lists.more s"
    if "lists_ok s T L" "L l = Some (ts @ [t])"
    using threadlist_remtail_spec [OF that] by metis
  show "threadlist_remhead l s = Inr (None, s) \<and> threadlist_remtail l s = Inr (None, s)" if "lists_ok s T L" "L l = Some []"
    using threadlist_remhead_empty [OF that] by simp
  show "set us \<inter> set us' = {}" if "lists_ok s T L" "L k = Some us" "L k' = Some us'" "k \<noteq> k'" for k k' us us'
    by (rule lists_ok_apart [OF that])
  show "distinct us \<and> set us \<subseteq> T" if "lists_ok s T L" "L k = Some us" for k us
    using lists_okD(6,7) [OF that] ..
qed

section \<open>Sequences of operations\<close>

datatype tlop = AddHead tlist nat | AddTail tlist nat | RemHead tlist | RemTail tlist
  | InsertAfter tlist nat nat | InsertBefore tlist nat nat | Remove tlist nat

fun tl_step :: "tlop \<Rightarrow> 'a thread_lists_scheme \<Rightarrow> (nat option \<times> 'a thread_lists_scheme) res" where
  "tl_step (AddHead l t) s = rbind (threadlist_addhead l t s) (\<lambda>s. Inr (None, s))"
| "tl_step (AddTail l t) s = rbind (threadlist_addtail l t s) (\<lambda>s. Inr (None, s))"
| "tl_step (RemHead l) s = threadlist_remhead l s"
| "tl_step (RemTail l) s = threadlist_remtail l s"
| "tl_step (InsertAfter l u t) s = rbind (threadlist_insertafter l u t s) (\<lambda>s. Inr (None, s))"
| "tl_step (InsertBefore l t u) s = rbind (threadlist_insertbefore l t u s) (\<lambda>s. Inr (None, s))"
| "tl_step (Remove l t) s = rbind (threadlist_remove l t s) (\<lambda>s. Inr (None, s))"

text \<open>The same operations on lists; \<open>None\<close> for a call the code does not provide for.\<close>

definition addable :: "nat set \<Rightarrow> (tlist \<Rightarrow> nat list option) \<Rightarrow> nat \<Rightarrow> nat list \<Rightarrow> bool" where
  "addable T L t ts \<longleftrightarrow> t \<in> T \<and> \<not> on_list L t \<and> Suc (length ts) < 2 ^ 32"

fun list_op :: "nat set \<Rightarrow> tlop \<Rightarrow> (tlist \<Rightarrow> nat list option) \<Rightarrow> tlist \<Rightarrow> nat list \<Rightarrow> (nat option \<times> nat list) option" where
  "list_op T (AddHead _ t) L l ts = (if addable T L t ts then Some (None, t # ts) else None)"
| "list_op T (AddTail _ t) L l ts = (if addable T L t ts then Some (None, ts @ [t]) else None)"
| "list_op T (RemHead _) L l ts = Some (case ts of [] \<Rightarrow> (None, []) | t # ts \<Rightarrow> (Some t, ts))"
| "list_op T (RemTail _) L l ts = Some (if ts = [] then (None, []) else (Some (last ts), butlast ts))"
| "list_op T (InsertAfter _ u t) L l ts =
     (if addable T L t ts \<and> u \<in> set ts
      then Some (None, takeWhile (\<lambda>x. x \<noteq> u) ts @ u # t # tl (dropWhile (\<lambda>x. x \<noteq> u) ts)) else None)"
| "list_op T (InsertBefore _ t u) L l ts =
     (if addable T L t ts \<and> u \<in> set ts
      then Some (None, takeWhile (\<lambda>x. x \<noteq> u) ts @ t # u # tl (dropWhile (\<lambda>x. x \<noteq> u) ts)) else None)"
| "list_op T (Remove _ t) L l ts = (if t \<in> set ts then Some (None, remove1 t ts) else None)"

fun op_list :: "tlop \<Rightarrow> tlist" where
  "op_list (AddHead l t) = l" | "op_list (AddTail l t) = l" | "op_list (RemHead l) = l" | "op_list (RemTail l) = l"
| "op_list (InsertAfter l u t) = l" | "op_list (InsertBefore l t u) = l" | "op_list (Remove l t) = l"

definition tl_spec :: "nat set \<Rightarrow> tlop \<Rightarrow> (tlist \<Rightarrow> nat list option) \<Rightarrow> (nat option \<times> (tlist \<Rightarrow> nat list option)) option" where
  "tl_spec T x L =
     (case L (op_list x) of
        None \<Rightarrow> None
      | Some ts \<Rightarrow> map_option (\<lambda>(r, ts'). (r, L(op_list x \<mapsto> ts'))) (list_op T x L (op_list x) ts))"

primrec tl_steps :: "tlop list \<Rightarrow> 'a thread_lists_scheme \<Rightarrow> (nat option list \<times> 'a thread_lists_scheme) res" where
  "tl_steps [] s = Inr ([], s)"
| "tl_steps (x # xs) s = rbind (tl_step x s) (\<lambda>(r, s). rbind (tl_steps xs s) (\<lambda>(rs, s). Inr (r # rs, s)))"

primrec tl_specs :: "nat set \<Rightarrow> tlop list \<Rightarrow> (tlist \<Rightarrow> nat list option) \<Rightarrow> (nat option list \<times> (tlist \<Rightarrow> nat list option)) option" where
  "tl_specs T [] L = Some ([], L)"
| "tl_specs T (x # xs) L =
     (case tl_spec T x L of None \<Rightarrow> None
      | Some (r, L') \<Rightarrow> map_option (\<lambda>(rs, L''). (r # rs, L'')) (tl_specs T xs L'))"

lemma split_at:
  assumes "u \<in> set ts"
  shows "ts = takeWhile (\<lambda>x. x \<noteq> u) ts @ u # tl (dropWhile (\<lambda>x. x \<noteq> u) ts)"
proof -
  have "dropWhile (\<lambda>x. x \<noteq> u) ts \<noteq> []"
    using assms by auto
  then have "dropWhile (\<lambda>x. x \<noteq> u) ts = u # tl (dropWhile (\<lambda>x. x \<noteq> u) ts)"
    using hd_dropWhile [of "\<lambda>x. x \<noteq> u" ts] by (metis list.collapse)
  then show ?thesis
    by (metis takeWhile_dropWhile_id)
qed

lemma remove1_split: "distinct (ts @ t # us) \<Longrightarrow> remove1 t (ts @ t # us) = ts @ us"
  by (auto simp: remove1_append)

lemma tl_step_spec:
  assumes "lists_ok s T L" "tl_spec T x L = Some (r, L')"
  shows "\<exists>s'. tl_step x s = Inr (r, s') \<and> lists_ok s' T L' \<and> thread_lists.more s' = thread_lists.more s"
proof -
  obtain ts ts' where ts: "L (op_list x) = Some ts" and x: "list_op T x L (op_list x) ts = Some (r, ts')" and L': "L' = L(op_list x \<mapsto> ts')"
    using assms(2) unfolding tl_spec_def by (cases "L (op_list x)") auto
  show ?thesis
  proof (cases x)
    case (InsertAfter l u t)
    then have "addable T L t ts" "u \<in> set ts" "r = None" "ts' = takeWhile (\<lambda>x. x \<noteq> u) ts @ u # t # tl (dropWhile (\<lambda>x. x \<noteq> u) ts)"
      using x by (simp_all split: if_splits)
    then show ?thesis
      using threadlist_insertafter_spec [OF assms(1), of l "takeWhile (\<lambda>x. x \<noteq> u) ts" u "tl (dropWhile (\<lambda>x. x \<noteq> u) ts)" t]
        split_at [of u ts] ts InsertAfter L' unfolding addable_def by (metis op_list.simps(5) rbind_Inr tl_step.simps(5))
  next
    case (InsertBefore l t u)
    then have "addable T L t ts" "u \<in> set ts" "r = None" "ts' = takeWhile (\<lambda>x. x \<noteq> u) ts @ t # u # tl (dropWhile (\<lambda>x. x \<noteq> u) ts)"
      using x by (simp_all split: if_splits)
    then show ?thesis
      using threadlist_insertbefore_spec [OF assms(1), of l "takeWhile (\<lambda>x. x \<noteq> u) ts" u "tl (dropWhile (\<lambda>x. x \<noteq> u) ts)" t]
        split_at [of u ts] ts InsertBefore L' unfolding addable_def by (metis op_list.simps(6) rbind_Inr tl_step.simps(6))
  next
    case (Remove l t)
    then have t: "t \<in> set ts" "r = None" "ts' = remove1 t ts"
      using x by (simp_all split: if_splits)
    obtain vs us where "ts = vs @ t # us"
      using t(1) by (auto dest: split_list)
    moreover from this have "ts' = vs @ us"
      using t(3) lists_okD(6) [OF assms(1) ts] remove1_split by simp
    ultimately show ?thesis
      using threadlist_remove_spec [OF assms(1), of l vs t us] ts t(2) Remove L' by (metis op_list.simps(7) rbind_Inr tl_step.simps(7))
  next
    case (RemTail l)
    show ?thesis
    proof (cases ts rule: rev_cases)
      case Nil
      then show ?thesis
        using x ts RemTail L' tl.empty_law [OF assms(1), of l] assms(1) by (auto simp: fun_upd_idem)
    next
      case (snoc vs t)
      then show ?thesis
        using x ts RemTail L' tl.remtail_law [OF assms(1), of l vs t] by auto
    qed
  next
    case (RemHead l)
    show ?thesis
    proof (cases ts)
      case Nil
      then show ?thesis
        using x ts RemHead L' tl.empty_law [OF assms(1), of l] assms(1) by (auto simp: fun_upd_idem)
    next
      case (Cons t vs)
      then show ?thesis
        using x ts RemHead L' tl.remhead_law [OF assms(1), of l t vs] by auto
    qed
  next
    case (AddHead l t)
    then show ?thesis
      using x ts L' tl.addhead_law [OF assms(1), of l ts t] by (auto simp: addable_def split: if_splits)
  next
    case (AddTail l t)
    then show ?thesis
      using x ts L' tl.addtail_law [OF assms(1), of l ts t] by (auto simp: addable_def split: if_splits)
  qed
qed

text \<open>
  C11: The linked thread lists implement lists. Any sequence of insertions and removals, at the ends
  and in the middle and on any of the lists, that is legal for lists (a thread is put on a list
  only while it is on none, and the neighbour named by a call is on the list) runs without
  touching a null link, returns the threads the list operations return, leaves the linked lists
  with the contents of the lists, and changes no other part of the kernel state.
\<close>

theorem threadlist_refines_lists:
  assumes "lists_ok s T L" "tl_specs T ops L = Some (rs, L')"
  shows "\<exists>s'. tl_steps ops s = Inr (rs, s') \<and> lists_ok s' T L' \<and> thread_lists.more s' = thread_lists.more s"
  using assms
proof (induction ops arbitrary: s L rs)
  case (Cons x ops)
  then obtain r L1 rs1 where L1: "tl_spec T x L = Some (r, L1)" "tl_specs T ops L1 = Some (rs1, L')" "rs = r # rs1"
    by (auto split: option.splits)
  obtain s1 where s1: "tl_step x s = Inr (r, s1)" "lists_ok s1 T L1" "thread_lists.more s1 = thread_lists.more s"
    using tl_step_spec [OF Cons.prems(1) L1(1)] by blast
  then show ?case
    using Cons.IH [OF s1(2) L1(2)] L1(3) by auto
qed simp

text \<open>Three new threads and an empty run queue.\<close>

definition example_store :: thread_lists where
  "example_store = threadlist_init (Runqueue 0) (threadlistnode_init 1 (threadlistnode_init 2 (threadlistnode_init 3
     \<lparr>tln = (\<lambda>n. \<lparr>tln_prev = None, tln_next = None, tln_self = None\<rparr>), tl_count = (\<lambda>l. 0)\<rparr>)))"

lemma example_store_ok: "lists_ok example_store {1, 2, 3} [Runqueue 0 \<mapsto> []]"
proof -
  let ?s = "threadlistnode_init 1 (threadlistnode_init 2 (threadlistnode_init 3
     \<lparr>tln = (\<lambda>n. \<lparr>tln_prev = None, tln_next = None, tln_self = None\<rparr>), tl_count = (\<lambda>l. 0)\<rparr>))"
  have "lists_ok ?s {1, 2, 3} (\<lambda>l. None)"
    by (simp add: lists_ok_def threadlistnode_init_def)
  then show ?thesis
    unfolding example_store_def by (rule threadlist_init_spec(1)) simp
qed

theorem threadlist_refines_lists_witness:
  "\<exists>s'. tl_steps [AddTail (Runqueue 0) 1, AddTail (Runqueue 0) 2, AddHead (Runqueue 0) 3, RemTail (Runqueue 0), RemHead (Runqueue 0)] example_store
     = Inr ([None, None, None, Some 2, Some 3], s') \<and> lists_ok s' {1, 2, 3} [Runqueue 0 \<mapsto> [1]]"
  using threadlist_refines_lists [OF example_store_ok,
    of "[AddTail (Runqueue 0) 1, AddTail (Runqueue 0) 2, AddHead (Runqueue 0) 3, RemTail (Runqueue 0), RemHead (Runqueue 0)]"]
  by (simp add: tl_spec_def addable_def on_list_def)

end
