(* ===== verification/Hangman.thy ===== *)
theory Hangman
  imports Kernel_Prelude
begin

text \<open>
  The deadlock detector, thread/hangman.c: who waits for which lock, and who holds which lock.
  The detector runs under its own spinlock, so each of its operations is one step. The search
  through the waits-for graph has no bound in the code; it is shown to end, because the graph of
  every reachable state is free of cycles, and to find exactly the requests that close a cycle.
\<close>

section \<open>Operations\<close>

text \<open>Actors (threads and cpus) and lockables by number; number 0 is the lock of the detector.\<close>

record hangman =
  a_waiting :: "nat \<Rightarrow> nat option"
  l_holding :: "nat \<Rightarrow> nat option"

abbreviation hangman_lock :: nat where "hangman_lock \<equiv> 0"

text \<open>The loop of \<open>hangman_check\<close>: is the target among the actors the start waits for?\<close>

partial_function (option) hangman_search :: "hangman \<Rightarrow> nat \<Rightarrow> nat option \<Rightarrow> bool option" where
  "hangman_search s target cur =
     (case cur of
        None \<Rightarrow> Some False
      | Some c \<Rightarrow>
          if c = target then Some True
          else case a_waiting s c of
                 None \<Rightarrow> Some False
               | Some l \<Rightarrow> hangman_search s target (l_holding s l))"

text \<open>\<open>hangman_check\<close> returns, or prints the cycle and panics; a search without end is \<open>OutOfFuel\<close>.\<close>

definition hangman_check :: "nat \<Rightarrow> nat \<Rightarrow> hangman \<Rightarrow> unit res" where
  "hangman_check start target s =
     (case hangman_search s target (l_holding s start) of
        None \<Rightarrow> Inl OutOfFuel
      | Some found \<Rightarrow> if found then Inl (Panic ''Deadlock.'') else Inr ())"

definition hangman_wait :: "nat \<Rightarrow> nat \<Rightarrow> hangman \<Rightarrow> hangman res" where
  "hangman_wait a l s =
     (if l = hangman_lock then Inr s
      else if a_waiting s a \<noteq> None then Inl (Panic ''hangman_wait: already waiting for something?'')
      else rbind (hangman_check l a s) (\<lambda>_. Inr (s\<lparr>a_waiting := (a_waiting s)(a := Some l)\<rparr>)))"

definition hangman_acquire :: "nat \<Rightarrow> nat \<Rightarrow> hangman \<Rightarrow> hangman res" where
  "hangman_acquire a l s =
     (if l = hangman_lock then Inr s
      else if a_waiting s a \<noteq> Some l then Inl (Panic ''hangman_acquire: not waiting for lock'')
      else if l_holding s l \<noteq> None then Inl (Panic ''hangman_acquire: lock still held'')
      else Inr (s\<lparr>l_holding := (l_holding s)(l := Some a), a_waiting := (a_waiting s)(a := None)\<rparr>))"

definition hangman_release :: "nat \<Rightarrow> nat \<Rightarrow> hangman \<Rightarrow> hangman res" where
  "hangman_release a l s =
     (if l = hangman_lock then Inr s
      else if a_waiting s a \<noteq> None then Inl (Panic ''hangman_release: waiting for something?'')
      else if l_holding s l \<noteq> Some a then Inl (Panic ''hangman_release: not the holder'')
      else Inr (s\<lparr>l_holding := (l_holding s)(l := None)\<rparr>))"

section \<open>The waits-for graph\<close>

definition waits_for :: "hangman \<Rightarrow> (nat \<times> nat) set" where
  "waits_for s = {(a, b). \<exists>l. a_waiting s a = Some l \<and> l_holding s l = Some b}"

definition hangman_ok :: "hangman \<Rightarrow> bool" where
  "hangman_ok s \<longleftrightarrow> finite {a. a_waiting s a \<noteq> None} \<and> acyclic (waits_for s)"

text \<open>States that calls of the three operations lead to.\<close>

inductive hangman_reachable :: "hangman \<Rightarrow> bool" where
  init: "hangman_reachable \<lparr>a_waiting = (\<lambda>a. None), l_holding = (\<lambda>l. None)\<rparr>"
| wait: "hangman_reachable s \<Longrightarrow> hangman_wait a l s = Inr s' \<Longrightarrow> hangman_reachable s'"
| acquire: "hangman_reachable s \<Longrightarrow> hangman_acquire a l s = Inr s' \<Longrightarrow> hangman_reachable s'"
| release: "hangman_reachable s \<Longrightarrow> hangman_release a l s = Inr s' \<Longrightarrow> hangman_reachable s'"

lemma waits_for_finite:
  assumes "finite {a. a_waiting s a \<noteq> None}"
  shows "finite (waits_for s)"
proof -
  have "waits_for s \<subseteq> (\<lambda>a. (a, the (l_holding s (the (a_waiting s a))))) ` {a. a_waiting s a \<noteq> None}"
    by (force simp: waits_for_def)
  then show ?thesis
    using finite_subset finite_imageI [OF assms] by blast
qed

lemma hangman_ok_wf:
  assumes "hangman_ok s"
  shows "wf ((waits_for s)\<inverse>)"
  using assms waits_for_finite by (auto simp: hangman_ok_def intro: finite_acyclic_wf_converse)

text \<open>The search ends, and finds the target if and only if it is reachable.\<close>

lemma hangman_search_ends:
  assumes "hangman_ok s"
  shows "hangman_search s target (Some c) = Some ((c, target) \<in> (waits_for s)\<^sup>*)"
  using hangman_ok_wf [OF assms]
proof (induction c rule: wf_induct_rule)
  case (less c)
  show ?case
  proof (cases "c = target")
    case True
    then show ?thesis
      by (subst hangman_search.simps) simp
  next
    case False
    then have step: "(c, target) \<in> (waits_for s)\<^sup>* \<longleftrightarrow> (\<exists>d. (c, d) \<in> waits_for s \<and> (d, target) \<in> (waits_for s)\<^sup>*)"
      by (meson converse_rtranclE converse_rtrancl_into_rtrancl)
    show ?thesis
    proof (cases "\<exists>l d. a_waiting s c = Some l \<and> l_holding s l = Some d")
      case True
      then obtain l d where d: "a_waiting s c = Some l" "l_holding s l = Some d"
        by blast
      then have edge: "(c, d') \<in> waits_for s \<longleftrightarrow> d' = d" for d'
        by (auto simp: waits_for_def)
      then have "hangman_search s target (Some d) = Some ((d, target) \<in> (waits_for s)\<^sup>*)"
        using less.IH [of d] by simp
      then show ?thesis
        unfolding step edge using False d by (subst hangman_search.simps) simp
    next
      case no: False
      then have "\<not> (\<exists>d. (c, d) \<in> waits_for s \<and> (d, target) \<in> (waits_for s)\<^sup>*)"
        by (auto simp: waits_for_def)
      moreover have "hangman_search s target (Some c) = Some False"
        using False no by (subst hangman_search.simps)
          (auto split: option.split simp: hangman_search.simps [of s target None])
      ultimately show ?thesis
        unfolding step by simp
    qed
  qed
qed

lemma waits_for_wait:
  assumes "a_waiting s a = None"
  shows "waits_for (s\<lparr>a_waiting := (a_waiting s)(a := Some l)\<rparr>) =
    (case l_holding s l of None \<Rightarrow> waits_for s | Some b \<Rightarrow> insert (a, b) (waits_for s))"
  using assms by (auto simp: waits_for_def split: option.split if_splits)

lemma waits_for_acquire:
  assumes "a_waiting s a = Some l" "l_holding s l = None"
  shows "waits_for (s\<lparr>l_holding := (l_holding s)(l := Some a), a_waiting := (a_waiting s)(a := None)\<rparr>)
      \<subseteq> waits_for s \<union> {(b, a) | b. b \<noteq> a}"
    "(a, b) \<notin> waits_for (s\<lparr>l_holding := (l_holding s)(l := Some a), a_waiting := (a_waiting s)(a := None)\<rparr>)"
  using assms by (auto simp: waits_for_def split: if_splits)

text \<open>Edges into a node without successors close no cycle.\<close>

lemma acyclic_sink:
  assumes "acyclic r" "r' \<subseteq> r \<union> {(b, a) | b. b \<noteq> a}" "\<And>b. (a, b) \<notin> r'"
  shows "acyclic r'"
proof (rule acyclicI, rule allI, rule notI)
  fix x
  assume x: "(x, x) \<in> r'\<^sup>+"
  have "(x, y) \<in> r'\<^sup>+ \<Longrightarrow> y \<noteq> a \<Longrightarrow> (x, y) \<in> r\<^sup>+" for y
  proof (induction rule: trancl_induct)
    case (base y)
    then show ?case
      using assms(2) by auto
  next
    case (step y z)
    then have "y \<noteq> a"
      using assms(3) by auto
    then show ?case
      using step assms(2) by (auto intro: trancl_into_trancl)
  qed
  moreover have "x \<noteq> a"
    using x assms(3) by (auto dest: tranclD)
  ultimately show False
    using x assms(1) by (auto simp: acyclic_def)
qed

lemma hangman_wait_eq:
  assumes "hangman_ok s" "a_waiting s a = None" "l \<noteq> hangman_lock"
  defines "s' \<equiv> s\<lparr>a_waiting := (a_waiting s)(a := Some l)\<rparr>"
  shows "hangman_wait a l s = (if acyclic (waits_for s') then Inr s' else Inl (Panic ''Deadlock.''))"
proof (cases "l_holding s l")
  case None
  then have "acyclic (waits_for s')"
    using assms(1) waits_for_wait [OF assms(2), of l] by (simp add: s'_def hangman_ok_def)
  moreover have "hangman_wait a l s = Inr s'"
    using None assms(2,3) by (simp add: hangman_wait_def hangman_check_def s'_def hangman_search.simps [of s a None])
  ultimately show ?thesis
    by simp
next
  case (Some b)
  then have "acyclic (waits_for s') \<longleftrightarrow> (b, a) \<notin> (waits_for s)\<^sup>*"
    using assms(1) waits_for_wait [OF assms(2), of l] by (simp add: s'_def hangman_ok_def acyclic_insert)
  then show ?thesis
    using Some assms(2,3) hangman_search_ends [OF assms(1), of a b] by (simp add: hangman_wait_def hangman_check_def s'_def)
qed

lemma hangman_reachable_ok: "hangman_reachable s \<Longrightarrow> hangman_ok s"
proof (induction rule: hangman_reachable.induct)
  case init
  show ?case
    by (simp add: hangman_ok_def waits_for_def acyclic_def)
next
  case (wait s a l s')
  show ?case
  proof (cases "l = hangman_lock \<or> a_waiting s a \<noteq> None")
    case True
    then show ?thesis
      using wait by (auto simp: hangman_wait_def split: if_splits)
  next
    case False
    let ?s = "s\<lparr>a_waiting := (a_waiting s)(a := Some l)\<rparr>"
    have "s' = ?s" "acyclic (waits_for ?s)"
      using wait hangman_wait_eq [of s a l] False by (auto split: if_splits)
    moreover have "{b. a_waiting ?s b \<noteq> None} = insert a {b. a_waiting s b \<noteq> None}"
      by auto
    ultimately show ?thesis
      using wait.IH by (simp add: hangman_ok_def)
  qed
next
  case (acquire s a l s')
  show ?case
  proof (cases "l = hangman_lock")
    case True
    then show ?thesis
      using acquire by (simp add: hangman_acquire_def)
  next
    case False
    let ?s = "s\<lparr>l_holding := (l_holding s)(l := Some a), a_waiting := (a_waiting s)(a := None)\<rparr>"
    have s': "s' = ?s" "a_waiting s a = Some l" "l_holding s l = None"
      using acquire False by (auto simp: hangman_acquire_def split: if_splits)
    have "acyclic (waits_for ?s)"
      using acyclic_sink [OF _ waits_for_acquire [OF s'(2,3)]] acquire.IH by (simp add: hangman_ok_def)
    moreover have "{b. a_waiting ?s b \<noteq> None} \<subseteq> {b. a_waiting s b \<noteq> None}"
      by auto
    then have "finite {b. a_waiting ?s b \<noteq> None}"
      using acquire.IH finite_subset unfolding hangman_ok_def by blast
    ultimately show ?thesis
      using s'(1) by (simp add: hangman_ok_def)
  qed
next
  case (release s a l s')
  then have s': "s' = s \<or> s' = s\<lparr>l_holding := (l_holding s)(l := None)\<rparr>"
    by (auto simp: hangman_release_def split: if_splits)
  then have "waits_for s' \<subseteq> waits_for s" "a_waiting s' = a_waiting s"
    by (auto simp: waits_for_def split: if_splits)
  then show ?case
    using release.IH acyclic_subset unfolding hangman_ok_def by metis
qed

text \<open>
  C12: The deadlock detector is exact and always answers. In every state it can be in, announcing
  that an idle actor waits for a lock ends: with the wait recorded if the waits-for graph stays
  free of cycles, and with the panic \<open>Deadlock.\<close> if and only if the wait closes a cycle.
\<close>

theorem hangman_wait_exact:
  assumes "hangman_reachable s" "a_waiting s a = None" "l \<noteq> hangman_lock"
  shows "hangman_wait a l s =
    (let s' = s\<lparr>a_waiting := (a_waiting s)(a := Some l)\<rparr> in if acyclic (waits_for s') then Inr s' else Inl (Panic ''Deadlock.''))"
  using hangman_wait_eq [OF hangman_reachable_ok [OF assms(1)] assms(2,3)] by (simp add: Let_def)

text \<open>Actor 1 holds lock 1 and waits for lock 2, which actor 2 holds.\<close>

definition example_waits :: hangman where
  "example_waits = \<lparr>a_waiting = [1 \<mapsto> 2], l_holding = [1 \<mapsto> 1, 2 \<mapsto> 2]\<rparr>"

lemma example_waits_reachable: "hangman_reachable example_waits"
proof -
  have free: "hangman_search s t None = Some False" for s t
    by (simp add: hangman_search.simps)
  have "hangman_reachable \<lparr>a_waiting = [1 \<mapsto> 1], l_holding = (\<lambda>l. None)\<rparr>"
    using hangman_reachable.wait [OF hangman_reachable.init, of 1 1] by (simp add: hangman_wait_def hangman_check_def free)
  then have "hangman_reachable \<lparr>a_waiting = (\<lambda>a. None), l_holding = [1 \<mapsto> 1]\<rparr>"
    by (rule hangman_reachable.acquire [where a = 1 and l = 1]) (auto simp: hangman_acquire_def)
  then have "hangman_reachable \<lparr>a_waiting = [2 \<mapsto> 2], l_holding = [1 \<mapsto> 1]\<rparr>"
    by (rule hangman_reachable.wait [where a = 2 and l = 2]) (auto simp: hangman_wait_def hangman_check_def free)
  then have "hangman_reachable \<lparr>a_waiting = (\<lambda>a. None), l_holding = [1 \<mapsto> 1, 2 \<mapsto> 2]\<rparr>"
    by (rule hangman_reachable.acquire [where a = 2 and l = 2]) (auto simp: hangman_acquire_def)
  moreover have "hangman_search \<lparr>a_waiting = (\<lambda>a. None), l_holding = [1 \<mapsto> 1, 2 \<mapsto> 2]\<rparr> 1 (Some 2) = Some False"
    by (simp add: hangman_search.simps)
  ultimately show ?thesis
    using hangman_reachable.wait [of _ 1 2] unfolding example_waits_def by (simp add: hangman_wait_def hangman_check_def)
qed

theorem hangman_wait_exact_witness: "hangman_wait 2 1 example_waits = Inl (Panic ''Deadlock.'')"
proof -
  let ?s = "example_waits\<lparr>a_waiting := (a_waiting example_waits)(2 := Some 1)\<rparr>"
  have "(1, 2) \<in> waits_for ?s" "(2, 1) \<in> waits_for ?s"
    by (simp_all add: waits_for_def example_waits_def)
  then have "(1, 1) \<in> (waits_for ?s)\<^sup>+"
    by (meson trancl.simps)
  then have "\<not> acyclic (waits_for ?s)"
    by (auto simp: acyclic_def)
  then show ?thesis
    using hangman_wait_exact [OF example_waits_reachable, of 2 1] by (simp add: example_waits_def)
qed

end
