(* ===== verification/Spinlock.thy ===== *)
theory Spinlock
  imports Hangman
begin

text \<open>
  Interrupt priority levels and spinlocks, thread/spl.c, thread/spinlock.c and the machine part of
  arch/mips/include/spinlock.h. First one cpu that runs alone, with the counting of the reasons to
  keep interrupts off; then many cpus that compete for one lock word with the load-linked and
  store-conditional instructions.
\<close>

section \<open>Interrupt levels\<close>

abbreviation IPL_NONE :: int where "IPL_NONE \<equiv> 0"
abbreviation IPL_HIGH :: int where "IPL_HIGH \<equiv> 1"

text \<open>The fields of the current thread, and whether the processor takes interrupts.\<close>

record spl_state =
  curcpu_exists :: bool
  t_curspl :: int
  t_iplhigh_count :: int
  irq_on :: bool

definition splraise :: "int \<Rightarrow> int \<Rightarrow> 'a spl_state_scheme \<Rightarrow> 'a spl_state_scheme res" where
  "splraise oldspl newspl s =
     kassert (oldspl = IPL_NONE) (
     kassert (newspl = IPL_HIGH) (
     if \<not> curcpu_exists s then Inr s
     else
       let s = (if t_iplhigh_count s = 0 then s\<lparr>irq_on := False\<rparr> else s)
       in Inr (s\<lparr>t_iplhigh_count := t_iplhigh_count s + 1\<rparr>)))"

definition spllower :: "int \<Rightarrow> int \<Rightarrow> 'a spl_state_scheme \<Rightarrow> 'a spl_state_scheme res" where
  "spllower oldspl newspl s =
     kassert (oldspl = IPL_HIGH) (
     kassert (newspl = IPL_NONE) (
     if \<not> curcpu_exists s then Inr s
     else
       let s = s\<lparr>t_iplhigh_count := t_iplhigh_count s - 1\<rparr>
       in Inr (if t_iplhigh_count s = 0 then s\<lparr>irq_on := True\<rparr> else s)))"

definition splx :: "int \<Rightarrow> 'a spl_state_scheme \<Rightarrow> (int \<times> 'a spl_state_scheme) res" where
  "splx spl s =
     (if \<not> curcpu_exists s then Inr (spl, s)
      else if t_curspl s < spl then
        rbind (splraise (t_curspl s) spl s) (\<lambda>s'. Inr (t_curspl s, s'\<lparr>t_curspl := spl\<rparr>))
      else if t_curspl s > spl then
        let ret = t_curspl s
        in rbind (spllower ret spl (s\<lparr>t_curspl := spl\<rparr>)) (\<lambda>s. Inr (ret, s))
      else Inr (spl, s))"

definition spl0 :: "'a spl_state_scheme \<Rightarrow> (int \<times> 'a spl_state_scheme) res" where
  "spl0 = splx IPL_NONE"

definition splhigh :: "'a spl_state_scheme \<Rightarrow> (int \<times> 'a spl_state_scheme) res" where
  "splhigh = splx IPL_HIGH"

section \<open>Spinlocks on one cpu\<close>

record spinlock =
  splk_lock :: u32
  splk_holder :: "nat option"

text \<open>
  The locks by number, the lock of the deadlock detector being number 0, with the detector. Its
  own uses of that lock are balanced and not repeated here.
\<close>

record cpu_locks = spl_state +
  c_spinlocks :: u32
  locks :: "nat \<Rightarrow> spinlock"
  hang :: hangman

definition spinlock_init :: "nat \<Rightarrow> 'a cpu_locks_scheme \<Rightarrow> 'a cpu_locks_scheme" where
  "spinlock_init i s =
     s\<lparr>locks := (locks s)(i := \<lparr>splk_lock = 0, splk_holder = None\<rparr>),
       hang := (hang s)\<lparr>l_holding := (l_holding (hang s))(i := None)\<rparr>\<rparr>"

definition spinlock_cleanup :: "nat \<Rightarrow> 'a cpu_locks_scheme \<Rightarrow> unit res" where
  "spinlock_cleanup i s =
     kassert (splk_holder (locks s i) = None) (kassert (splk_lock (locks s i) = 0) (Inr ()))"

text \<open>On a cpu that runs alone a lock word that is not 0 never changes, and the loop spins forever.\<close>

definition spinlock_acquire :: "nat \<Rightarrow> nat \<Rightarrow> 'a cpu_locks_scheme \<Rightarrow> 'a cpu_locks_scheme res" where
  "spinlock_acquire me i s =
     rbind (splraise IPL_NONE IPL_HIGH s) (\<lambda>s.
     rbind (if curcpu_exists s then
              if splk_holder (locks s i) = Some me then Inl (Panic ''Deadlock on spinlock'')
              else
                let s = s\<lparr>c_spinlocks := c_spinlocks s + 1\<rparr>
                in rbind (hangman_wait me i (hang s)) (\<lambda>h. Inr (s\<lparr>hang := h\<rparr>))
            else Inr s) (\<lambda>s.
     if splk_lock (locks s i) \<noteq> 0 then Inl Blocked
     else
       let s = s\<lparr>locks := (locks s)(i := \<lparr>splk_lock = 1, splk_holder = (if curcpu_exists s then Some me else None)\<rparr>)\<rparr>
       in if curcpu_exists s then rbind (hangman_acquire me i (hang s)) (\<lambda>h. Inr (s\<lparr>hang := h\<rparr>))
          else Inr s))"

definition spinlock_release :: "nat \<Rightarrow> nat \<Rightarrow> 'a cpu_locks_scheme \<Rightarrow> 'a cpu_locks_scheme res" where
  "spinlock_release me i s =
     rbind (if curcpu_exists s then
              kassert (splk_holder (locks s i) = Some me) (
              kassert (c_spinlocks s > 0) (
              let s = s\<lparr>c_spinlocks := c_spinlocks s - 1\<rparr>
              in rbind (hangman_release me i (hang s)) (\<lambda>h. Inr (s\<lparr>hang := h\<rparr>))))
            else Inr s) (\<lambda>s.
     spllower IPL_HIGH IPL_NONE (s\<lparr>locks := (locks s)(i := \<lparr>splk_lock = 0, splk_holder = None\<rparr>)\<rparr>))"

definition spinlock_do_i_hold :: "nat \<Rightarrow> nat \<Rightarrow> 'a cpu_locks_scheme \<Rightarrow> bool" where
  "spinlock_do_i_hold me i s \<longleftrightarrow> (if \<not> curcpu_exists s then True else splk_holder (locks s i) = Some me)"

section \<open>Nesting\<close>

text \<open>
  The state of cpu \<open>me\<close> while it holds the locks \<open>H\<close> and no other cpu holds one: the counter
  \<open>t_iplhigh_count\<close> counts the locks and the current level, and interrupts are on exactly when
  it is 0.
\<close>

definition locks_ok :: "nat \<Rightarrow> nat set \<Rightarrow> 'a cpu_locks_scheme \<Rightarrow> bool" where
  "locks_ok me H s \<longleftrightarrow> curcpu_exists s \<and> finite H \<and> card H < 2 ^ 32 \<and> t_curspl s \<in> {IPL_NONE, IPL_HIGH} \<and>
     t_iplhigh_count s = int (card H) + t_curspl s \<and> (irq_on s \<longleftrightarrow> t_iplhigh_count s = 0) \<and>
     c_spinlocks s = of_nat (card H) \<and>
     (\<forall>i. locks s i = (if i \<in> H then \<lparr>splk_lock = 1, splk_holder = Some me\<rparr> else \<lparr>splk_lock = 0, splk_holder = None\<rparr>)) \<and>
     a_waiting (hang s) = (\<lambda>a. None) \<and>
     (\<forall>i. l_holding (hang s) i = (if i \<in> H \<and> i \<noteq> hangman_lock then Some me else None))"

lemma locks_okD:
  assumes "locks_ok me H s"
  shows "curcpu_exists s" "finite H" "card H < 2 ^ 32" "t_curspl s = IPL_NONE \<or> t_curspl s = IPL_HIGH"
    "t_iplhigh_count s = int (card H) + t_curspl s" "irq_on s \<longleftrightarrow> t_iplhigh_count s = 0" "c_spinlocks s = of_nat (card H)"
    "i \<in> H \<Longrightarrow> locks s i = \<lparr>splk_lock = 1, splk_holder = Some me\<rparr>"
    "i \<notin> H \<Longrightarrow> locks s i = \<lparr>splk_lock = 0, splk_holder = None\<rparr>"
    "a_waiting (hang s) = (\<lambda>a. None)"
    "l_holding (hang s) i = (if i \<in> H \<and> i \<noteq> hangman_lock then Some me else None)"
  using assms by (auto simp: locks_ok_def)

lemma splx_locks:
  assumes "locks_ok me H s" "spl \<in> {IPL_NONE, IPL_HIGH}"
  shows "\<exists>s'. splx spl s = Inr (t_curspl s, s') \<and> locks_ok me H s' \<and> t_curspl s' = spl"
proof -
  note D = locks_okD [OF assms(1)]
  consider "t_curspl s = spl" | "t_curspl s = IPL_NONE" "spl = IPL_HIGH" | "t_curspl s = IPL_HIGH" "spl = IPL_NONE"
    using D(4) assms(2) by auto
  then show ?thesis
  proof cases
    case 1
    then show ?thesis
      using assms(1) D(1) by (simp add: splx_def)
  next
    case 2
    then show ?thesis
      using assms(1) D(1,5,6) by (simp add: splx_def splraise_def Let_def locks_ok_def)
  next
    case 3
    then show ?thesis
      using assms(1) D(1,5,6) by (simp add: splx_def spllower_def Let_def locks_ok_def)
  qed
qed

lemma hangman_free: "l_holding h i = None \<Longrightarrow> a_waiting h me = None \<Longrightarrow>
    hangman_wait me i h = Inr (if i = hangman_lock then h else h\<lparr>a_waiting := (a_waiting h)(me := Some i)\<rparr>)"
  by (simp add: hangman_wait_def hangman_check_def hangman_search.simps)

lemma hangman_free_acquire:
  assumes "l_holding h i = None" "a_waiting h = (\<lambda>a. None)" "hangman_wait me i h = Inr h'"
  shows "hangman_acquire me i h' = Inr (if i = hangman_lock then h else h\<lparr>l_holding := (l_holding h)(i := Some me)\<rparr>)"
proof (cases "i = hangman_lock")
  case True
  then show ?thesis
    using assms(3) by (simp add: hangman_wait_def hangman_acquire_def)
next
  case False
  then have "h' = h\<lparr>a_waiting := (a_waiting h)(me := Some i)\<rparr>"
    using hangman_free [of h i me] assms by simp
  then show ?thesis
    using assms(1,2) False by (cases h) (simp add: hangman_acquire_def fun_upd_idem)
qed

lemma spinlock_acquire_locks:
  assumes "locks_ok me H s" "i \<notin> H" "Suc (card H) < 2 ^ 32"
  shows "\<exists>s'. spinlock_acquire me i s = Inr s' \<and> locks_ok me (insert i H) s' \<and> t_curspl s' = t_curspl s"
proof -
  note D = locks_okD [OF assms(1)]
  have lock: "locks s i = \<lparr>splk_lock = 0, splk_holder = None\<rparr>" and free: "l_holding (hang s) i = None"
    using D(9,11) assms(2) by simp_all
  let ?h = "if i = hangman_lock then hang s else (hang s)\<lparr>l_holding := (l_holding (hang s))(i := Some me)\<rparr>"
  let ?s = "s\<lparr>irq_on := False, t_iplhigh_count := t_iplhigh_count s + 1, c_spinlocks := c_spinlocks s + 1,
      locks := (locks s)(i := \<lparr>splk_lock = 1, splk_holder = Some me\<rparr>), hang := ?h\<rparr>"
  have "hangman_wait me i (hang s) = Inr h \<Longrightarrow> hangman_acquire me i h = Inr ?h" for h
    using hangman_free_acquire [OF free D(10)] .
  moreover have "splraise IPL_NONE IPL_HIGH s = Inr (s\<lparr>irq_on := False, t_iplhigh_count := t_iplhigh_count s + 1\<rparr>)"
    using D(1,6) by (cases s) (simp add: splraise_def)
  ultimately have "spinlock_acquire me i s = Inr ?s"
    using D(1,10) lock hangman_free [OF free, of me] by (simp add: spinlock_acquire_def Let_def)
  moreover have "locks_ok me (insert i H) ?s"
    using D assms(2,3) by (auto simp: locks_ok_def)
  ultimately show ?thesis
    by (intro exI [of _ ?s]) simp
qed

lemma spinlock_release_locks:
  assumes "locks_ok me H s" "i \<in> H"
  shows "\<exists>s'. spinlock_release me i s = Inr s' \<and> locks_ok me (H - {i}) s' \<and> t_curspl s' = t_curspl s"
proof -
  note D = locks_okD [OF assms(1)]
  have lock: "locks s i = \<lparr>splk_lock = 1, splk_holder = Some me\<rparr>"
    using D(8) assms(2) by simp
  have card: "card H = Suc (card (H - {i}))"
    using card_Suc_Diff1 [OF D(2) assms(2)] by simp
  let ?h = "if i = hangman_lock then hang s else (hang s)\<lparr>l_holding := (l_holding (hang s))(i := None)\<rparr>"
  let ?s = "s\<lparr>t_iplhigh_count := t_iplhigh_count s - 1, irq_on := (t_iplhigh_count s = 1), c_spinlocks := c_spinlocks s - 1,
      locks := (locks s)(i := \<lparr>splk_lock = 0, splk_holder = None\<rparr>), hang := ?h\<rparr>"
  have "hangman_release me i (hang s) = Inr ?h"
    using D(10) D(11) [of i] assms(2) by (simp add: hangman_release_def)
  moreover have "c_spinlocks s > 0"
    using D(3,7) card by (metis neq0_conv of_nat_eq_0_iff unat_0 unat_of_nat_u32 word_gt_0 zero_less_Suc)
  moreover have "spllower IPL_HIGH IPL_NONE (s\<lparr>c_spinlocks := c_spinlocks s - 1, hang := ?h,
      locks := (locks s)(i := \<lparr>splk_lock = 0, splk_holder = None\<rparr>)\<rparr>) = Inr ?s"
    using D(1,4-6) card by (cases s) (auto simp: spllower_def Let_def)
  ultimately have "spinlock_release me i s = Inr ?s"
    using D(1) lock by (simp add: spinlock_release_def Let_def)
  moreover have "locks_ok me (H - {i}) ?s"
    using D card by (auto simp: locks_ok_def)
  ultimately show ?thesis
    by (intro exI [of _ ?s]) simp
qed

text \<open>The calls a cpu makes, and the locks it holds after them; \<open>None\<close> for a misuse.\<close>

datatype lock_op = Acquire nat | Release nat | Splx int

fun lock_step :: "nat \<Rightarrow> lock_op \<Rightarrow> 'a cpu_locks_scheme \<Rightarrow> 'a cpu_locks_scheme res" where
  "lock_step me (Acquire i) s = spinlock_acquire me i s"
| "lock_step me (Release i) s = spinlock_release me i s"
| "lock_step me (Splx spl) s = rbind (splx spl s) (\<lambda>(r, s). Inr s)"

fun held_after :: "lock_op \<Rightarrow> nat set \<times> int \<Rightarrow> (nat set \<times> int) option" where
  "held_after (Acquire i) (H, spl) = (if i \<notin> H \<and> Suc (card H) < 2 ^ 32 then Some (insert i H, spl) else None)"
| "held_after (Release i) (H, spl) = (if i \<in> H then Some (H - {i}, spl) else None)"
| "held_after (Splx spl') (H, spl) = (if spl' \<in> {IPL_NONE, IPL_HIGH} then Some (H, spl') else None)"

primrec held_afters :: "lock_op list \<Rightarrow> nat set \<times> int \<Rightarrow> (nat set \<times> int) option" where
  "held_afters [] x = Some x"
| "held_afters (op # ops) x = (case held_after op x of None \<Rightarrow> None | Some y \<Rightarrow> held_afters ops y)"

lemma lock_step_locks:
  assumes "locks_ok me H s" "held_after op (H, t_curspl s) = Some (H1, spl1)"
  shows "\<exists>s1. lock_step me op s = Inr s1 \<and> locks_ok me H1 s1 \<and> t_curspl s1 = spl1"
proof (cases op)
  case (Acquire i)
  then have "i \<notin> H" "Suc (card H) < 2 ^ 32" "H1 = insert i H" "spl1 = t_curspl s"
    using assms(2) by (auto split: if_splits)
  then show ?thesis
    using Acquire spinlock_acquire_locks [OF assms(1)] by simp
next
  case (Release i)
  then have "i \<in> H" "H1 = H - {i}" "spl1 = t_curspl s"
    using assms(2) by (auto split: if_splits)
  then show ?thesis
    using Release spinlock_release_locks [OF assms(1)] by simp
next
  case (Splx spl)
  then have "spl \<in> {IPL_NONE, IPL_HIGH}" "H1 = H" "spl1 = spl"
    using assms(2) by (auto split: if_splits)
  then show ?thesis
    using Splx splx_locks [OF assms(1), of spl] by auto
qed

text \<open>
  C13: The interrupt state of a cpu is well-typed and counts correctly. For every sequence of spinlock
  acquisitions and releases, in any order and not necessarily nested, and of \<open>splx\<close> calls between them,
  in which no lock is taken twice and only held locks are released: no assertion of the lock
  code fails, the level is always \<open>IPL_NONE\<close> or \<open>IPL_HIGH\<close>, the counters agree with the set of
  held locks, and interrupts are on at the end exactly if no lock is held and the level is \<open>IPL_NONE\<close>.
\<close>

theorem spl_nesting:
  assumes "locks_ok me H s" "held_afters ops (H, t_curspl s) = Some (H', spl)"
  shows "\<exists>s'. rfold (lock_step me) ops s = Inr s' \<and> locks_ok me H' s' \<and> t_curspl s' = spl \<and> (irq_on s' \<longleftrightarrow> H' = {} \<and> spl = IPL_NONE)"
  using assms
proof (induction ops arbitrary: s H)
  case Nil
  then show ?case
    using locks_okD [OF Nil.prems(1)] by auto
next
  case (Cons op ops)
  obtain H1 spl1 where h: "held_after op (H, t_curspl s) = Some (H1, spl1)" "held_afters ops (H1, spl1) = Some (H', spl)"
    using Cons.prems(2) by (auto split: option.splits)
  obtain s1 where s1: "lock_step me op s = Inr s1" "locks_ok me H1 s1" "t_curspl s1 = spl1"
    using lock_step_locks [OF Cons.prems(1) h(1)] by blast
  then show ?case
    using Cons.IH [OF s1(2)] h(2) by simp
qed

text \<open>The example of the comment in thread/spl.c: red is lock 1, blue is lock 2.\<close>

definition example_cpu :: cpu_locks where
  "example_cpu = \<lparr>curcpu_exists = True, t_curspl = IPL_NONE, t_iplhigh_count = 0, irq_on = True, c_spinlocks = 0,
     locks = (\<lambda>i. \<lparr>splk_lock = 0, splk_holder = None\<rparr>), hang = \<lparr>a_waiting = (\<lambda>a. None), l_holding = (\<lambda>l. None)\<rparr>\<rparr>"

theorem spl_nesting_witness:
  "\<exists>s'. rfold (lock_step 0) [Acquire 1, Splx IPL_HIGH, Acquire 2, Splx IPL_NONE, Release 1] example_cpu = Inr s' \<and> \<not> irq_on s'"
proof -
  have "locks_ok 0 {} example_cpu" "t_curspl example_cpu = IPL_NONE"
    by (simp_all add: locks_ok_def example_cpu_def)
  moreover have "{2, Suc 0} - {Suc 0} = {2 :: nat}"
    by auto
  ultimately show ?thesis
    using spl_nesting [of 0 "{}" example_cpu "[Acquire 1, Splx IPL_HIGH, Acquire 2, Splx IPL_NONE, Release 1]" "{2}" IPL_NONE] by auto
qed

section \<open>Many cpus and one lock\<close>

text \<open>
  Where a cpu is in \<open>spinlock_acquire\<close> or \<open>spinlock_release\<close>: reading the lock word, before the
  \<open>ll\<close>, between \<open>ll\<close> (which loaded the word) and \<open>sc\<close>, after a test-and-set that returned 0, holding
  the lock, and between clearing the holder and clearing the word.
\<close>

datatype spin_pc = Outside | Reading | BeforeLL | BeforeSC u32 | Won | Holding | Leaving

text \<open>The lock, the program counters, and the cpus whose link to the lock word is still set.\<close>

record spin_system =
  word :: u32
  holder :: "nat option"
  pc :: "nat \<Rightarrow> spin_pc"
  link :: "nat \<Rightarrow> bool"

definition goto :: "nat \<Rightarrow> spin_pc \<Rightarrow> spin_system \<Rightarrow> spin_system" where
  "goto c p s = s\<lparr>pc := (pc s)(c := p)\<rparr>"

text \<open>A store to the lock word clears the link of every cpu.\<close>

definition store_word :: "u32 \<Rightarrow> spin_system \<Rightarrow> spin_system" where
  "store_word w s = s\<lparr>word := w, link := (\<lambda>c. False)\<rparr>"

text \<open>The store-conditional of \<open>spinlock_data_testandset\<close>: a broken link counts as a lock that is held.\<close>

definition testandset_sc :: "nat \<Rightarrow> u32 \<Rightarrow> spin_system \<Rightarrow> spin_system" where
  "testandset_sc c x s =
     (if link s c then goto c (if x \<noteq> 0 then Reading else Won) (store_word 1 s) else goto c Reading s)"

inductive spin_step :: "spin_system \<Rightarrow> spin_system \<Rightarrow> bool" where
  acquire: "pc s c = Outside \<Longrightarrow> holder s \<noteq> Some c \<Longrightarrow> spin_step s (goto c Reading s)"
| busy: "pc s c = Reading \<Longrightarrow> word s \<noteq> 0 \<Longrightarrow> spin_step s s"
| seen_free: "pc s c = Reading \<Longrightarrow> word s = 0 \<Longrightarrow> spin_step s (goto c BeforeLL s)"
| ll: "pc s c = BeforeLL \<Longrightarrow> spin_step s (goto c (BeforeSC (word s)) (s\<lparr>link := (link s)(c := True)\<rparr>))"
| link_lost: "spin_step s (s\<lparr>link := (link s)(c := False)\<rparr>)"
| sc: "pc s c = BeforeSC x \<Longrightarrow> spin_step s (testandset_sc c x s)"
| own: "pc s c = Won \<Longrightarrow> spin_step s (goto c Holding (s\<lparr>holder := Some c\<rparr>))"
| release: "pc s c = Holding \<Longrightarrow> holder s = Some c \<Longrightarrow> spin_step s (goto c Leaving (s\<lparr>holder := None\<rparr>))"
| unlock: "pc s c = Leaving \<Longrightarrow> spin_step s (goto c Outside (store_word 0 s))"

definition spin_init :: spin_system where
  "spin_init = \<lparr>word = 0, holder = None, pc = (\<lambda>c. Outside), link = (\<lambda>c. False)\<rparr>"

inductive spin_reachable :: "spin_system \<Rightarrow> bool" where
  start: "spin_reachable spin_init"
| step: "spin_reachable s \<Longrightarrow> spin_step s s' \<Longrightarrow> spin_reachable s'"

definition inside :: "spin_pc \<Rightarrow> bool" where
  "inside p \<longleftrightarrow> p = Won \<or> p = Holding \<or> p = Leaving"

definition spin_ok :: "spin_system \<Rightarrow> bool" where
  "spin_ok s \<longleftrightarrow>
     (\<forall>c d. inside (pc s c) \<and> inside (pc s d) \<longrightarrow> c = d) \<and>
     word s = (if \<exists>c. inside (pc s c) then 1 else 0) \<and>
     (\<forall>c. holder s = Some c \<longleftrightarrow> pc s c = Holding) \<and>
     (\<forall>c x. pc s c = BeforeSC x \<and> link s c \<longrightarrow> x = word s)"

lemma inside_simps [simp]:
  "inside Won" "inside Holding" "inside Leaving" "\<not> inside Outside" "\<not> inside Reading" "\<not> inside BeforeLL" "\<not> inside (BeforeSC x)"
  by (simp_all add: inside_def)

text \<open>Moves that leave the lock alone.\<close>

lemma spin_ok_goto:
  assumes "spin_ok s" "\<not> inside (pc s c)" "\<not> inside p" "\<And>x. p = BeforeSC x \<Longrightarrow> link s c \<Longrightarrow> x = word s"
  shows "spin_ok (goto c p s)"
  using assms unfolding spin_ok_def goto_def by (auto split: if_splits) (metis inside_simps(2))+

lemma spin_ok_link:
  assumes "spin_ok s"
  shows "spin_ok (s\<lparr>link := (link s)(c := False)\<rparr>)"
  using assms by (auto simp: spin_ok_def split: if_splits)

text \<open>States with one cpu inside, and with none.\<close>

lemma spin_ok_one:
  assumes "\<And>d. inside (pc s d) \<longleftrightarrow> d = c" "word s = 1" "\<And>d. holder s = Some d \<longleftrightarrow> pc s d = Holding"
    and "\<And>d x. pc s d = BeforeSC x \<Longrightarrow> link s d \<Longrightarrow> x = word s"
  shows "spin_ok s"
  unfolding spin_ok_def by (intro conjI) (use assms in auto)

lemma spin_ok_none:
  assumes "\<And>d. \<not> inside (pc s d)" "word s = 0" "holder s = None" "\<And>d x. pc s d = BeforeSC x \<Longrightarrow> link s d \<Longrightarrow> x = word s"
  shows "spin_ok s"
proof -
  have "pc s d \<noteq> Holding" for d
    using assms(1) [of d] by (metis inside_simps(2))
  then show ?thesis
    unfolding spin_ok_def by (intro conjI) (use assms in auto)
qed

lemma spin_ok_others:
  assumes "spin_ok s" "inside (pc s c)"
  shows "word s = 1" "inside (pc s d) \<longleftrightarrow> d = c" "holder s = Some d \<longleftrightarrow> pc s d = Holding" "pc s d = BeforeSC x \<Longrightarrow> link s d \<Longrightarrow> x = word s"
  using assms by (auto simp: spin_ok_def)

lemma spin_ok_sc:
  assumes "spin_ok s" "pc s c = BeforeSC x"
  shows "spin_ok (testandset_sc c x s)"
proof (cases "link s c")
  case False
  then show ?thesis
    using assms spin_ok_goto [OF assms(1), of c Reading] by (simp add: testandset_sc_def)
next
  case True
  then have x: "x = word s"
    using assms unfolding spin_ok_def by blast
  show ?thesis
  proof (cases "word s = 0")
    case free: True
    have out: "\<not> inside (pc s d)" for d
      using assms(1) free by (auto simp: spin_ok_def split: if_splits)
    then have "pc s d \<noteq> Holding" for d
      by (metis inside_simps(2))
    moreover from this have "holder s \<noteq> Some d" for d
      using assms(1) unfolding spin_ok_def by blast
    ultimately show ?thesis
      using True free x out by (intro spin_ok_one [of _ c]) (auto simp: testandset_sc_def goto_def store_word_def)
  next
    case False
    then have "spin_ok (store_word 1 s)"
      using assms(1) by (auto simp: spin_ok_def store_word_def split: if_splits)
    from spin_ok_goto [OF this, of c Reading] show ?thesis
      using assms(2) True False x by (simp add: testandset_sc_def store_word_def)
  qed
qed

lemma spin_ok_enter:
  assumes "spin_ok s" "pc s c = Won"
  shows "spin_ok (goto c Holding (s\<lparr>holder := Some c\<rparr>))"
proof -
  note o = spin_ok_others [OF assms(1), of c, unfolded assms(2), simplified]
  have "pc s d \<noteq> Holding" if "d \<noteq> c" for d
    using o(2) [of d] that by (metis inside_simps(2))
  then show ?thesis
    using o by (intro spin_ok_one [of _ c]) (auto simp: goto_def split: if_splits)
qed

lemma spin_ok_leave:
  assumes "spin_ok s" "pc s c = Holding"
  shows "spin_ok (goto c Leaving (s\<lparr>holder := None\<rparr>))"
proof -
  note o = spin_ok_others [OF assms(1), of c, unfolded assms(2), simplified]
  have "pc s d \<noteq> Holding" if "d \<noteq> c" for d
    using o(2) [of d] that by (metis inside_simps(2))
  then show ?thesis
    using o by (intro spin_ok_one [of _ c]) (auto simp: goto_def split: if_splits)
qed

lemma spin_ok_unlock:
  assumes "spin_ok s" "pc s c = Leaving"
  shows "spin_ok (goto c Outside (store_word 0 s))"
proof -
  note o = spin_ok_others [OF assms(1), of c, unfolded assms(2), simplified]
  have "pc s d \<noteq> Holding" for d
    using o(2) [of d] assms(2) by (cases "d = c"; cases "pc s d"; simp)
  then have "holder s = None"
    using o(3) by (metis not_Some_eq)
  then show ?thesis
    using o by (intro spin_ok_none) (auto simp: goto_def store_word_def split: if_splits)
qed

lemma spin_ok_ll:
  assumes "spin_ok s" "pc s c = BeforeLL"
  shows "spin_ok (goto c (BeforeSC (word s)) (s\<lparr>link := (link s)(c := True)\<rparr>))"
proof -
  have "spin_ok (s\<lparr>link := (link s)(c := True)\<rparr>)"
    using assms by (auto simp: spin_ok_def split: if_splits)
  from spin_ok_goto [OF this, of c "BeforeSC (word s)"] show ?thesis
    using assms(2) by simp
qed

lemma spin_step_ok: "spin_step s s' \<Longrightarrow> spin_ok s \<Longrightarrow> spin_ok s'"
proof (induction rule: spin_step.induct)
  case (acquire s c)
  then show ?case
    using spin_ok_goto [of s c Reading] by simp
next
  case (seen_free s c)
  then show ?case
    using spin_ok_goto [of s c BeforeLL] by simp
qed (simp_all add: spin_ok_ll spin_ok_link spin_ok_sc spin_ok_enter spin_ok_leave spin_ok_unlock)

text \<open>
  C10: Spinlocks exclude each other on any number of cpus. In every state reachable by interleaving
  the instructions of \<open>spinlock_acquire\<close> and \<open>spinlock_release\<close>, with links of the store-conditional
  lost at any time: at most one cpu is between winning the test-and-set and clearing the lock
  word; the lock word is 1 while there is one and 0 otherwise; a cpu that holds the lock is recorded as its holder, so the assertion of
  \<open>spinlock_release\<close> holds; and a cpu outside is not, so \<open>spinlock_acquire\<close> does not panic.
\<close>

theorem spinlock_mutual_exclusion:
  assumes "spin_reachable s"
  shows "(\<forall>c d. inside (pc s c) \<and> inside (pc s d) \<longrightarrow> c = d) \<and> (\<forall>c. pc s c = Holding \<longleftrightarrow> holder s = Some c) \<and>
    word s = (if \<exists>c. inside (pc s c) then 1 else 0)"
proof -
  have "spin_ok s"
    using assms
  proof (induction rule: spin_reachable.induct)
    case start
    show ?case
      by (simp add: spin_ok_def spin_init_def)
  next
    case (step s s')
    then show ?case
      using spin_step_ok by blast
  qed
  then show ?thesis
    unfolding spin_ok_def by blast
qed

text \<open>Cpu 0 has taken the lock, cpu 1 tries to.\<close>

definition example_taken :: spin_system where
  "example_taken = \<lparr>word = 1, holder = Some 0, pc = (\<lambda>c. Outside)(0 := Holding, 1 := Reading), link = (\<lambda>c. False)\<rparr>"

lemma example_taken_reachable: "spin_reachable example_taken"
proof -
  let ?s = "\<lambda>p. \<lparr>word = 0, holder = None, pc = (\<lambda>c. Outside)(0 := p), link = (\<lambda>c. False)\<rparr>"
  have "spin_reachable (?s Reading)"
    using spin_reachable.step [OF spin_reachable.start spin_step.acquire [of _ 0]] by (simp add: spin_init_def goto_def)
  then have "spin_reachable (?s BeforeLL)"
    using spin_reachable.step [OF _ spin_step.seen_free [of "?s Reading" 0]] by (simp add: goto_def)
  then have "spin_reachable ((?s (BeforeSC 0))\<lparr>link := (\<lambda>c. False)(0 := True)\<rparr>)"
    using spin_reachable.step [OF _ spin_step.ll [of "?s BeforeLL" 0]] by (simp add: goto_def)
  then have "spin_reachable ((?s Won)\<lparr>word := 1\<rparr>)"
    using spin_reachable.step [OF _ spin_step.sc [of "(?s (BeforeSC 0))\<lparr>link := (\<lambda>c. False)(0 := True)\<rparr>" 0 0]]
    by (simp add: goto_def testandset_sc_def store_word_def)
  then have "spin_reachable ((?s Holding)\<lparr>word := 1, holder := Some 0\<rparr>)"
    using spin_reachable.step [OF _ spin_step.own [of "(?s Won)\<lparr>word := 1\<rparr>" 0]] by (simp add: goto_def)
  then show ?thesis
    using spin_reachable.step [OF _ spin_step.acquire [of "(?s Holding)\<lparr>word := 1, holder := Some 0\<rparr>" 1]]
    by (simp add: goto_def example_taken_def)
qed

theorem spinlock_mutual_exclusion_witness:
  "pc example_taken 0 = Holding \<and> holder example_taken = Some 0 \<and> \<not> inside (pc example_taken 1) \<and> word example_taken = 1"
proof -
  have "pc example_taken 0 = Holding" "inside (pc example_taken 0)"
    by (simp_all add: example_taken_def)
  then show ?thesis
    using spinlock_mutual_exclusion [OF example_taken_reachable] by (auto split: if_splits)
qed

end
