(* ===== verification/Thread.thy ===== *)
theory Thread
  imports Bitmap Threadlist Spinlock Kernel_Monad
begin

text \<open>
  Threads, cpus and processes: thread/thread.c, thread/clock.c and proc/proc.c. Cpu \<open>me\<close> executes
  the functions; a spinlock held by another cpu blocks it. The run queues, the lists of zombies
  and the wait channels are the linked lists of \<open>Threadlist\<close>, and the interrupt level and the
  spinlocks are those of \<open>Spinlock\<close>, so every acquisition and release of the source is there. The
  operations of the virtual memory and file systems that threads call are parameters.
\<close>

section \<open>State\<close>

datatype threadstate = S_RUN | S_READY | S_SLEEP | S_ZOMBIE

text \<open>
  The saved context of a thread that is not running: inside \<open>thread_switch\<close>, with its local
  variable \<open>spl\<close>, or about to enter \<open>thread_startup\<close> with its three arguments.
\<close>

datatype saved_context = InSwitch int | InStartup nat nat nat

text \<open>Of the stack the four guard words at its base matter; \<open>None\<close> is the boot stack.\<close>

record thread =
  t_name :: string
  t_wchan_name :: "string option"
  t_state :: threadstate
  tm_badfaultfunc :: "u32 option"
  t_stack :: "u32 list option"
  t_context :: "saved_context option"
  t_cpu :: "nat option"
  t_proc :: "nat option"
  t_in_interrupt :: bool
  thr_curspl :: int
  thr_iplhigh_count :: int

text \<open>The last two fields are the interrupt enable bit and the interrupt line of other cpus.\<close>

record cpu =
  c_hardware_number :: u32
  c_curthread :: nat
  c_hardclocks :: u32
  cpu_spinlocks :: u32
  c_isidle :: bool
  c_ipi_pending :: u32
  c_shootdown :: "int list"
  cpu_irq :: bool
  cpu_ipi_line :: bool

record proc =
  p_name :: string
  p_numthreads :: u32
  p_addrspace :: "nat option"
  p_cwd :: "nat option"
  exit_status :: int
  pid :: int

record 'v thread_sys = thread_lists +
  threads :: "nat \<Rightarrow> thread option"
  cpus :: "cpu list"
  wchans :: "nat \<Rightarrow> string option"
  procs :: "nat \<Rightarrow> proc option"
  kproc :: nat
  next_free_pid :: u8
  spinlocks :: "nat \<Rightarrow> spinlock"
  hangm :: hangman
  next_addr :: nat
  thr_reqs :: nat
  world :: 'v

text \<open>
  The rest of the kernel: whether the \<open>n\<close>-th memory request succeeds, and the effects on the
  virtual memory and file systems.
\<close>

record 'v thread_env =
  env_kmalloc :: "nat \<Rightarrow> bool"
  env_as_activate :: "nat option \<Rightarrow> 'v \<Rightarrow> 'v"
  env_as_deactivate :: "'v \<Rightarrow> 'v"
  env_as_destroy :: "nat \<Rightarrow> 'v \<Rightarrow> 'v"
  env_vop_incref :: "nat \<Rightarrow> 'v \<Rightarrow> 'v"
  env_vop_decref :: "nat \<Rightarrow> 'v \<Rightarrow> 'v"

type_synonym ('a, 'v) top = "('a, 'v thread_sys) kop"

abbreviation THREAD_STACK_MAGIC :: u32 where "THREAD_STACK_MAGIC \<equiv> 0xbaadf00d"
abbreviation IPI_PANIC :: nat where "IPI_PANIC \<equiv> 0"
abbreviation IPI_OFFLINE :: nat where "IPI_OFFLINE \<equiv> 1"
abbreviation IPI_UNIDLE :: nat where "IPI_UNIDLE \<equiv> 2"
abbreviation IPI_TLBSHOOTDOWN :: nat where "IPI_TLBSHOOTDOWN \<equiv> 3"
abbreviation TLBSHOOTDOWN_MAX :: nat where "TLBSHOOTDOWN_MAX \<equiv> 16"
abbreviation SCHEDULE_HARDCLOCKS :: u32 where "SCHEDULE_HARDCLOCKS \<equiv> 4"
abbreviation MIGRATE_HARDCLOCKS :: u32 where "MIGRATE_HARDCLOCKS \<equiv> 16"

text \<open>The numbers of the spinlocks inside the structures.\<close>

definition runqueue_lock :: "nat \<Rightarrow> nat" where "runqueue_lock c = 4 * c + 1"
definition ipi_lock :: "nat \<Rightarrow> nat" where "ipi_lock c = 4 * c + 2"
definition proc_lock :: "nat \<Rightarrow> nat" where "proc_lock p = 4 * p + 3"

text \<open>Cpus are actors of the deadlock detector under their own numbers, threads behind them.\<close>

abbreviation MAXCPUS :: nat where "MAXCPUS \<equiv> 32"

definition thread_actor :: "nat \<Rightarrow> nat" where "thread_actor t = MAXCPUS + t"

section \<open>Access to the state\<close>

definition thr_get :: "nat \<Rightarrow> (thread, 'v) top" where
  "thr_get t = klift (\<lambda>s. deref (threads s t))"

definition thr_update :: "nat \<Rightarrow> (thread \<Rightarrow> thread) \<Rightarrow> (unit, 'v) top" where
  "thr_update t f = kbind (thr_get t) (\<lambda>th. kmodify (\<lambda>s. s\<lparr>threads := (threads s)(t := Some (f th))\<rparr>))"

definition cpu_get :: "nat \<Rightarrow> (cpu, 'v) top" where
  "cpu_get c = klift (\<lambda>s. arr_get (cpus s) c)"

definition cpu_update :: "nat \<Rightarrow> (cpu \<Rightarrow> cpu) \<Rightarrow> (unit, 'v) top" where
  "cpu_update c f = kbind (cpu_get c) (\<lambda>x. kmodify (\<lambda>s. s\<lparr>cpus := (cpus s)[c := f x]\<rparr>))"

definition proc_get :: "nat \<Rightarrow> (proc, 'v) top" where
  "proc_get p = klift (\<lambda>s. deref (procs s p))"

definition proc_update :: "nat \<Rightarrow> (proc \<Rightarrow> proc) \<Rightarrow> (unit, 'v) top" where
  "proc_update p f = kbind (proc_get p) (\<lambda>x. kmodify (\<lambda>s. s\<lparr>procs := (procs s)(p := Some (f x))\<rparr>))"

definition on_world :: "('v \<Rightarrow> 'v) \<Rightarrow> (unit, 'v) top" where
  "on_world f = kmodify (\<lambda>s. s\<lparr>world := f (world s)\<rparr>)"

definition curthread :: "nat \<Rightarrow> (nat, 'v) top" where
  "curthread me = kbind (cpu_get me) (\<lambda>c. kret (c_curthread c))"

definition curproc :: "nat \<Rightarrow> (nat option, 'v) top" where
  "curproc me = kbind (curthread me) (\<lambda>t. kbind (thr_get t) (\<lambda>th. kret (t_proc th)))"

definition alloc :: "'v thread_env \<Rightarrow> (bool, 'v) top" where
  "alloc env s = Inr (Done (env_kmalloc env (thr_reqs s)), s\<lparr>thr_reqs := Suc (thr_reqs s)\<rparr>)"

definition step_list :: "('v thread_sys \<Rightarrow> 'v thread_sys res) \<Rightarrow> (unit, 'v) top" where
  "step_list f s = rbind (f s) (\<lambda>s. Inr (Done (), s))"

definition take_list :: "('v thread_sys \<Rightarrow> (nat option \<times> 'v thread_sys) res) \<Rightarrow> (nat option, 'v) top" where
  "take_list f s = rbind (f s) (\<lambda>(t, s). Inr (Done t, s))"

text \<open>A loop body as a state change.\<close>

definition body_of :: "(unit, 'v) top \<Rightarrow> 'v thread_sys \<Rightarrow> 'v thread_sys res" where
  "body_of m s = rbind (m s) (\<lambda>(r, s). Inr s)"

text \<open>The interrupt level of the current thread and the spinlocks, as the lock code sees them.\<close>

definition lock_view :: "nat \<Rightarrow> 'v thread_sys \<Rightarrow> cpu_locks res" where
  "lock_view me s =
     rbind (arr_get (cpus s) me) (\<lambda>c.
     rbind (deref (threads s (c_curthread c))) (\<lambda>th.
     Inr \<lparr>curcpu_exists = True, t_curspl = thr_curspl th, t_iplhigh_count = thr_iplhigh_count th, irq_on = cpu_irq c,
          c_spinlocks = cpu_spinlocks c, locks = spinlocks s, hang = hangm s\<rparr>))"

definition put_view :: "nat \<Rightarrow> cpu_locks \<Rightarrow> 'v thread_sys \<Rightarrow> 'v thread_sys" where
  "put_view me v s =
     (let c = cpus s ! me; t = c_curthread c
      in s\<lparr>cpus := (cpus s)[me := c\<lparr>cpu_irq := irq_on v, cpu_spinlocks := c_spinlocks v\<rparr>],
           threads := (threads s)(t := map_option (\<lambda>th. th\<lparr>thr_curspl := t_curspl v, thr_iplhigh_count := t_iplhigh_count v\<rparr>) (threads s t)),
           spinlocks := locks v, hangm := hang v\<rparr>)"

definition on_locks :: "nat \<Rightarrow> (cpu_locks \<Rightarrow> ('a \<times> cpu_locks) res) \<Rightarrow> ('a, 'v) top" where
  "on_locks me f s = rbind (lock_view me s) (\<lambda>v. rbind (f v) (\<lambda>(x, v). Inr (Done x, put_view me v s)))"

definition lk_acquire :: "nat \<Rightarrow> nat \<Rightarrow> (unit, 'v) top" where
  "lk_acquire me l = on_locks me (\<lambda>v. rbind (spinlock_acquire me l v) (\<lambda>v. Inr ((), v)))"

definition lk_release :: "nat \<Rightarrow> nat \<Rightarrow> (unit, 'v) top" where
  "lk_release me l = on_locks me (\<lambda>v. rbind (spinlock_release me l v) (\<lambda>v. Inr ((), v)))"

definition do_i_hold :: "nat \<Rightarrow> nat \<Rightarrow> (bool, 'v) top" where
  "do_i_hold me l = on_locks me (\<lambda>v. Inr (spinlock_do_i_hold me l v, v))"

definition set_spl :: "nat \<Rightarrow> int \<Rightarrow> (int, 'v) top" where
  "set_spl me spl = on_locks me (splx spl)"

definition init_lock :: "nat \<Rightarrow> (unit, 'v) top" where
  "init_lock l = kmodify (\<lambda>s. s\<lparr>spinlocks := (spinlocks s)(l := \<lparr>splk_lock = 0, splk_holder = None\<rparr>),
     hangm := (hangm s)\<lparr>l_holding := (l_holding (hangm s))(l := None)\<rparr>\<rparr>)"

section \<open>Processes\<close>

definition proc_create :: "'v thread_env \<Rightarrow> string \<Rightarrow> (nat option, 'v) top" where
  "proc_create env name =
     kbind (alloc env) (\<lambda>ok.
     if \<not> ok then kret None
     else
       kbind (alloc env) (\<lambda>ok.
       if \<not> ok then kret None
       else
         kbind (kget next_addr) (\<lambda>p.
         kbind (init_lock (proc_lock p)) (\<lambda>_.
         kbind (kmodify (\<lambda>s. s\<lparr>next_addr := Suc p,
            procs := (procs s)(p \<mapsto> \<lparr>p_name = name, p_numthreads = 0, p_addrspace = None, p_cwd = None,
                                     exit_status = 0, pid = uint (next_free_pid s)\<rparr>),
            next_free_pid := next_free_pid s + 1\<rparr>)) (\<lambda>_.
         kret (Some p))))))"

definition proc_bootstrap :: "'v thread_env \<Rightarrow> (unit, 'v) top" where
  "proc_bootstrap env =
     kbind (proc_create env ''[kernel]'') (\<lambda>p.
     case p of
       None \<Rightarrow> kstop (Panic ''proc_create for kproc failed'')
     | Some p \<Rightarrow> kmodify (\<lambda>s. s\<lparr>kproc := p\<rparr>))"

definition proc_setas :: "nat \<Rightarrow> nat option \<Rightarrow> (nat option, 'v) top" where
  "proc_setas me newas =
     kbind (curproc me) (\<lambda>p.
     case p of
       None \<Rightarrow> kstop KAssertFail
     | Some p \<Rightarrow>
         kbind (lk_acquire me (proc_lock p)) (\<lambda>_.
         kbind (proc_get p) (\<lambda>pr.
         kbind (proc_update p (\<lambda>pr. pr\<lparr>p_addrspace := newas\<rparr>)) (\<lambda>_.
         kbind (lk_release me (proc_lock p)) (\<lambda>_.
         kret (p_addrspace pr))))))"

definition proc_getas :: "nat \<Rightarrow> (nat option, 'v) top" where
  "proc_getas me =
     kbind (curproc me) (\<lambda>p.
     case p of
       None \<Rightarrow> kret None
     | Some p \<Rightarrow>
         kbind (lk_acquire me (proc_lock p)) (\<lambda>_.
         kbind (proc_get p) (\<lambda>pr.
         kbind (lk_release me (proc_lock p)) (\<lambda>_.
         kret (p_addrspace pr)))))"

definition proc_destroy :: "'v thread_env \<Rightarrow> nat \<Rightarrow> nat \<Rightarrow> (unit, 'v) top" where
  "proc_destroy env me p =
     kbind (kcheck (\<lambda>s. p \<noteq> kproc s)) (\<lambda>_.
     kbind (proc_get p) (\<lambda>pr.
     kbind (case p_cwd pr of
              None \<Rightarrow> kret ()
            | Some v \<Rightarrow> kbind (on_world (env_vop_decref env v)) (\<lambda>_. proc_update p (\<lambda>pr. pr\<lparr>p_cwd := None\<rparr>))) (\<lambda>_.
     kbind (case p_addrspace pr of
              None \<Rightarrow> kret ()
            | Some as \<Rightarrow>
                kbind (curproc me) (\<lambda>cur.
                kbind (if cur = Some p then
                         kbind (proc_setas me None) (\<lambda>old.
                         kbind (on_world (env_as_deactivate env)) (\<lambda>_.
                         kret old))
                       else
                         kbind (proc_update p (\<lambda>pr. pr\<lparr>p_addrspace := None\<rparr>)) (\<lambda>_.
                         kret (Some as))) (\<lambda>as.
                kbind (klift (\<lambda>s. deref as)) (\<lambda>as.
                on_world (env_as_destroy env as))))) (\<lambda>_.
     kbind (proc_get p) (\<lambda>pr.
     kbind (kcheck (\<lambda>s. p_numthreads pr = 0)) (\<lambda>_.
     kbind (kcheck (\<lambda>s. splk_holder (spinlocks s (proc_lock p)) = None)) (\<lambda>_.
     kbind (kcheck (\<lambda>s. splk_lock (spinlocks s (proc_lock p)) = 0)) (\<lambda>_.
     kmodify (\<lambda>s. s\<lparr>procs := (procs s)(p := None)\<rparr>)))))))))"

definition proc_create_runprogram :: "'v thread_env \<Rightarrow> nat \<Rightarrow> string \<Rightarrow> (nat option, 'v) top" where
  "proc_create_runprogram env me name =
     kbind (proc_create env name) (\<lambda>newproc.
     case newproc of
       None \<Rightarrow> kret None
     | Some newproc \<Rightarrow>
         kbind (proc_update newproc (\<lambda>pr. pr\<lparr>p_addrspace := None\<rparr>)) (\<lambda>_.
         kbind (curproc me) (\<lambda>cur.
         kbind (klift (\<lambda>s. deref cur)) (\<lambda>cur.
         kbind (lk_acquire me (proc_lock cur)) (\<lambda>_.
         kbind (proc_get cur) (\<lambda>pr.
         kbind (case p_cwd pr of
                  None \<Rightarrow> kret ()
                | Some v \<Rightarrow>
                    kbind (on_world (env_vop_incref env v)) (\<lambda>_.
                    proc_update newproc (\<lambda>pr. pr\<lparr>p_cwd := Some v\<rparr>))) (\<lambda>_.
         kbind (lk_release me (proc_lock cur)) (\<lambda>_.
         kret (Some newproc)))))))))"

definition proc_addthread :: "nat \<Rightarrow> nat \<Rightarrow> nat \<Rightarrow> (unit, 'v) top" where
  "proc_addthread me p t =
     kbind (thr_get t) (\<lambda>th.
     kbind (kcheck (\<lambda>s. t_proc th = None)) (\<lambda>_.
     kbind (lk_acquire me (proc_lock p)) (\<lambda>_.
     kbind (proc_update p (\<lambda>pr. pr\<lparr>p_numthreads := p_numthreads pr + 1\<rparr>)) (\<lambda>_.
     kbind (lk_release me (proc_lock p)) (\<lambda>_.
     kbind (set_spl me IPL_HIGH) (\<lambda>spl.
     kbind (thr_update t (\<lambda>th. th\<lparr>t_proc := Some p\<rparr>)) (\<lambda>_.
     kbind (set_spl me spl) (\<lambda>_. kret ()))))))))"

definition proc_remthread :: "nat \<Rightarrow> nat \<Rightarrow> (unit, 'v) top" where
  "proc_remthread me t =
     kbind (thr_get t) (\<lambda>th.
     case t_proc th of
       None \<Rightarrow> kstop KAssertFail
     | Some p \<Rightarrow>
         kbind (lk_acquire me (proc_lock p)) (\<lambda>_.
         kbind (proc_get p) (\<lambda>pr.
         kbind (kcheck (\<lambda>s. p_numthreads pr > 0)) (\<lambda>_.
         kbind (proc_update p (\<lambda>pr. pr\<lparr>p_numthreads := p_numthreads pr - 1\<rparr>)) (\<lambda>_.
         kbind (lk_release me (proc_lock p)) (\<lambda>_.
         kbind (set_spl me IPL_HIGH) (\<lambda>spl.
         kbind (thr_update t (\<lambda>th. th\<lparr>t_proc := None\<rparr>)) (\<lambda>_.
         kbind (set_spl me spl) (\<lambda>_. kret ())))))))))"

section \<open>Threads\<close>

definition stack_guard :: "u32 list" where
  "stack_guard = replicate 4 THREAD_STACK_MAGIC"

definition thread_checkstack_init :: "nat \<Rightarrow> (unit, 'v) top" where
  "thread_checkstack_init t = thr_update t (\<lambda>th. th\<lparr>t_stack := map_option (\<lambda>st. stack_guard @ drop 4 st) (t_stack th)\<rparr>)"

definition thread_checkstack :: "nat \<Rightarrow> (unit, 'v) top" where
  "thread_checkstack t =
     kbind (thr_get t) (\<lambda>th.
     kcheck (\<lambda>s. case t_stack th of None \<Rightarrow> True | Some st \<Rightarrow> take 4 st = stack_guard))"

definition thread_create :: "'v thread_env \<Rightarrow> string \<Rightarrow> (nat option, 'v) top" where
  "thread_create env name =
     kbind (alloc env) (\<lambda>ok.
     if \<not> ok then kret None
     else
       kbind (alloc env) (\<lambda>ok.
       if \<not> ok then kret None
       else
         kbind (kget next_addr) (\<lambda>t.
         kbind (kmodify (\<lambda>s. threadlistnode_init t (s\<lparr>next_addr := Suc t,
            threads := (threads s)(t \<mapsto> \<lparr>t_name = name, t_wchan_name = Some ''NEW'', t_state = S_READY, tm_badfaultfunc = None, t_stack = None, t_context = None,
                                       t_cpu = None, t_proc = None, t_in_interrupt = False, thr_curspl = IPL_HIGH, thr_iplhigh_count = 1\<rparr>),
            hangm := (hangm s)\<lparr>a_waiting := (a_waiting (hangm s))(thread_actor t := None)\<rparr>\<rparr>))) (\<lambda>_.
         kret (Some t)))))"

definition thread_destroy :: "nat \<Rightarrow> nat \<Rightarrow> (unit, 'v) top" where
  "thread_destroy me t =
     kbind (curthread me) (\<lambda>cur.
     kbind (kcheck (\<lambda>s. t \<noteq> cur)) (\<lambda>_.
     kbind (thr_get t) (\<lambda>th.
     kbind (kcheck (\<lambda>s. t_state th \<noteq> S_RUN)) (\<lambda>_.
     kbind (kcheck (\<lambda>s. t_proc th = None)) (\<lambda>_.
     kbind (klift (threadlistnode_cleanup t)) (\<lambda>_.
     kbind (kcheck (\<lambda>s. tm_badfaultfunc th = None)) (\<lambda>_.
     kmodify (\<lambda>s. s\<lparr>threads := (threads s)(t := None)\<rparr>))))))))"

text \<open>The zombies of a cpu; the bound is their number.\<close>

definition exorcise :: "nat \<Rightarrow> (unit, 'v) top" where
  "exorcise me s =
     step_list (while_remhead (Suc (unat (tl_count s (Zombies me)))) (threadlist_remhead (Zombies me))
       (\<lambda>z. body_of (
          kbind (curthread me) (\<lambda>cur.
          kbind (kcheck (\<lambda>s. z \<noteq> cur)) (\<lambda>_.
          kbind (thr_get z) (\<lambda>th.
          kbind (kcheck (\<lambda>s. t_state th = S_ZOMBIE)) (\<lambda>_.
          thread_destroy me z))))))) s"

section \<open>Interrupts between cpus\<close>

text \<open>\<open>mainbus_send_ipi\<close> raises the interrupt line of the target.\<close>

definition ipi_send :: "nat \<Rightarrow> nat \<Rightarrow> nat \<Rightarrow> (unit, 'v) top" where
  "ipi_send me target code =
     kbind (kcheck (\<lambda>s. code < 32)) (\<lambda>_.
     kbind (lk_acquire me (ipi_lock target)) (\<lambda>_.
     kbind (cpu_update target (\<lambda>c. c\<lparr>c_ipi_pending := c_ipi_pending c OR push_bit code 1, cpu_ipi_line := True\<rparr>)) (\<lambda>_.
     lk_release me (ipi_lock target))))"

definition ipi_broadcast :: "nat \<Rightarrow> nat \<Rightarrow> (unit, 'v) top" where
  "ipi_broadcast me code =
     kbind (kget (\<lambda>s. length (cpus s))) (\<lambda>n.
     kfold (\<lambda>i _. if i \<noteq> me then ipi_send me i code else kret ()) [0..<n] ())"

definition ipi_tlbshootdown :: "nat \<Rightarrow> nat \<Rightarrow> int \<Rightarrow> (unit, 'v) top" where
  "ipi_tlbshootdown me target mapping =
     kbind (lk_acquire me (ipi_lock target)) (\<lambda>_.
     kbind (cpu_get target) (\<lambda>c.
     if length (c_shootdown c) = TLBSHOOTDOWN_MAX then kstop (Panic ''ipi_tlbshootdown: Too many shootdowns queued'')
     else
       kbind (cpu_update target (\<lambda>c. c\<lparr>c_shootdown := c_shootdown c @ [mapping],
         c_ipi_pending := c_ipi_pending c OR push_bit IPI_TLBSHOOTDOWN 1, cpu_ipi_line := True\<rparr>)) (\<lambda>_.
       lk_release me (ipi_lock target))))"

text \<open>A cpu that is asked to stop halts for good; \<open>vm_tlbshootdown\<close> panics.\<close>

definition interprocessor_interrupt :: "nat \<Rightarrow> (unit, 'v) top" where
  "interprocessor_interrupt me =
     kbind (lk_acquire me (ipi_lock me)) (\<lambda>_.
     kbind (cpu_get me) (\<lambda>c.
     let bits = c_ipi_pending c in
     if bit bits IPI_PANIC then kbind (lk_release me (ipi_lock me)) (\<lambda>_. kstop Blocked)
     else if bit bits IPI_OFFLINE then
       kbind (lk_release me (ipi_lock me)) (\<lambda>_.
       kbind (lk_acquire me (runqueue_lock me)) (\<lambda>_.
       kbind (lk_release me (runqueue_lock me)) (\<lambda>_.
       kstop Blocked)))
     else
       kbind (if bit bits IPI_TLBSHOOTDOWN then
                if c_shootdown c \<noteq> [] then kstop (Panic ''Someone tried to shutdown the TLB'') else kret ()
              else kret ()) (\<lambda>_.
       kbind (cpu_update me (\<lambda>c. c\<lparr>c_ipi_pending := 0\<rparr>)) (\<lambda>_.
       lk_release me (ipi_lock me)))))"

definition thread_panic :: "nat \<Rightarrow> (unit, 'v) top" where
  "thread_panic me =
     kbind (ipi_broadcast me IPI_PANIC) (\<lambda>_.
     kmodify (\<lambda>s. set_prev (Tail (Runqueue me)) (Some (Head (Runqueue me)))
                    (set_next (Head (Runqueue me)) (Some (Tail (Runqueue me)))
                      (s\<lparr>tl_count := (tl_count s)(Runqueue me := 0)\<rparr>))))"

definition thread_shutdown :: "nat \<Rightarrow> (unit, 'v) top" where
  "thread_shutdown me = ipi_broadcast me IPI_OFFLINE"

section \<open>Scheduling\<close>

definition thread_make_runnable :: "nat \<Rightarrow> nat \<Rightarrow> bool \<Rightarrow> (unit, 'v) top" where
  "thread_make_runnable me target already_have_lock =
     kbind (thr_get target) (\<lambda>th.
     kbind (klift (\<lambda>s. deref (t_cpu th))) (\<lambda>targetcpu.
     kbind (if already_have_lock then
              kbind (do_i_hold me (runqueue_lock targetcpu)) (\<lambda>held. kcheck (\<lambda>s. held))
            else lk_acquire me (runqueue_lock targetcpu)) (\<lambda>_.
     kbind (thr_update target (\<lambda>th. th\<lparr>t_state := S_READY\<rparr>)) (\<lambda>_.
     kbind (step_list (threadlist_addtail (Runqueue targetcpu) target)) (\<lambda>_.
     kbind (cpu_get targetcpu) (\<lambda>c.
     kbind (if c_isidle c \<and> targetcpu \<noteq> me then ipi_send me targetcpu IPI_UNIDLE else kret ()) (\<lambda>_.
     if already_have_lock then kret () else lk_release me (runqueue_lock targetcpu))))))))"

definition thread_fork :: "'v thread_env \<Rightarrow> nat \<Rightarrow> string \<Rightarrow> nat option \<Rightarrow> nat \<Rightarrow> nat \<Rightarrow> nat \<Rightarrow> (unit, 'v) top" where
  "thread_fork env me name proc entrypoint data1 data2 =
     kbind (thread_create env name) (\<lambda>newthread.
     case newthread of
       None \<Rightarrow> kfail ENOMEM
     | Some newthread \<Rightarrow>
         kbind (alloc env) (\<lambda>ok.
         if \<not> ok then kbind (thread_destroy me newthread) (\<lambda>_. kfail ENOMEM)
         else
           kbind (thr_update newthread (\<lambda>th. th\<lparr>t_stack := Some (replicate 4 0)\<rparr>)) (\<lambda>_.
           kbind (thread_checkstack_init newthread) (\<lambda>_.
           kbind (curthread me) (\<lambda>cur.
           kbind (thr_get cur) (\<lambda>th.
           kbind (thr_update newthread (\<lambda>nt. nt\<lparr>t_cpu := t_cpu th\<rparr>)) (\<lambda>_.
           kbind (klift (\<lambda>s. deref (if proc = None then t_proc th else proc))) (\<lambda>proc.
           kcall (proc_addthread me proc newthread) (\<lambda>result.
           case result of
             Fail e \<Rightarrow> kbind (thread_destroy me newthread) (\<lambda>_. kfail e)
           | Done _ \<Rightarrow>
               kbind (thr_update newthread (\<lambda>th. th\<lparr>thr_iplhigh_count := thr_iplhigh_count th + 1\<rparr>)) (\<lambda>_.
               kbind (thr_update newthread (\<lambda>th. th\<lparr>t_context := Some (InStartup entrypoint data1 data2)\<rparr>)) (\<lambda>_.
               thread_make_runnable me newthread False)))))))))))"

text \<open>
  \<open>thread_switch\<close> up to the choice of the next thread; \<open>False\<close> if it returns without a switch. The
  local variable \<open>spl\<close> stays on the stack of the thread, which is its saved context.
\<close>

definition thread_switch_leave :: "nat \<Rightarrow> threadstate \<Rightarrow> nat \<Rightarrow> nat \<Rightarrow> (bool, 'v) top" where
  "thread_switch_leave me newstate wc lk =
     kbind (set_spl me IPL_HIGH) (\<lambda>spl.
     kbind (cpu_get me) (\<lambda>c.
     let cur = c_curthread c in
     if c_isidle c then kbind (set_spl me spl) (\<lambda>_. kret False)
     else
       kbind (thread_checkstack cur) (\<lambda>_.
       kbind (lk_acquire me (runqueue_lock me)) (\<lambda>_.
       kbind (kget (threadlist_isempty (Runqueue me))) (\<lambda>isempty.
       if newstate = S_READY \<and> isempty then
         kbind (lk_release me (runqueue_lock me)) (\<lambda>_.
         kbind (set_spl me spl) (\<lambda>_.
         kret False))
       else
         kbind (case newstate of
                  S_RUN \<Rightarrow> kstop (Panic ''Illegal S_RUN in thread_switch'')
                | S_READY \<Rightarrow> thread_make_runnable me cur True
                | S_SLEEP \<Rightarrow>
                    kbind (klift (\<lambda>s. deref (wchans s wc))) (\<lambda>wc_name.
                    kbind (thr_update cur (\<lambda>th. th\<lparr>t_wchan_name := Some wc_name\<rparr>)) (\<lambda>_.
                    kbind (step_list (threadlist_addtail (Wchan wc) cur)) (\<lambda>_.
                    lk_release me lk)))
                | S_ZOMBIE \<Rightarrow>
                    kbind (thr_update cur (\<lambda>th. th\<lparr>t_wchan_name := Some ''ZOMBIE''\<rparr>)) (\<lambda>_.
                    step_list (threadlist_addtail (Zombies me) cur))) (\<lambda>_.
         kbind (thr_update cur (\<lambda>th. th\<lparr>t_state := newstate, t_context := Some (InSwitch spl)\<rparr>)) (\<lambda>_.
         kbind (cpu_update me (\<lambda>c. c\<lparr>c_isidle := True\<rparr>)) (\<lambda>_.
         kret True))))))))"

text \<open>
  One round of the loop that looks for the next thread: either the run queue is empty, and the
  cpu unlocks it and idles, or the cpu switches to the first thread of the queue.
\<close>

definition thread_switch_pick :: "nat \<Rightarrow> (bool, 'v) top" where
  "thread_switch_pick me =
     kbind (take_list (threadlist_remhead (Runqueue me))) (\<lambda>next.
     case next of
       None \<Rightarrow> kbind (lk_release me (runqueue_lock me)) (\<lambda>_. kret False)
     | Some next \<Rightarrow> kbind (cpu_update me (\<lambda>c. c\<lparr>c_isidle := False, c_curthread := next\<rparr>)) (\<lambda>_. kret True))"

text \<open>
  The end of \<open>thread_switch\<close>, or the beginning of \<open>thread_startup\<close>, in the thread just switched to.
\<close>

definition thread_resume :: "'v thread_env \<Rightarrow> nat \<Rightarrow> (unit, 'v) top" where
  "thread_resume env me =
     kbind (curthread me) (\<lambda>cur.
     kbind (thr_update cur (\<lambda>th. th\<lparr>t_wchan_name := None, t_state := S_RUN\<rparr>)) (\<lambda>_.
     kbind (lk_release me (runqueue_lock me)) (\<lambda>_.
     kbind (proc_getas me) (\<lambda>as.
     kbind (on_world (env_as_activate env as)) (\<lambda>_.
     kbind (exorcise me) (\<lambda>_.
     kbind (thr_get cur) (\<lambda>th.
     kbind (klift (\<lambda>s. deref (t_context th))) (\<lambda>c.
     kbind (set_spl me (case c of InSwitch spl \<Rightarrow> spl | InStartup _ _ _ \<Rightarrow> IPL_NONE)) (\<lambda>_.
     kret ())))))))))"

datatype switch_result = Returned | Switched | Idling

definition thread_switch :: "'v thread_env \<Rightarrow> nat \<Rightarrow> threadstate \<Rightarrow> nat \<Rightarrow> nat \<Rightarrow> (switch_result, 'v) top" where
  "thread_switch env me newstate wc lk =
     kbind (thread_switch_leave me newstate wc lk) (\<lambda>left.
     if \<not> left then kret Returned
     else
       kbind (thread_switch_pick me) (\<lambda>picked.
       if picked then kbind (thread_resume env me) (\<lambda>_. kret Switched) else kret Idling))"

text \<open>After \<open>cpu_idle\<close> the cpu locks the run queue again and looks once more.\<close>

definition thread_unidle :: "'v thread_env \<Rightarrow> nat \<Rightarrow> (switch_result, 'v) top" where
  "thread_unidle env me =
     kbind (lk_acquire me (runqueue_lock me)) (\<lambda>_.
     kbind (thread_switch_pick me) (\<lambda>picked.
     if picked then kbind (thread_resume env me) (\<lambda>_. kret Switched) else kret Idling))"

definition thread_yield :: "'v thread_env \<Rightarrow> nat \<Rightarrow> (switch_result, 'v) top" where
  "thread_yield env me = thread_switch env me S_READY 0 0"

text \<open>A zombie is never switched to, so the panic at the end stands for a return without a switch.\<close>

definition thread_exit :: "'v thread_env \<Rightarrow> nat \<Rightarrow> (switch_result, 'v) top" where
  "thread_exit env me =
     kbind (curthread me) (\<lambda>cur.
     kbind (proc_remthread me cur) (\<lambda>_.
     kbind (thr_get cur) (\<lambda>th.
     kbind (kcheck (\<lambda>s. t_proc th = None)) (\<lambda>_.
     kbind (thread_checkstack cur) (\<lambda>_.
     kbind (set_spl me IPL_HIGH) (\<lambda>_.
     kbind (thread_switch env me S_ZOMBIE 0 0) (\<lambda>r.
     if r = Returned then kstop (Panic ''braaaaaaaiiiiiiiiiiinssssss'') else kret r)))))))"

definition schedule :: "(unit, 'v) top" where
  "schedule = kret ()"

section \<open>Migration\<close>

text \<open>The lengths of the run queues: in total, and of this cpu.\<close>

definition count_ready :: "nat \<Rightarrow> nat list \<Rightarrow> (u32 \<times> u32, 'v) top" where
  "count_ready me is =
     kfold (\<lambda>i (my_count, total_count).
       kbind (lk_acquire me (runqueue_lock i)) (\<lambda>_.
       kbind (kget (\<lambda>s. tl_count s (Runqueue i))) (\<lambda>n.
       kbind (lk_release me (runqueue_lock i)) (\<lambda>_.
       kret (if i = me then n else my_count, total_count + n))))) is (0, 0)"

text \<open>\<open>to_send\<close> threads from the end of the run queue to the head of the list of victims.\<close>

definition take_victims :: "nat \<Rightarrow> nat \<Rightarrow> (unit, 'v) top" where
  "take_victims me to_send =
     kfold (\<lambda>i _.
       kbind (take_list (threadlist_remtail (Runqueue me))) (\<lambda>t.
       kbind (klift (\<lambda>s. deref t)) (\<lambda>t.
       step_list (threadlist_addhead LocalList t)))) [0..<to_send] ()"

text \<open>
  The loop that fills the run queue of cpu \<open>i\<close>; the argument is \<open>to_send\<close>, which goes down by
  one in every round, and the result is what is left of it.
\<close>

primrec send_to :: "nat \<Rightarrow> nat \<Rightarrow> u32 \<Rightarrow> nat \<Rightarrow> (nat, 'v) top" where
  "send_to me i one_share 0 = kret 0"
| "send_to me i one_share (Suc n) =
     kbind (kget (\<lambda>s. tl_count s (Runqueue i))) (\<lambda>count.
     if \<not> count < one_share then kret (Suc n)
     else
       kbind (take_list (threadlist_remhead LocalList)) (\<lambda>t.
       kbind (klift (\<lambda>s. deref t)) (\<lambda>t.
       kbind (curthread me) (\<lambda>cur.
       if t = cur then
         kbind (step_list (threadlist_addtail LocalList t)) (\<lambda>_. send_to me i one_share n)
       else
         kbind (thr_update t (\<lambda>th. th\<lparr>t_cpu := Some i\<rparr>)) (\<lambda>_.
         kbind (step_list (threadlist_addtail (Runqueue i) t)) (\<lambda>_.
         kbind (cpu_get i) (\<lambda>c.
         kbind (if c_isidle c then ipi_send me i IPI_UNIDLE else kret ()) (\<lambda>_.
         send_to me i one_share n))))))))"

definition thread_consider_migration :: "nat \<Rightarrow> (unit, 'v) top" where
  "thread_consider_migration me =
     kbind (kget (\<lambda>s. length (cpus s))) (\<lambda>numcpus.
     kbind (count_ready me [0..<numcpus]) (\<lambda>(my_count, total_count).
     let one_share = DIVROUNDUP total_count (of_nat numcpus) in
     if my_count < one_share then kret ()
     else
       let to_send = unat (my_count - one_share) in
       kbind (kmodify (threadlist_init LocalList)) (\<lambda>_.
       kbind (lk_acquire me (runqueue_lock me)) (\<lambda>_.
       kbind (take_victims me to_send) (\<lambda>_.
       kbind (lk_release me (runqueue_lock me)) (\<lambda>_.
       kbind (kfold (\<lambda>i to_send.
                if to_send = 0 \<or> i = me then kret to_send
                else
                  kbind (lk_acquire me (runqueue_lock i)) (\<lambda>_.
                  kbind (send_to me i one_share to_send) (\<lambda>left.
                  kbind (lk_release me (runqueue_lock i)) (\<lambda>_.
                  kret left)))) [0..<numcpus] to_send) (\<lambda>_.
       kbind (kget (threadlist_isempty LocalList)) (\<lambda>none_left.
       kbind (if none_left then kret ()
              else
                kbind (lk_acquire me (runqueue_lock me)) (\<lambda>_.
                kbind (\<lambda>s. step_list (while_remhead (Suc (unat (tl_count s LocalList))) (threadlist_remhead LocalList)
                              (\<lambda>t s. threadlist_addtail (Runqueue me) t s)) s) (\<lambda>_.
                lk_release me (runqueue_lock me)))) (\<lambda>_.
       kbind (kcheck (threadlist_isempty LocalList)) (\<lambda>_.
       klift (threadlist_cleanup LocalList)))))))))))"

section \<open>Wait channels\<close>

definition wchan_create :: "'v thread_env \<Rightarrow> string \<Rightarrow> (nat option, 'v) top" where
  "wchan_create env name =
     kbind (alloc env) (\<lambda>ok.
     if \<not> ok then kret None
     else
       kbind (kget next_addr) (\<lambda>wc.
       kbind (kmodify (\<lambda>s. threadlist_init (Wchan wc) (s\<lparr>next_addr := Suc wc\<rparr>))) (\<lambda>_.
       kbind (kmodify (\<lambda>s. s\<lparr>wchans := (wchans s)(wc \<mapsto> name)\<rparr>)) (\<lambda>_.
       kret (Some wc)))))"

definition wchan_destroy :: "nat \<Rightarrow> (unit, 'v) top" where
  "wchan_destroy wc =
     kbind (klift (threadlist_cleanup (Wchan wc))) (\<lambda>_.
     kmodify (\<lambda>s. s\<lparr>wchans := (wchans s)(wc := None)\<rparr>))"

text \<open>
  \<open>wchan_sleep\<close> up to the switch to another thread, and its end in the thread that was woken.
\<close>

definition wchan_sleep :: "'v thread_env \<Rightarrow> nat \<Rightarrow> nat \<Rightarrow> nat \<Rightarrow> (switch_result, 'v) top" where
  "wchan_sleep env me wc lk =
     kbind (curthread me) (\<lambda>cur.
     kbind (thr_get cur) (\<lambda>th.
     kbind (kcheck (\<lambda>s. \<not> t_in_interrupt th)) (\<lambda>_.
     kbind (do_i_hold me lk) (\<lambda>held.
     kbind (kcheck (\<lambda>s. held)) (\<lambda>_.
     kbind (cpu_get me) (\<lambda>c.
     kbind (kcheck (\<lambda>s. cpu_spinlocks c = 1)) (\<lambda>_.
     thread_switch env me S_SLEEP wc lk)))))))"

definition wchan_sleep_return :: "nat \<Rightarrow> nat \<Rightarrow> (unit, 'v) top" where
  "wchan_sleep_return me lk = lk_acquire me lk"

definition wchan_wakeone :: "nat \<Rightarrow> nat \<Rightarrow> nat \<Rightarrow> (unit, 'v) top" where
  "wchan_wakeone me wc lk =
     kbind (do_i_hold me lk) (\<lambda>held.
     kbind (kcheck (\<lambda>s. held)) (\<lambda>_.
     kbind (take_list (threadlist_remhead (Wchan wc))) (\<lambda>target.
     case target of None \<Rightarrow> kret () | Some target \<Rightarrow> thread_make_runnable me target False)))"

definition wchan_wakeall :: "nat \<Rightarrow> nat \<Rightarrow> nat \<Rightarrow> (unit, 'v) top" where
  "wchan_wakeall me wc lk =
     kbind (do_i_hold me lk) (\<lambda>held.
     kbind (kcheck (\<lambda>s. held)) (\<lambda>_.
     kbind (kmodify (threadlist_init LocalList)) (\<lambda>_.
     kbind (\<lambda>s. step_list (while_remhead (Suc (unat (tl_count s (Wchan wc)))) (threadlist_remhead (Wchan wc))
                   (\<lambda>t s. threadlist_addtail LocalList t s)) s) (\<lambda>_.
     kbind (\<lambda>s. step_list (while_remhead (Suc (unat (tl_count s LocalList))) (threadlist_remhead LocalList)
                   (\<lambda>t. body_of (thread_make_runnable me t False))) s) (\<lambda>_.
     klift (threadlist_cleanup LocalList))))))"

definition wchan_isempty :: "nat \<Rightarrow> nat \<Rightarrow> nat \<Rightarrow> (bool, 'v) top" where
  "wchan_isempty me wc lk =
     kbind (do_i_hold me lk) (\<lambda>held.
     kbind (kcheck (\<lambda>s. held)) (\<lambda>_.
     kget (threadlist_isempty (Wchan wc))))"

section \<open>Clock\<close>

text \<open>The wait channel \<open>lbolt\<close> and its lock are given by their numbers.\<close>

definition hardclock_bootstrap :: "'v thread_env \<Rightarrow> nat \<Rightarrow> (nat, 'v) top" where
  "hardclock_bootstrap env lbolt_lock =
     kbind (init_lock lbolt_lock) (\<lambda>_.
     kbind (wchan_create env ''lbolt'') (\<lambda>lbolt.
     case lbolt of None \<Rightarrow> kstop (Panic ''Couldn't create lbolt'') | Some wc \<Rightarrow> kret wc))"

definition timerclock :: "nat \<Rightarrow> nat \<Rightarrow> nat \<Rightarrow> (unit, 'v) top" where
  "timerclock me lbolt lbolt_lock =
     kbind (lk_acquire me lbolt_lock) (\<lambda>_.
     kbind (wchan_wakeall me lbolt lbolt_lock) (\<lambda>_.
     lk_release me lbolt_lock))"

definition hardclock :: "'v thread_env \<Rightarrow> nat \<Rightarrow> (switch_result, 'v) top" where
  "hardclock env me =
     kbind (cpu_update me (\<lambda>c. c\<lparr>c_hardclocks := c_hardclocks c + 1\<rparr>)) (\<lambda>_.
     kbind (cpu_get me) (\<lambda>c.
     kbind (if c_hardclocks c mod MIGRATE_HARDCLOCKS = 0 then thread_consider_migration me else kret ()) (\<lambda>_.
     kbind (if c_hardclocks c mod SCHEDULE_HARDCLOCKS = 0 then schedule else kret ()) (\<lambda>_.
     thread_yield env me))))"

section \<open>Starting the thread system\<close>

text \<open>\<open>snprintf\<close> with \<open>%d\<close> for a cpu number.\<close>

fun decimal :: "nat \<Rightarrow> string" where
  "decimal n = (if n < 10 then [char_of (48 + n)] else decimal (n div 10) @ [char_of (48 + n mod 10)])"

text \<open>\<open>cpu_create\<close>; the first cpu becomes the current one, and it runs on the boot stack.\<close>

definition cpu_create :: "'v thread_env \<Rightarrow> nat \<Rightarrow> u32 \<Rightarrow> (nat, 'v) top" where
  "cpu_create env me hardware_number =
     kbind (alloc env) (\<lambda>ok.
     if \<not> ok then kstop (Panic ''cpu_create: Out of memory'')
     else
       kbind (kget (\<lambda>s. length (cpus s))) (\<lambda>c_number.
       kbind (kmodify (threadlist_init (Zombies c_number))) (\<lambda>_.
       kbind (kmodify (threadlist_init (Runqueue c_number))) (\<lambda>_.
       kbind (init_lock (runqueue_lock c_number)) (\<lambda>_.
       kbind (init_lock (ipi_lock c_number)) (\<lambda>_.
       kbind (alloc env) (\<lambda>ok.
       if \<not> ok then kstop (Panic ''cpu_create: array_add'')
       else
         kbind (thread_create env (''<boot #'' @ decimal c_number @ ''>'')) (\<lambda>t.
         case t of
           None \<Rightarrow> kstop (Panic ''cpu_create: thread_create failed'')
         | Some t \<Rightarrow>
             kbind (thr_update t (\<lambda>th. th\<lparr>t_cpu := Some c_number\<rparr>)) (\<lambda>_.
             kbind (kmodify (\<lambda>s. s\<lparr>cpus := cpus s @ [\<lparr>c_hardware_number = hardware_number, c_curthread = t, c_hardclocks = 0,
                       cpu_spinlocks = 0, c_isidle = False, c_ipi_pending = 0, c_shootdown = [], cpu_irq = False, cpu_ipi_line = False\<rparr>]\<rparr>)) (\<lambda>_.
             kbind (if c_number = 0 then kret ()
                    else
                      kbind (alloc env) (\<lambda>ok.
                      if \<not> ok then kstop (Panic ''cpu_create: couldn't allocate stack'')
                      else
                        kbind (thr_update t (\<lambda>th. th\<lparr>t_stack := Some (replicate 4 0)\<rparr>)) (\<lambda>_.
                        thread_checkstack_init t))) (\<lambda>_.
             kbind (kmodify (\<lambda>s. s\<lparr>hangm := (hangm s)\<lparr>a_waiting := (a_waiting (hangm s))(c_number := None)\<rparr>\<rparr>)) (\<lambda>_.
             kbind (kget kproc) (\<lambda>kp.
             kcall (proc_addthread (if c_number = 0 then 0 else me) kp t) (\<lambda>r.
             case r of
               Fail e \<Rightarrow> kstop (Panic ''cpu_create: proc_addthread'')
             | Done _ \<Rightarrow> kbind (kcheck (\<lambda>s. c_number < MAXCPUS)) (\<lambda>_. kret c_number)))))))))))))))"

definition thread_bootstrap :: "'v thread_env \<Rightarrow> (unit, 'v) top" where
  "thread_bootstrap env =
     kbind (kmodify (\<lambda>s. s\<lparr>cpus := []\<rparr>)) (\<lambda>_.
     kbind (cpu_create env 0 0) (\<lambda>_.
     kbind (curproc 0) (\<lambda>p.
     kcheck (\<lambda>s. p = Some (kproc s)))))"

end
