(* ===== verification/Spec2Isabelle.thy ===== *)
theory Spec2Isabelle
  imports Exec_Correct Sfs_Dir_Correct Thread
begin

text \<open>
  A verification development for the OS/161 kernel of this repository, an instructional kernel for the
  MIPS machine that the authors extended with paged virtual memory: an inverted page table,
  a managed TLB, a list of free frames, demand loading of programs and a swap file.

  \<^bold>\<open>The parts of the program and how they interact.\<close> A program is started by \<open>runprogram\<close>, which creates an
  address space and has \<open>load_elf\<close> define its regions. A page of a region gets a frame from the page
  allocator (\<open>alloc_kpages\<close>), an entry in the inverted page table and, when there is room, an entry in the TLB. A
  TLB miss ends up in \<open>vm_fault\<close>, which reloads a translation, loads a page from the executable or exchanges a page with the
  swap file. The page allocator keeps its free frames in a list whose nodes are blocks of the kernel heap
  (\<open>kmalloc\<close>), and the heap gets its pages from the page allocator. Below the files lie the simple file
  system SFS and the disk driver \<open>lhd\<close>, whose requests are paired by semaphores; semaphores sleep on wait channels, which
  are thread lists under spinlocks, and threads are switched by \<open>thread_switch\<close>.

  \<^bold>\<open>Theories and sources.\<close> Paths are relative to src/; a definition has the name of the function it models.

  \<^item> \<open>Kernel_Prelude\<close>: the integer types of the kernel as words, the ways in which code can end (a
    value, a panic, a failed \<open>KASSERT\<close>, an access out of range, no fuel, a thread that blocks), loops as \<open>rfold\<close>, \<open>rfind\<close>
    and \<open>walk\<close>, and the lemmas about them that the other theories share. \<open>Kernel_Monad\<close>: sequencing for
    functions that return an error code. \<open>Byte_Order\<close>: big-endian fields. \<open>Pointer_Lists\<close>: chains of pointers.
  \<^item> \<open>Mips_Vm\<close>: include/addrspace.h, arch/mips/include/vm.h and the segment tests of vm/segments.c.
  \<^item> \<open>Page_Table\<close>: vm/pt.c. The table is a list of entries \<open>invertedPT\<close>, one per frame.
  \<^item> \<open>Tlb\<close>: vm/vm_tlb.c over a list of 64 slots, with the three instructions of arch/mips/vm/tlb-mips161.S.
  \<^item> \<open>Ram\<close>: arch/mips/vm/ram.c.
  \<^item> \<open>Kheap\<close>: the subpage allocator of vm/kmalloc.c, on a memory of words and a map of \<open>pageref\<close> structures.
    \<open>Kpages\<close>: lib/list.c, vm/coremap.c and \<open>alloc_kpages\<close>, \<open>free_kpages\<close> of vm/kmalloc.c, which are mutually recursive
    with the heap. \<open>Kheap_Correct\<close> and \<open>Kpages_Correct\<close> hold their invariants \<open>heap_ok\<close> and \<open>kp_ok\<close> and the
    properties; \<open>Kernel_Frame\<close> shows which fields of the state the allocators leave alone.
  \<^item> \<open>Swapfile\<close>: vm/swapfile.c. \<open>Swap_Correct\<close>: its properties.
  \<^item> \<open>Addrspace\<close>: vm/addrspace.c and \<open>alloc_pages\<close> of vm/vm.c. \<open>Coherence\<close>: the TLB against the page table, over all
    of the operations above.
  \<^item> \<open>Loadelf\<close>: syscall/loadelf.c and include/elf.h. \<open>Vm\<close>: vm/vm.c, vm/vmstats.c, syscall/runprogram.c and
    \<open>sys__exit\<close> of main/main.c. \<open>Vm_Correct\<close> and \<open>Exec_Correct\<close>: their properties.
  \<^item> \<open>Copyinout\<close>: vm/copyinout.c. \<open>Uio\<close>: lib/uio.c. \<open>Bitmap\<close>: lib/bitmap.c. \<open>Array\<close>: lib/array.c and
    include/array.h. Each holds its properties.
  \<^item> \<open>Synch\<close>: the semaphores of thread/synch.c. \<open>Lhd\<close>: dev/lamebus/lhd.c. Each holds its properties.
  \<^item> \<open>Sfs\<close>: the on-disk structures of include/kern/sfs.h, fs/sfs/sfs_io.c, sfs_balloc.c and sfs_bmap.c, on the
    state of the disk driver. \<open>Sfs_Dir\<close>: fs/sfs/sfs_dir.c, sfs_inode.c, sfs_vnops.c, sfs_fsops.c and vfs/vnode.c.
    \<open>Sfs_Blocks\<close>, \<open>Sfs_Map\<close>, \<open>Sfs_Bmap\<close>, \<open>Sfs_Meta\<close> and \<open>Sfs_Dir_Correct\<close> hold the properties, from
    blocks up to directories.
  \<^item> \<open>Threadlist\<close>: thread/threadlist.c. \<open>Hangman\<close>: thread/hangman.c. \<open>Spinlock\<close>: thread/spl.c, thread/spinlock.c and
    arch/mips/include/spinlock.h. \<open>Thread\<close>: thread/thread.c, thread/clock.c and proc/proc.c.

  The globals that a file declares are the fields of a record; a record of a later component extends the one it
  builds on (\<open>pt_state\<close>, \<open>tlb_state\<close>, \<open>ram_state\<close>, \<open>kheap_state\<close>, \<open>vm_state\<close>; \<open>lhd_softc\<close>, \<open>sfs_fs\<close>), so that a lower operation
  runs unchanged on the larger state. A function takes the state and returns it with its result, and every panic, assertion
  and error return of the source is a branch of it.

  \<^bold>\<open>What the lemmas show.\<close>

  \<^item> Virtual memory: the page table is a partial map from pages to frames that \<open>addPT\<close> updates at one point and
    \<open>pageSearch\<close> looks up; the victim is the oldest page of the segment; \<open>addTLB\<close> and \<open>removeTLB\<close> change the TLB, seen as a map, at
    one page, up to the defect of its guard; whatever the kernel does, a translation in the TLB
    leads to a frame that holds the page; a fault on a page in memory reloads it, a fault on a swapped page brings its words back; a page
    that goes out and comes in again is unchanged; a region gets the frames at the head of the free list.
  \<^item> Allocation: \<open>kmalloc\<close> and \<open>kfree\<close> are inverse on the free lists, the frames are a stack, and memory stolen
    at boot is disjoint.
  \<^item> Files: the free map, the block map of a file, the bytes of a file and the names of a directory, each as a
    mathematical map, are what the code on disk blocks implements; block I/O ends after eleven attempts.
  \<^item> Concurrency: semaphores count and lose no wake-up, spinlocks exclude each other, interrupt levels nest, the deadlock detector ends and is
    exact, thread lists on pointers are lists, the disk driver never leaves a thread asleep.
  \<^item> Defects of the code are stated as theorems where they change a result: the guard of \<open>addTLB\<close> in slot 0, a write
    error that is lost, statistics that stop adding up, copies of no bytes that are refused.

  Interfaces between components are locales, interpreted on the definitions of the model: \<open>translation_cache\<close> (both ways
  to remove a translation), \<open>still_pages\<close> and \<open>covered_pages\<close> (what the heap needs of a page allocator), \<open>free_map\<close>
  (bitmaps), \<open>list_store\<close> (arrays) and \<open>thread_store\<close> (thread lists).

  \<^bold>\<open>Bounds and fuel.\<close> \<open>alloc_kpages\<close> and \<open>free_kpages\<close> call each other through the heap; the first argument
  bounds that nesting, and running out is the error \<open>OutOfFuel\<close>. In the steady state one level is enough: the theorems
  about allocation, swapping, faults and regions hold for every \<open>Suc k\<close> and produce the result, they do not assume it. Searches along pointer
  lists are bounded by the number of entries there can be; \<open>array_preallocate\<close> doubles at most 32 times; a block transfer is tried
  11 times because the code counts to 10; the loop that empties a list of zombies runs once per thread. The search of the deadlock detector has no bound in the code and is a
  \<open>partial_function\<close>, with a proof that it returns. Machine integers are words of their width wherever the code relies on them; \<open>uio_offset\<close>, of
  64 bits, is an unbounded integer.

  \<^bold>\<open>What is not modelled.\<close> The VFS layer above the file systems, the other devices and their bus, traps and system
  call dispatch, the menu, printing, the emulator and semaphore file systems, and the assembly code. Where modelled code calls such a part its answer is an argument: \<open>vfs_env\<close> for
  the VFS calls of the virtual memory system, \<open>lhd_hw\<close> for the disk, \<open>user_access\<close> for accesses to user memory, \<open>thread_env\<close> for what
  a thread runs. The field \<open>env_user_read\<close> of \<open>vfs_env\<close> stands for a read of a file into user memory, in
  which \<open>vm_fault\<close> may be entered again; no theorem uses a property of it. The wait channels of \<open>Synch\<close> are lists under the spinlock of
  their semaphore; \<open>Thread\<close> has the functions of thread.c with their assertions. Time stamps and debugging output are left out.
\<close>

end
